(* ===== verification/Prelude.thy ===== *)
theory Prelude
  imports Complex_Main "HOL-Library.AList" "HOL-Library.Char_ord" "HOL-Library.List_Lexorder"
    "HOL-Library.Sublist"
begin

text \<open>
  Shared vocabulary of the development: Go errors and panics as values, Go maps as association
  lists in iteration order, the parts of the Go standard library on strings that the program
  uses, and the lemma collections the component theories rely on.
\<close>

section \<open>Results\<close>

text \<open>
  A Go function that returns an error gives \<open>Inl (Error msg)\<close>; a runtime panic (an index out of
  range, a nil dereference, an explicit panic call) gives \<open>Inl (Panic msg)\<close>. The message of an
  error is the constant part of the format string of the source. \<open>OutOfFuel\<close> is no outcome of
  the program: it marks a polling loop that is still running after the number of rounds considered.
\<close>

datatype go_error = Error string | Panic string | OutOfFuel

fun is_panic :: "go_error \<Rightarrow> bool" where
  "is_panic (Panic _) = True"
| "is_panic _ = False"

type_synonym 'a res = "go_error + 'a"

definition bindE :: "'a res \<Rightarrow> ('a \<Rightarrow> 'b res) \<Rightarrow> 'b res" where
  "bindE m f = (case m of Inl e \<Rightarrow> Inl e | Inr x \<Rightarrow> f x)"

lemma bindE_simps [simp]:
  "bindE (Inl e) f = Inl e"
  "bindE (Inr x) f = f x"
  by (simp_all add: bindE_def)

lemma bindE_cong [fundef_cong]:
  "m = m' \<Longrightarrow> (\<And>x. m' = Inr x \<Longrightarrow> f x = f' x) \<Longrightarrow> bindE m f = bindE m' f'"
  by (auto simp: bindE_def split: sum.splits)

lemma bindE_Inr_iff: "bindE m f = Inr y \<longleftrightarrow> (\<exists>x. m = Inr x \<and> f x = Inr y)"
  by (auto simp: bindE_def split: sum.splits)

lemma bindE_Inl_iff: "bindE m f = Inl e \<longleftrightarrow> m = Inl e \<or> (\<exists>x. m = Inr x \<and> f x = Inl e)"
  by (auto simp: bindE_def split: sum.splits)

lemma bindE_splits:
  "P (bindE m f) \<longleftrightarrow> (\<forall>e. m = Inl e \<longrightarrow> P (Inl e)) \<and> (\<forall>x. m = Inr x \<longrightarrow> P (f x))"
  by (auto simp: bindE_def split: sum.splits)

fun mapE :: "('a \<Rightarrow> 'b res) \<Rightarrow> 'a list \<Rightarrow> 'b list res" where
  "mapE f [] = Inr []"
| "mapE f (x # xs) = bindE (f x) (\<lambda>y. bindE (mapE f xs) (\<lambda>ys. Inr (y # ys)))"

lemma mapE_Inr_iff: "mapE f xs = Inr ys \<longleftrightarrow> list_all2 (\<lambda>x y. f x = Inr y) xs ys"
  by (induction xs arbitrary: ys) (auto simp: bindE_Inr_iff list_all2_Cons1)

text \<open>A loop that threads a state and stops at the first error.\<close>

fun foldE :: "('a \<Rightarrow> 's \<Rightarrow> 's res) \<Rightarrow> 'a list \<Rightarrow> 's \<Rightarrow> 's res" where
  "foldE f [] s = Inr s"
| "foldE f (x # xs) s = bindE (f x s) (foldE f xs)"

lemma foldE_append: "foldE f (xs @ ys) s = bindE (foldE f xs s) (foldE f ys)"
  by (induction xs arbitrary: s) (auto simp: bindE_def split: sum.splits)

lemma foldE_invariant:
  assumes "\<And>x s s'. x \<in> set xs \<Longrightarrow> I s \<Longrightarrow> f x s = Inr s' \<Longrightarrow> I s'" "I s" "foldE f xs s = Inr s'"
  shows "I s'"
  using assms
proof (induction xs arbitrary: s)
  case (Cons x xs)
  then obtain s1 where s1: "f x s = Inr s1" "foldE f xs s1 = Inr s'" by (auto simp: bindE_Inr_iff)
  then have "I s1" using Cons.prems by auto
  then show ?case using Cons s1 by (metis list.set_intros(2))
qed simp

text \<open>\<^verbatim>\<open>if err != nil { panic(err) }\<close>.\<close>

definition must :: "'a res \<Rightarrow> 'a res" where
  "must r = (case r of Inl (Error m) \<Rightarrow> Inl (Panic m) | _ \<Rightarrow> r)"

lemma must_simps [simp]: "must (Inr x) = Inr x" "must (Inl (Error m)) = Inl (Panic m)" "must (Inl (Panic m)) = Inl (Panic m)"
  by (simp_all add: must_def)

lemma must_Inr_iff [simp]: "must r = Inr x \<longleftrightarrow> r = Inr x"
  by (auto simp: must_def split: sum.splits go_error.splits)

definition mustSet :: "'s \<times> go_error option \<Rightarrow> 's res" where
  "mustSet r = (case r of (s, None) \<Rightarrow> Inr s | (s, Some (Error m)) \<Rightarrow> Inl (Panic m) | (s, Some e) \<Rightarrow> Inl e)"

lemma mustSet_Inr_iff [simp]: "mustSet r = Inr s \<longleftrightarrow> r = (s, None)"
  by (auto simp: mustSet_def split: prod.splits option.splits go_error.splits)

section \<open>Maps in iteration order\<close>

text \<open>
  A Go map is an association list with distinct keys. The order of the list is the order in which
  \<^verbatim>\<open>range\<close> visits it, which Go leaves unspecified: a statement about every list is a
  statement about every iteration order. \<open>m[k]\<close> is \<^const>\<open>map_of\<close>, \<open>m[k] = v\<close> is
  \<^const>\<open>AList.update\<close> and \<open>delete(m, k)\<close> is \<^const>\<open>AList.delete\<close>.
\<close>

type_synonym ('k, 'v) gomap = "('k \<times> 'v) list"

abbreviation wf_map :: "('k, 'v) gomap \<Rightarrow> bool" where
  "wf_map m \<equiv> distinct (map fst m)"

lemma wf_map_update [simp]: "wf_map m \<Longrightarrow> wf_map (AList.update k v m)"
  by (rule distinct_update)

lemma wf_map_delete [simp]: "wf_map m \<Longrightarrow> wf_map (AList.delete k m)"
  by (rule distinct_delete)

lemma map_of_update [simp]:
  "map_of (AList.update k v m) k' = (if k' = k then Some v else map_of m k')"
  by (simp add: update_conv')

lemma map_of_delete [simp]:
  "map_of (AList.delete k m) k' = (if k' = k then None else map_of m k')"
  by (simp add: delete_conv')

lemma set_update_subset: "set (AList.update k v m) \<subseteq> insert (k, v) (set m)"
  by (induction m) auto

lemma update_same [simp]: "map_of m k = Some v \<Longrightarrow> AList.update k v m = m"
  by (induction m) (auto split: if_splits)

lemma wf_map_head: "wf_map ((k, v) # m) \<Longrightarrow> map_of m k = None"
  by (simp add: map_of_eq_None_iff)

lemma set_delete_subset: "set (AList.delete k m) \<subseteq> set m"
  by (auto simp: AList.delete_eq)

end
