(* ===== verification/Go_Strings.thy ===== *)
theory Go_Strings
  imports Prelude
begin

text \<open>
  The functions of Go's \<^verbatim>\<open>strings\<close>, \<^verbatim>\<open>strconv\<close> and \<^verbatim>\<open>fmt\<close> packages that the
  modelled code calls. Strings are byte strings, as Go's are; comparison is the byte order. Case
  mapping and white space are modelled for ASCII characters.
\<close>

section \<open>Prefixes, splitting and joining\<close>

definition HasPrefix :: "string \<Rightarrow> string \<Rightarrow> bool" where
  "HasPrefix s p = (take (length p) s = p)"

definition HasSuffix :: "string \<Rightarrow> string \<Rightarrow> bool" where
  "HasSuffix s p = HasPrefix (rev s) (rev p)"

fun SplitChar :: "string \<Rightarrow> char \<Rightarrow> string list" where
  "SplitChar [] c = [[]]"
| "SplitChar (x # xs) c =
     (if x = c then [] # SplitChar xs c
      else (case SplitChar xs c of [] \<Rightarrow> [[x]] | w # ws \<Rightarrow> (x # w) # ws))"

fun Join :: "string list \<Rightarrow> string \<Rightarrow> string" where
  "Join [] sep = []"
| "Join [x] sep = x"
| "Join (x # y # ys) sep = x @ sep @ Join (y # ys) sep"

definition is_space :: "char \<Rightarrow> bool" where
  "is_space c = (c \<in> {CHR '' '', CHR 0x09, CHR 0x0A, CHR 0x0B, CHR 0x0C, CHR 0x0D})"

definition TrimSpace :: "string \<Rightarrow> string" where
  "TrimSpace s = rev (dropWhile is_space (rev (dropWhile is_space s)))"

definition IndexChar :: "string \<Rightarrow> char \<Rightarrow> int" where
  "IndexChar s c =
     (let n = length (takeWhile (\<lambda>x. x \<noteq> c) s) in if n < length s then int n else - 1)"

definition lower_char :: "char \<Rightarrow> char" where
  "lower_char c =
     (let n = of_char c :: nat in if 65 \<le> n \<and> n \<le> 90 then char_of (n + 32) else c)"

definition ToLower :: "string \<Rightarrow> string" where
  "ToLower s = map lower_char s"

definition quoted :: "string \<Rightarrow> string" where
  "quoted s = CHR 0x27 # s @ [CHR 0x27]"

section \<open>Numbers and booleans\<close>

definition is_digit :: "char \<Rightarrow> bool" where
  "is_digit c = (let n = of_char c :: nat in 48 \<le> n \<and> n \<le> 57)"

definition digit_val :: "char \<Rightarrow> nat" where
  "digit_val c = of_char c - 48"

definition digits_val :: "string \<Rightarrow> nat" where
  "digits_val s = foldl (\<lambda>a c. a * 10 + digit_val c) 0 s"

fun show_nat :: "nat \<Rightarrow> string" where
  "show_nat n = (if n < 10 then [char_of (n + 48)] else show_nat (n div 10) @ [char_of (n mod 10 + 48)])"

declare show_nat.simps [simp del]

definition show_int :: "int \<Rightarrow> string" where
  "show_int i = (if i < 0 then ''-'' @ show_nat (nat (- i)) else show_nat (nat i))"

text \<open>\<^verbatim>\<open>strconv.ParseInt(s, 10, bits)\<close>: an optional sign, at least one digit, in range.\<close>

definition ParseInt :: "nat \<Rightarrow> string \<Rightarrow> int res" where
  "ParseInt bits s =
     (let (neg, ds) = (case s of [] \<Rightarrow> (False, [])
                       | c # cs \<Rightarrow> if c = CHR ''-'' then (True, cs)
                                 else if c = CHR ''+'' then (False, cs) else (False, s))
      in if ds = [] \<or> \<not> list_all is_digit ds then Inl (Error ''invalid syntax'')
         else let v = (if neg then - int (digits_val ds) else int (digits_val ds))
              in if - (2 ^ (bits - 1)) \<le> v \<and> v < 2 ^ (bits - 1) then Inr v
                 else Inl (Error ''value out of range''))"

text \<open>\<^verbatim>\<open>strconv.ParseBool\<close>.\<close>

definition ParseBool :: "string \<Rightarrow> bool res" where
  "ParseBool s =
     (if s \<in> {''1'', ''t'', ''T'', ''TRUE'', ''true'', ''True''} then Inr True
      else if s \<in> {''0'', ''f'', ''F'', ''FALSE'', ''false'', ''False''} then Inr False
      else Inl (Error ''invalid syntax''))"

section \<open>Lemmas\<close>

lemma HasPrefix_iff: "HasPrefix s p \<longleftrightarrow> prefix p s"
  by (metis HasPrefix_def append_eq_conv_conj prefix_def take_is_prefix)

lemma HasPrefix_append [simp]: "HasPrefix (p @ s) p"
  by (simp add: HasPrefix_def)

lemma SplitChar_nonempty [simp]: "SplitChar s c \<noteq> []"
  by (cases s) (auto split: list.splits)

lemma Join_Cons: "ys \<noteq> [] \<Longrightarrow> Join (x # ys) sep = x @ sep @ Join ys sep"
  by (cases ys) auto

lemma Join_SplitChar: "Join (SplitChar s c) [c] = s"
proof (induction s)
  case Nil
  then show ?case by simp
next
  case (Cons x xs)
  obtain w ws where ws: "SplitChar xs c = w # ws"
    using SplitChar_nonempty by (metis list.exhaust)
  then show ?case using Cons.IH by (cases ws) auto
qed

lemma SplitChar_no_sep: "\<forall>w \<in> set (SplitChar s c). c \<notin> set w"
  by (induction s) (auto split: list.splits)

lemma length_SplitChar: "length (SplitChar s c) = Suc (count_list s c)"
  by (induction s) (auto split: list.splits)

lemma is_digit_char_of [simp]: "(n::nat) < 10 \<Longrightarrow> is_digit (char_of (n + 48))"
  by (simp add: is_digit_def Let_def)

lemma digit_val_char_of [simp]: "(n::nat) < 10 \<Longrightarrow> digit_val (char_of (n + 48)) = n"
  by (simp add: digit_val_def)

lemma digits_val_snoc: "digits_val (s @ [c]) = digits_val s * 10 + digit_val c"
  by (simp add: digits_val_def)

lemma show_nat_digits: "list_all is_digit (show_nat n) \<and> show_nat n \<noteq> []"
proof (induction n rule: show_nat.induct)
  case (1 n)
  then show ?case by (cases "n < 10") (simp_all add: show_nat.simps [of n])
qed

lemma digits_val_show_nat: "digits_val (show_nat n) = n"
proof (induction n rule: show_nat.induct)
  case (1 n)
  show ?case
  proof (cases "n < 10")
    case True
    then show ?thesis by (simp add: show_nat.simps [of n] digits_val_def)
  next
    case False
    with 1 show ?thesis by (simp add: show_nat.simps [of n] digits_val_snoc)
  qed
qed

lemma show_nat_inj: "show_nat m = show_nat n \<Longrightarrow> m = n"
  by (metis digits_val_show_nat)

lemma ParseInt_show_int:
  assumes "- (2 ^ (bits - 1)) \<le> i" "i < 2 ^ (bits - 1)"
  shows "ParseInt bits (show_int i) = Inr i"
proof (cases "i < 0")
  case True
  then show ?thesis
    using assms show_nat_digits [of "nat (- i)"]
    by (simp add: show_int_def ParseInt_def Let_def digits_val_show_nat)
next
  case False
  obtain c cs where c: "show_nat (nat i) = c # cs"
    using show_nat_digits by (metis list.exhaust)
  have "is_digit c" using show_nat_digits [of "nat i"] c by simp
  then have "c \<noteq> CHR ''-''" "c \<noteq> CHR ''+''" by (auto simp: is_digit_def)
  then show ?thesis
    using False assms c show_nat_digits [of "nat i"] digits_val_show_nat [of "nat i"]
    by (simp add: show_int_def ParseInt_def Let_def)
qed

lemma ParseInt_range:
  "ParseInt bits s = Inr i \<Longrightarrow> - (2 ^ (bits - 1)) \<le> i \<and> i < 2 ^ (bits - 1)"
  by (auto simp: ParseInt_def Let_def split: if_splits prod.splits)

section \<open>Formatting without operands\<close>

text \<open>
  \<^verbatim>\<open>fmt.Errorf(s)\<close> with a string from outside as the format: without operands every verb is reported as
  missing its operand. The parts follow \<^verbatim>\<open>doPrintf\<close> of Go's fmt package: flags, argument index, width,
  precision, verb (an ASCII character). Every round consumes a character, so \<open>length s\<close> rounds are enough.
\<close>

fun parsenum :: "nat \<Rightarrow> bool \<Rightarrow> string \<Rightarrow> bool \<times> string" where
  "parsenum n isnum [] = (isnum, [])"
| "parsenum n isnum (c # cs) =
     (if is_digit c then (if n > 1000000 then (False, []) else parsenum (n * 10 + digit_val c) True cs)
      else (isnum, c # cs))"

text \<open>Whether an index was found, whether the index is usable (with no operands none is), and the rest.\<close>

definition argNumber :: "string \<Rightarrow> bool \<times> bool \<times> string" where
  "argNumber s =
     (if s = [] \<or> hd s \<noteq> CHR ''['' then (False, True, s)
      else if length s < 3 \<or> CHR '']'' \<notin> set s then (False, False, tl s)
      else (let inner = takeWhile (\<lambda>c. c \<noteq> CHR '']'') (tl s);
                rest = tl (dropWhile (\<lambda>c. c \<noteq> CHR '']'') s);
                (ok, r) = parsenum 0 False inner
            in (ok \<and> r = [], False, rest)))"

definition fmtWidth :: "bool \<Rightarrow> string \<Rightarrow> string \<times> bool \<times> bool \<times> string" where
  "fmtWidth ai s =
     (if s \<noteq> [] \<and> hd s = CHR ''*'' then (''%!(BADWIDTH)'', False, True, tl s)
      else (let (w, r) = parsenum 0 False s in ([], ai, \<not> (ai \<and> w), r)))"

definition fmtPrec :: "bool \<Rightarrow> string \<Rightarrow> string \<times> bool \<times> bool \<times> string" where
  "fmtPrec ai s =
     (if s \<noteq> [] \<and> hd s = CHR ''.'' then
        (let (ai2, g, s2) = argNumber (tl s) in
         if s2 \<noteq> [] \<and> hd s2 = CHR ''*'' then (''%!(BADPREC)'', False, g \<and> \<not> ai, tl s2)
         else ([], ai2, g \<and> \<not> ai, snd (parsenum 0 False s2)))
      else ([], ai, True, s))"

definition fmtVerb :: "string \<Rightarrow> string \<times> string" where
  "fmtVerb s0 =
     (let s1 = dropWhile (\<lambda>c. c \<in> set ''#0+- '') s0;
          (ai1, g1, s2) = argNumber s1;
          (o2, ai2, g2, s3) = fmtWidth ai1 s2;
          (o3, ai3, g3, s4) = fmtPrec ai2 s3;
          (ai4, g4, s5) = (if ai3 then (True, True, s4) else argNumber s4)
      in case s5 of
           [] \<Rightarrow> (o2 @ o3 @ ''%!(NOVERB)'', [])
         | c # r \<Rightarrow>
             (o2 @ o3 @ (if c = CHR ''%'' then ''%''
                         else ''%!'' @ [c] @ (if g1 \<and> g2 \<and> g3 \<and> g4 then ''(MISSING)'' else ''(BADINDEX)'')), r))"

fun fmtRounds :: "nat \<Rightarrow> string \<Rightarrow> string" where
  "fmtRounds 0 s = []"
| "fmtRounds (Suc n) [] = []"
| "fmtRounds (Suc n) (c # cs) =
     (if c \<noteq> CHR ''%'' then c # fmtRounds n cs
      else (case fmtVerb cs of (out, rest) \<Rightarrow> out @ fmtRounds n rest))"

definition SprintfNoArgs :: "string \<Rightarrow> string" where
  "SprintfNoArgs s = fmtRounds (length s) s"

lemma fmtRounds_plain: "CHR ''%'' \<notin> set s \<Longrightarrow> length s \<le> n \<Longrightarrow> fmtRounds n s = s"
  by (induction n s rule: fmtRounds.induct) auto

lemma SprintfNoArgs_plain [simp]: "CHR ''%'' \<notin> set s \<Longrightarrow> SprintfNoArgs s = s"
  by (simp add: SprintfNoArgs_def fmtRounds_plain)

lemma SprintfNoArgs_example: "SprintfNoArgs ''100% cpu'' = ''100%!c(MISSING)pu''"
  by (simp add: SprintfNoArgs_def fmtVerb_def argNumber_def fmtWidth_def fmtPrec_def is_digit_def)

section \<open>Simple patterns\<close>

text \<open>
  The regular expressions of the program are prefixes with wildcards, followed by an optional number. A dot
  (\<open>None\<close>) is any character but a newline.
\<close>

fun matchPattern :: "char option list \<Rightarrow> string \<Rightarrow> bool" where
  "matchPattern [] s = True"
| "matchPattern (p # ps) [] = False"
| "matchPattern (p # ps) (c # cs) =
     ((case p of Some d \<Rightarrow> c = d | None \<Rightarrow> c \<noteq> CHR 0x0A) \<and> matchPattern ps cs)"

text \<open>\<^verbatim>\<open>^kluctl.io/name(-\d*)?$\<close>.\<close>

definition kluctlAnnotation :: "string \<Rightarrow> string \<Rightarrow> bool" where
  "kluctlAnnotation name s =
     (let p = map Some ''kluctl'' @ [None] @ map Some (''io/'' @ name); r = drop (length p) s
      in matchPattern p s \<and> (r = [] \<or> (hd r = CHR ''-'' \<and> list_all is_digit (tl r))))"

end
