(* ===== verification/Uo_Value.thy ===== *)
theory Uo_Value
  imports Go_Strings "HOL-Library.Word"
begin

text \<open>
  The dynamically typed values of \<^verbatim>\<open>pkg/utils/uo\<close> and the access paths into them: child access
  (\<^verbatim>\<open>unstructured.go\<close>), nested getters and setters (\<^verbatim>\<open>nested_fields.go\<close>) and the printing of key
  paths (\<^verbatim>\<open>jsonpath.go\<close>). Mutation in place of a nested map is the rebuilding of the value along
  the path; a setter returns the new object together with the error it ends with, because the code
  leaves the changes made before an error in place.
\<close>

section \<open>Values\<close>

text \<open>
  The dynamic types an \<^verbatim>\<open>interface{}\<close> holds in this program. \<^verbatim>\<open>VFloat\<close> carries the exact value of a
  finite float64: values come from JSON, which has no NaN and no infinities. \<^verbatim>\<open>VObj\<close> is a pointer to
  an UnstructuredObject, \<^verbatim>\<open>VMapSlice\<close> a value of type \<^verbatim>\<open>[]map[string]interface{}\<close> (which no type
  switch of the package treats as a slice) and \<^verbatim>\<open>VOther\<close> any other value with its printed form.
\<close>

datatype val =
    VNil
  | VBool bool
  | VBoolPtr "bool option"
  | VInt "64 word"
  | VUint "64 word"
  | VFloat rat
  | VStr string
  | VList "val list"
  | VMap "(string \<times> val) list"
  | VObj "(string \<times> val) list"
  | VMapSlice "(string \<times> val) list list"
  | VOther string

text \<open>The field \<^verbatim>\<open>Object\<close> of \<^verbatim>\<open>UnstructuredObject\<close>.\<close>

type_synonym uo = "(string \<times> val) list"

text \<open>A path element: a string, an int, or a value of another type with its printed form.\<close>

datatype key = KStr string | KInt int | KAny string

type_synonym keypath = "key list"

section \<open>Child access\<close>

definition GetChild :: "val \<Rightarrow> key \<Rightarrow> val option res" where
  "GetChild parent k =
     (case parent of
        VMap m \<Rightarrow> (case k of KStr s \<Rightarrow> Inr (map_of m s) | _ \<Rightarrow> Inl (Error ''key is not a string''))
      | VList l \<Rightarrow> (case k of
            KInt i \<Rightarrow> if i < 0 \<or> i \<ge> int (length l) then Inl (Error ''index out of bounds'')
                     else Inr (Some (l ! nat i))
          | _ \<Rightarrow> Inl (Error ''key is not an int''))
      | _ \<Rightarrow> Inl (Error ''unknown parent type''))"

text \<open>The result is the parent after the call and the returned error.\<close>

definition SetChild :: "val \<Rightarrow> key \<Rightarrow> val \<Rightarrow> val \<times> go_error option" where
  "SetChild parent k v =
     (case parent of
        VMap m \<Rightarrow> (case k of KStr s \<Rightarrow> (VMap (AList.update s v m), None)
                   | _ \<Rightarrow> (parent, Some (Error ''key is not a string'')))
      | VList l \<Rightarrow> (case k of
            KInt i \<Rightarrow> if i < 0 \<or> i \<ge> int (length l) then (parent, Some (Panic ''index out of range''))
                     else (VList (l[nat i := v]), None)
          | _ \<Rightarrow> (parent, Some (Error ''key is not an int'')))
      | _ \<Rightarrow> (parent, Some (Error ''unknown parent type'')))"

section \<open>Nested fields\<close>

text \<open>The loop of \<^verbatim>\<open>GetNestedField\<close>; \<open>Inr None\<close> is not found.\<close>

fun getPath :: "keypath \<Rightarrow> val \<Rightarrow> val option res" where
  "getPath [] o' = Inr (Some o')"
| "getPath (k # ks) o' =
     (case GetChild o' k of
        Inl e \<Rightarrow> Inl e
      | Inr None \<Rightarrow> Inr None
      | Inr (Some v) \<Rightarrow> getPath ks v)"

definition GetNestedField :: "keypath \<Rightarrow> uo \<Rightarrow> val option res" where
  "GetNestedField keys ob = getPath keys (VMap ob)"

text \<open>
  The loop of \<^verbatim>\<open>SetNestedField\<close>. The child reached by a key is the same Go map or slice as the one
  in the parent, so what is written below it shows in the parent: \<open>fst (SetChild ...)\<close> puts it back.
\<close>

fun setPath :: "val \<Rightarrow> keypath \<Rightarrow> val \<Rightarrow> val \<times> go_error option" where
  "setPath v [] o' = (o', Some (Panic ''slice bounds out of range''))"
| "setPath v [k] o' = SetChild o' k v"
| "setPath v (k # k2 # ks) o' =
     (case GetChild o' k of
        Inl e \<Rightarrow> (o', Some e)
      | Inr r \<Rightarrow>
          (if r \<noteq> None \<and> r \<noteq> Some VNil
           then (let (c, e) = setPath v (k2 # ks) (the r) in (fst (SetChild o' k c), e))
           else (case SetChild o' k (VMap []) of
                   (o1, Some e) \<Rightarrow> (o1, Some e)
                 | (o1, None) \<Rightarrow> (let (c, e) = setPath v (k2 # ks) (VMap []) in (fst (SetChild o1 k c), e)))))"

definition as_map :: "val \<Rightarrow> uo" where
  "as_map v = (case v of VMap m \<Rightarrow> m | _ \<Rightarrow> [])"

definition SetNestedField :: "val \<Rightarrow> keypath \<Rightarrow> uo \<Rightarrow> uo \<times> go_error option" where
  "SetNestedField v keys ob = (let (r, e) = setPath v keys (VMap ob) in (as_map r, e))"

text \<open>Mutation in place of the map found at a path.\<close>

fun updPath :: "(val \<Rightarrow> val) \<Rightarrow> keypath \<Rightarrow> val \<Rightarrow> val" where
  "updPath f [] o' = f o'"
| "updPath f (k # ks) o' =
     (case GetChild o' k of Inr (Some c) \<Rightarrow> fst (SetChild o' k (updPath f ks c)) | _ \<Rightarrow> o')"

definition RemoveNestedField :: "keypath \<Rightarrow> uo \<Rightarrow> uo \<times> go_error option" where
  "RemoveNestedField keys ob =
     (if keys = [] then (ob, Some (Panic ''slice bounds out of range''))
      else (case getPath (butlast keys) (VMap ob) of
          Inl e \<Rightarrow> (ob, Some e)
        | Inr None \<Rightarrow> (ob, None)
        | Inr (Some (VList l)) \<Rightarrow>
            (case last keys of
               KInt i \<Rightarrow> if i < 0 \<or> i \<ge> int (length l) then (ob, None)
                        else SetNestedField (VList (take (nat i) l @ drop (Suc (nat i)) l)) (butlast keys) ob
             | _ \<Rightarrow> (ob, Some (Error ''key is not an index'')))
        | Inr (Some (VMap m)) \<Rightarrow>
            (case last keys of
               KStr s \<Rightarrow> (as_map (updPath (\<lambda>_. VMap (AList.delete s m)) (butlast keys) (VMap ob)), None)
             | _ \<Rightarrow> (ob, Some (Error ''key is not a string'')))
        | Inr (Some _) \<Rightarrow> (ob, None)))"

definition GetNestedString :: "keypath \<Rightarrow> uo \<Rightarrow> string option res" where
  "GetNestedString keys ob =
     bindE (GetNestedField keys ob) (\<lambda>r. case r of
         None \<Rightarrow> Inr None
       | Some (VStr s) \<Rightarrow> Inr (Some s)
       | Some _ \<Rightarrow> Inl (Error ''value is not a string''))"

text \<open>
  \<^verbatim>\<open>int64(f)\<close> of a float is its truncation when that fits; Go leaves the other cases to the
  implementation, which is the parameter \<^verbatim>\<open>f2i\<close>.
\<close>

definition rat_trunc :: "rat \<Rightarrow> int" where
  "rat_trunc r = (if r < 0 then \<lceil>r\<rceil> else \<lfloor>r\<rfloor>)"

definition int64_of_float :: "(rat \<Rightarrow> 64 word) \<Rightarrow> rat \<Rightarrow> 64 word" where
  "int64_of_float f2i r =
     (let t = rat_trunc r
      in if - (2 ^ 63) \<le> t \<and> t < 2 ^ 63 then word_of_int t else f2i r)"

definition GetNestedInt :: "(rat \<Rightarrow> 64 word) \<Rightarrow> keypath \<Rightarrow> uo \<Rightarrow> 64 word option res" where
  "GetNestedInt f2i keys ob =
     bindE (GetNestedField keys ob) (\<lambda>r. case r of
         None \<Rightarrow> Inr None
       | Some (VInt i) \<Rightarrow> Inr (Some i)
       | Some (VUint u) \<Rightarrow> Inr (Some u)
       | Some (VFloat f) \<Rightarrow> Inr (Some (int64_of_float f2i f))
       | Some _ \<Rightarrow> Inl (Error ''value is not an int''))"

definition GetNestedList :: "keypath \<Rightarrow> uo \<Rightarrow> val list option res" where
  "GetNestedList keys ob =
     bindE (GetNestedField keys ob) (\<lambda>r. case r of
         None \<Rightarrow> Inr None
       | Some (VList l) \<Rightarrow> Inr (Some l)
       | Some _ \<Rightarrow> Inl (Error ''value is not a slice''))"

definition GetNestedStringList :: "keypath \<Rightarrow> uo \<Rightarrow> string list option res" where
  "GetNestedStringList keys ob =
     bindE (GetNestedList keys ob) (\<lambda>r. case r of
         None \<Rightarrow> Inr None
       | Some l \<Rightarrow> bindE (mapE (\<lambda>x. case x of VStr s \<Rightarrow> Inr s
                                  | _ \<Rightarrow> Inl (Error ''value is not a slice of strings'')) l)
                    (\<lambda>ss. Inr (Some ss)))"

text \<open>\<open>Inr (Some None)\<close>: found, but nil.\<close>

definition GetNestedObject :: "keypath \<Rightarrow> uo \<Rightarrow> uo option option res" where
  "GetNestedObject keys ob =
     bindE (GetNestedField keys ob) (\<lambda>r. case r of
         None \<Rightarrow> Inr None
       | Some VNil \<Rightarrow> Inr (Some None)
       | Some (VMap m) \<Rightarrow> Inr (Some (Some m))
       | Some _ \<Rightarrow> Inl (Error ''nested value is not a map''))"

definition GetNestedObjectList :: "keypath \<Rightarrow> uo \<Rightarrow> uo list option res" where
  "GetNestedObjectList keys ob =
     bindE (GetNestedField keys ob) (\<lambda>r. case r of
         None \<Rightarrow> Inr None
       | Some (VList l) \<Rightarrow> bindE (mapE (\<lambda>x. case x of VMap m \<Rightarrow> Inr m
                                  | _ \<Rightarrow> Inl (Error ''nested value is not a slice of maps'')) l)
                    (\<lambda>ms. Inr (Some ms))
       | Some _ \<Rightarrow> Inl (Error ''nested value is not a slice''))"

definition SetNestedObjectList :: "uo list \<Rightarrow> keypath \<Rightarrow> uo \<Rightarrow> uo \<times> go_error option" where
  "SetNestedObjectList items keys ob = SetNestedField (VMapSlice items) keys ob"

definition GetNestedObjectListNoErr :: "keypath \<Rightarrow> uo \<Rightarrow> uo list" where
  "GetNestedObjectListNoErr keys ob =
     (case GetNestedObjectList keys ob of Inr (Some l) \<Rightarrow> l | _ \<Rightarrow> [])"

definition GetNestedStringMapCopy :: "keypath \<Rightarrow> uo \<Rightarrow> (string, string) gomap option res" where
  "GetNestedStringMapCopy keys ob =
     bindE (GetNestedField keys ob) (\<lambda>r. case r of
         None \<Rightarrow> Inr None
       | Some (VMap m) \<Rightarrow> bindE (mapE (\<lambda>(k, x). case x of VStr s \<Rightarrow> Inr (k, s)
                                  | _ \<Rightarrow> Inl (Error ''value is not a string'')) m)
                    (\<lambda>m'. Inr (Some m'))
       | Some _ \<Rightarrow> Inl (Error ''value is not a map''))"

definition SetNestedFieldDefault :: "val \<Rightarrow> keypath \<Rightarrow> uo \<Rightarrow> uo \<times> go_error option" where
  "SetNestedFieldDefault v keys ob =
     (case GetNestedField keys ob of
        Inl e \<Rightarrow> (ob, Some e)
      | Inr r \<Rightarrow> if r \<noteq> None \<and> r \<noteq> Some VNil then (ob, None) else SetNestedField v keys ob)"

text \<open>The pair is the value and the found flag; the code reports a missing field as found.\<close>

definition GetNestedBool :: "keypath \<Rightarrow> uo \<Rightarrow> (bool \<times> bool) res" where
  "GetNestedBool keys ob =
     bindE (GetNestedField keys ob) (\<lambda>r. case r of
         None \<Rightarrow> Inr (False, True)
       | Some (VBool b) \<Rightarrow> Inr (b, True)
       | Some (VBoolPtr None) \<Rightarrow> Inr (False, True)
       | Some (VBoolPtr (Some b)) \<Rightarrow> Inr (b, True)
       | Some _ \<Rightarrow> Inl (Error ''field is not a bool''))"

section \<open>Printing of key paths\<close>

definition is_ident_start :: "char \<Rightarrow> bool" where
  "is_ident_start c = (let n = of_char c :: nat in (65 \<le> n \<and> n \<le> 90) \<or> (97 \<le> n \<and> n \<le> 122) \<or> n = 95)"

definition is_ident_char :: "char \<Rightarrow> bool" where
  "is_ident_char c = (is_ident_start c \<or> is_digit c)"

text \<open>The regular expression \<^verbatim>\<open>^[A-Za-z_][A-Za-z0-9_]+$\<close>: two characters at least.\<close>

definition isSimpleIdentifier :: "string \<Rightarrow> bool" where
  "isSimpleIdentifier s =
     (case s of c # cs \<Rightarrow> is_ident_start c \<and> cs \<noteq> [] \<and> list_all is_ident_char cs | [] \<Rightarrow> False)"

definition jsonPathStep :: "string \<Rightarrow> key \<Rightarrow> string" where
  "jsonPathStep p k =
     (case k of
        KInt i \<Rightarrow> p @ ''['' @ show_int i @ '']''
      | KStr s \<Rightarrow>
          if isSimpleIdentifier s then (if p \<noteq> [] then p @ ''.'' else p) @ s
          else (let p' = (if p = [] then ''$'' else p)
                in if CHR 0x22 \<in> set s then p' @ ''['' @ [CHR 0x27] @ s @ [CHR 0x27] @ '']''
                   else p' @ ''['' @ [CHR 0x22] @ s @ [CHR 0x22] @ '']'')
      | KAny s \<Rightarrow> (if p = [] then ''$'' else p) @ ''['' @ s @ '']'')"

definition ToJsonPath :: "keypath \<Rightarrow> string" where
  "ToJsonPath kl = foldl jsonPathStep [] kl"

end
