(* ===== verification/Uo_Paths.thy ===== *)
theory Uo_Paths
  imports Uo_Value
begin

text \<open>
  Laws of the nested getters and setters: what a child access returns after a write, what a nested
  write changes and what it leaves alone, and the invariant that every map has distinct keys.
\<close>

named_theorems child_simps \<open>characteristic equations of the child access\<close>

section \<open>The invariant of values\<close>

text \<open>Every map inside a value has distinct keys, as Go's maps have by construction.\<close>

lemma size_fields [termination_simp]:
  "p \<in> set m \<Longrightarrow> size (snd p) < Suc (size_list (size_prod (\<lambda>_. 0) size) m)"
  by (induction m) (auto simp: less_Suc_eq)

lemma size_maps [termination_simp]:
  "m \<in> set ms \<Longrightarrow> p \<in> set m \<Longrightarrow>
     size (snd p) < Suc (size_list (size_list (size_prod (\<lambda>_. 0) size)) ms)"
proof (induction ms)
  case (Cons a ms)
  then show ?case using size_fields [of p m] by (auto simp: less_Suc_eq)
qed simp

fun wf_val :: "val \<Rightarrow> bool" where
  "wf_val (VList l) = (\<forall>v \<in> set l. wf_val v)"
| "wf_val (VMap m) = (wf_map m \<and> (\<forall>p \<in> set m. wf_val (snd p)))"
| "wf_val (VObj m) = (wf_map m \<and> (\<forall>p \<in> set m. wf_val (snd p)))"
| "wf_val (VMapSlice ms) = (\<forall>m \<in> set ms. wf_map m \<and> (\<forall>p \<in> set m. wf_val (snd p)))"
| "wf_val _ = True"

abbreviation wf_uo :: "uo \<Rightarrow> bool" where
  "wf_uo ob \<equiv> wf_val (VMap ob)"

lemma wf_val_lookup: "wf_val (VMap m) \<Longrightarrow> map_of m k = Some v \<Longrightarrow> wf_val v"
  by (auto dest: map_of_SomeD)

lemma wf_val_update: "wf_val (VMap m) \<Longrightarrow> wf_val v \<Longrightarrow> wf_val (VMap (AList.update k v m))"
  using set_update_subset [of k v m] by fastforce

lemma wf_val_delete: "wf_val (VMap m) \<Longrightarrow> wf_val (VMap (AList.delete k m))"
  using set_delete_subset [of k m] by fastforce

section \<open>Child access\<close>

lemma GetChild_simps [child_simps]:
  "GetChild (VMap m) (KStr s) = Inr (map_of m s)"
  "GetChild (VMap m) (KInt i) = Inl (Error ''key is not a string'')"
  "GetChild (VMap m) (KAny a) = Inl (Error ''key is not a string'')"
  "GetChild (VList l) (KStr s) = Inl (Error ''key is not an int'')"
  "GetChild (VList l) (KAny a) = Inl (Error ''key is not an int'')"
  "GetChild (VList l) (KInt i) =
     (if i < 0 \<or> i \<ge> int (length l) then Inl (Error ''index out of bounds'')
      else Inr (Some (l ! nat i)))"
  by (simp_all add: GetChild_def)

lemma SetChild_simps [child_simps]:
  "SetChild (VMap m) (KStr s) v = (VMap (AList.update s v m), None)"
  "SetChild (VMap m) (KInt i) v = (VMap m, Some (Error ''key is not a string''))"
  "SetChild (VMap m) (KAny a) v = (VMap m, Some (Error ''key is not a string''))"
  "SetChild (VList l) (KStr s) v = (VList l, Some (Error ''key is not an int''))"
  "SetChild (VList l) (KAny a) v = (VList l, Some (Error ''key is not an int''))"
  "SetChild (VList l) (KInt i) v =
     (if i < 0 \<or> i \<ge> int (length l) then (VList l, Some (Panic ''index out of range''))
      else (VList (l[nat i := v]), None))"
  by (simp_all add: SetChild_def)

text \<open>A write succeeds exactly where the parent and the key fit together.\<close>

definition settable :: "val \<Rightarrow> key \<Rightarrow> bool" where
  "settable p k =
     (case (p, k) of (VMap m, KStr s) \<Rightarrow> True
      | (VList l, KInt i) \<Rightarrow> 0 \<le> i \<and> i < int (length l)
      | _ \<Rightarrow> False)"

lemma settable_iff_GetChild: "settable p k \<longleftrightarrow> (\<exists>r. GetChild p k = Inr r)"
  by (cases p; cases k) (auto simp: settable_def GetChild_def)

lemma SetChild_ok_iff [simp]: "snd (SetChild p k v) = None \<longleftrightarrow> settable p k"
  by (cases p; cases k) (auto simp: settable_def SetChild_def)

lemma SetChild_unsettable: "\<not> settable p k \<Longrightarrow> fst (SetChild p k v) = p"
  by (cases p; cases k) (auto simp: settable_def SetChild_def)

lemma GetChild_SetChild:
  "settable p k \<Longrightarrow> GetChild (fst (SetChild p k v)) k = Inr (Some v)"
  by (cases p; cases k) (auto simp: settable_def SetChild_def GetChild_def)

lemma GetChild_SetChild_other:
  assumes "k' \<noteq> k"
  shows "GetChild (fst (SetChild p k v)) k' = GetChild p k'"
proof (cases "settable p k")
  case False
  then show ?thesis by (simp add: SetChild_unsettable)
next
  case True
  then show ?thesis using assms
    by (cases p; cases k; cases k') (auto simp: settable_def SetChild_def GetChild_def nth_list_update)
qed

lemma settable_SetChild [simp]: "settable (fst (SetChild p k v)) k' = settable p k'"
proof (cases "settable p k")
  case False
  then show ?thesis by (simp add: SetChild_unsettable)
next
  case True
  then show ?thesis
    by (cases p; cases k; cases k') (auto simp: settable_def SetChild_def)
qed

lemma SetChild_same: "GetChild p k = Inr (Some v) \<Longrightarrow> fst (SetChild p k v) = p"
  by (cases p; cases k) (auto simp: SetChild_def GetChild_def split: if_splits)

lemma SetChild_SetChild:
  "fst (SetChild (fst (SetChild p k a)) k b) = fst (SetChild p k b)"
proof (cases "settable p k")
  case True
  then show ?thesis by (cases p; cases k) (auto simp: settable_def SetChild_def)
qed (simp add: SetChild_unsettable)

lemma wf_GetChild: "wf_val p \<Longrightarrow> GetChild p k = Inr (Some v) \<Longrightarrow> wf_val v"
  by (cases p; cases k) (auto simp: GetChild_def dest: map_of_SomeD split: if_splits)

lemma wf_SetChild: "wf_val p \<Longrightarrow> wf_val v \<Longrightarrow> wf_val (fst (SetChild p k v))"
proof (cases "settable p k")
  case True
  assume "wf_val p" "wf_val v"
  then show ?thesis using True
    by (cases p; cases k)
      (auto simp: settable_def SetChild_def wf_val_update simp del: wf_val.simps(2)
        dest: set_update_subset_insert [THEN subsetD])
qed (simp add: SetChild_unsettable)

lemma SetChild_VMap: "\<exists>m'. fst (SetChild (VMap m) k v) = VMap m'"
  by (cases k) (simp_all add: SetChild_def)

section \<open>Nested writes\<close>

lemma getPath_append:
  "getPath (ks @ ks') v =
     (case getPath ks v of Inl e \<Rightarrow> Inl e | Inr None \<Rightarrow> Inr None | Inr (Some w) \<Rightarrow> getPath ks' w)"
  by (induction ks arbitrary: v) (auto split: sum.splits option.splits)

text \<open>One step of a nested write through an existing slot: a missing or nil child is replaced by an
  empty map first.\<close>

definition child_or_new :: "val option \<Rightarrow> val" where
  "child_or_new r = (if r = None \<or> r = Some VNil then VMap [] else the r)"

lemma setPath_step:
  assumes "GetChild p k = Inr r"
  shows "setPath v (k # k2 # ks) p =
    (fst (SetChild p k (fst (setPath v (k2 # ks) (child_or_new r)))),
     snd (setPath v (k2 # ks) (child_or_new r)))"
proof -
  have "snd (SetChild p k (VMap [])) = None" using assms by (auto simp: settable_iff_GetChild)
  then obtain o1 where o1: "SetChild p k (VMap []) = (o1, None)" by (metis prod.collapse)
  have "fst (SetChild o1 k c) = fst (SetChild p k c)" for c
    using SetChild_SetChild [of p k "VMap []" c] o1 by simp
  with assms o1 show ?thesis by (auto simp: child_or_new_def case_prod_beta Let_def)
qed

lemma setPath_stop: "GetChild p k = Inl e \<Longrightarrow> setPath v (k # k2 # ks) p = (p, Some e)"
  by simp

declare setPath.simps(3) [simp del]

lemma setPath_VMap: "\<exists>m'. fst (setPath v ks (VMap m)) = VMap m'"
proof (cases "(v, ks, VMap m)" rule: setPath.cases)
  case (3 v k k2 ks p)
  then show ?thesis using SetChild_VMap
    by (cases "GetChild p k") (auto simp: setPath_step setPath_stop)
qed (use SetChild_VMap in auto)

text \<open>Induction over a nested write, one case per way it can go.\<close>

lemma setPath_induct [case_names empty last stop step]:
  assumes "\<And>v p. P v [] p"
    and "\<And>v k p. P v [k] p"
    and "\<And>v k k2 ks p e. GetChild p k = Inl e \<Longrightarrow> P v (k # k2 # ks) p"
    and "\<And>v k k2 ks p r. GetChild p k = Inr r \<Longrightarrow> P v (k2 # ks) (child_or_new r) \<Longrightarrow>
           P v (k # k2 # ks) p"
  shows "P v ks p"
proof (induction ks arbitrary: p)
  case (Cons k ks)
  then show ?case using assms(2-4) by (cases ks; cases "GetChild p k") auto
qed (rule assms(1))

text \<open>A nested write that succeeds is read back by the same path.\<close>

lemma getPath_setPath:
  "snd (setPath v ks p) = None \<Longrightarrow> getPath ks (fst (setPath v ks p)) = Inr (Some v)"
proof (induction v ks p rule: setPath_induct)
  case (step v k k2 ks p r)
  then have "settable p k" by (auto simp: settable_iff_GetChild)
  with step show ?case by (simp add: setPath_step GetChild_SetChild)
qed (simp_all add: setPath_stop GetChild_SetChild)

text \<open>Two paths diverge when they differ at a position both have.\<close>

fun diverge :: "keypath \<Rightarrow> keypath \<Rightarrow> bool" where
  "diverge (a # as) (b # bs) = (if a = b then diverge as bs else True)"
| "diverge _ _ = False"

lemma diverge_iff_parallel: "diverge p q \<longleftrightarrow> p \<parallel> q"
  by (induction p q rule: diverge.induct) (auto simp: parallel_def)

lemma diverge_sym: "diverge p q \<longleftrightarrow> diverge q p"
  by (auto simp: diverge_iff_parallel)

lemma diverge_not_Nil: "diverge p q \<Longrightarrow> p \<noteq> [] \<and> q \<noteq> []"
  by (cases "(p, q)" rule: diverge.cases) auto

lemma getPath_empty_map: "bs \<noteq> [] \<Longrightarrow> getPath bs (VMap []) \<noteq> Inr (Some w)"
  by (cases bs) (auto simp: GetChild_def split: key.splits)

lemma getPath_nil: "bs \<noteq> [] \<Longrightarrow> getPath bs VNil \<noteq> Inr (Some w)"
  by (cases bs) (auto simp: GetChild_def)

text \<open>A nested write, failed or not, changes no value at a diverging path.\<close>

lemma getPath_setPath_diverge:
  "diverge ks q \<Longrightarrow>
     getPath q (fst (setPath v ks p)) = Inr (Some w) \<longleftrightarrow> getPath q p = Inr (Some w)"
proof (induction v ks p arbitrary: q rule: setPath_induct)
  case (last v k p)
  then obtain b bs where "q = b # bs" "b \<noteq> k" by (cases q) (auto split: if_splits)
  then show ?case by (simp add: GetChild_SetChild_other)
next
  case (step v k k2 ks p r)
  then obtain b bs where q: "q = b # bs" by (cases q) auto
  have s: "settable p k" using step by (auto simp: settable_iff_GetChild)
  show ?case
  proof (cases "b = k")
    case False
    then show ?thesis using q step by (simp add: setPath_step GetChild_SetChild_other)
  next
    case True
    then have d: "diverge (k2 # ks) bs" using step.prems q by simp
    then have bs: "bs \<noteq> []" using diverge_not_Nil by blast
    have "getPath bs (child_or_new r) = Inr (Some w) \<longleftrightarrow> getPath q p = Inr (Some w)"
      using step q True bs by (cases r) (auto simp: child_or_new_def getPath_empty_map getPath_nil)
    then show ?thesis using step.IH [OF d] step q True s by (simp add: setPath_step GetChild_SetChild)
  qed
qed (simp_all add: setPath_stop)

lemma wf_child_or_new: "wf_val p \<Longrightarrow> GetChild p k = Inr r \<Longrightarrow> wf_val (child_or_new r)"
  by (cases r) (auto simp: child_or_new_def dest: wf_GetChild)

lemma wf_setPath: "wf_val p \<Longrightarrow> wf_val v \<Longrightarrow> wf_val (fst (setPath v ks p))"
  by (induction v ks p rule: setPath_induct)
    (auto simp: setPath_stop setPath_step wf_SetChild wf_child_or_new simp del: wf_val.simps(2))

text \<open>The precise domain of a nested write: every key fits the value it is applied to, and below
  a missing or nil child only string keys remain.\<close>

definition is_str :: "key \<Rightarrow> bool" where
  "is_str k = (case k of KStr _ \<Rightarrow> True | _ \<Rightarrow> False)"

fun can_set :: "keypath \<Rightarrow> val \<Rightarrow> bool" where
  "can_set [] p = False"
| "can_set [k] p = settable p k"
| "can_set (k # k2 # ks) p =
     (case GetChild p k of
        Inl e \<Rightarrow> False
      | Inr r \<Rightarrow> if r \<noteq> None \<and> r \<noteq> Some VNil then can_set (k2 # ks) (the r)
                else list_all is_str (k2 # ks))"

lemma can_set_empty_map: "ks \<noteq> [] \<Longrightarrow> can_set ks (VMap []) = list_all is_str ks"
  by (cases "(ks, VMap [])" rule: can_set.cases)
    (auto simp: settable_def is_str_def GetChild_def split: key.splits)

lemma setPath_ok_iff: "snd (setPath v ks p) = None \<longleftrightarrow> can_set ks p"
proof (induction v ks p rule: setPath_induct)
  case (step v k k2 ks p r)
  then show ?case using can_set_empty_map [of "k2 # ks"]
    by (auto simp: setPath_step child_or_new_def)
qed (simp_all add: setPath_stop)

lemma wf_getPath: "wf_val p \<Longrightarrow> getPath ks p = Inr (Some v) \<Longrightarrow> wf_val v"
  by (induction ks arbitrary: p) (auto dest: wf_GetChild split: sum.splits option.splits)

lemma getPath_can_set: "ks \<noteq> [] \<Longrightarrow> getPath ks p = Inr (Some v) \<Longrightarrow> can_set ks p"
proof (induction ks p rule: can_set.induct)
  case (3 k k2 ks p)
  then show ?case using getPath_nil [of "k2 # ks" v]
    by (auto split: sum.splits option.splits)
qed (auto simp: settable_iff_GetChild split: sum.splits)

section \<open>Mutation at a path\<close>

lemma getPath_updPath:
  "getPath ks p = Inr (Some x) \<Longrightarrow> getPath ks (updPath f ks p) = Inr (Some (f x))"
proof (induction ks arbitrary: p)
  case (Cons k ks)
  then obtain c where c: "GetChild p k = Inr (Some c)" by (auto split: sum.splits option.splits)
  then have "settable p k" by (auto simp: settable_iff_GetChild)
  then show ?case using Cons c by (simp add: GetChild_SetChild)
qed simp

lemma getPath_updPath_diverge: "diverge ks q \<Longrightarrow> getPath q (updPath f ks p) = getPath q p"
proof (induction ks arbitrary: p q)
  case (Cons k ks)
  then obtain b bs where q: "q = b # bs" by (cases q) auto
  show ?case
  proof (cases "GetChild p k")
    case (Inr r)
    then have s: "settable p k" by (auto simp: settable_iff_GetChild)
    then show ?thesis using Cons q Inr
      by (cases r; cases "b = k") (auto simp: GetChild_SetChild GetChild_SetChild_other)
  qed simp
qed simp

lemma wf_updPath:
  "wf_val p \<Longrightarrow> (\<And>x. wf_val x \<Longrightarrow> wf_val (f x)) \<Longrightarrow> wf_val (updPath f ks p)"
proof (induction ks arbitrary: p)
  case (Cons k ks)
  then show ?case using wf_GetChild [OF Cons.prems(1), of k]
    by (cases "GetChild p k") (auto simp: wf_SetChild split: option.splits)
qed simp

lemma updPath_VMap: "ks \<noteq> [] \<Longrightarrow> \<exists>m'. updPath f ks (VMap m) = VMap m'"
  by (cases ks) (auto simp: SetChild_VMap split: sum.splits option.splits)

lemma updPath_updPath: "getPath ks p = Inr (Some x) \<Longrightarrow>
   updPath f ks (updPath g ks p) = updPath (f \<circ> g) ks p"
proof (induction ks arbitrary: p)
  case (Cons k ks)
  then obtain c where c: "GetChild p k = Inr (Some c)" by (auto split: sum.splits option.splits)
  then have "settable p k" by (auto simp: settable_iff_GetChild)
  then show ?case using Cons c by (simp add: GetChild_SetChild SetChild_SetChild)
qed simp


section \<open>The interface of nested storage\<close>

text \<open>
  What the users of nested fields rely on: a write that succeeds is read back, and no write changes
  the value at a diverging path. The operations on labels, annotations and other fields of Kubernetes
  objects are clients of this contract.
\<close>

locale nested_store =
  fixes get :: "keypath \<Rightarrow> 'ob \<Rightarrow> val option res"
    and put :: "val \<Rightarrow> keypath \<Rightarrow> 'ob \<Rightarrow> 'ob \<times> go_error option"
  assumes get_put: "snd (put v ks ob) = None \<Longrightarrow> get ks (fst (put v ks ob)) = Inr (Some v)"
    and get_put_diverge: "diverge ks q \<Longrightarrow>
      get q (fst (put v ks ob)) = Inr (Some w) \<longleftrightarrow> get q ob = Inr (Some w)"
begin

text \<open>Writing several keys below one path, stopping at the first failure.\<close>

fun put_all :: "keypath \<Rightarrow> (key \<times> val) list \<Rightarrow> 'ob \<Rightarrow> 'ob \<times> go_error option" where
  "put_all ks [] ob = (ob, None)"
| "put_all ks ((k, v) # kvs) ob =
     (case put v (ks @ [k]) ob of
        (ob1, Some e) \<Rightarrow> (ob1, Some e)
      | (ob1, None) \<Rightarrow> put_all ks kvs ob1)"

lemma diverge_siblings: "a \<noteq> b \<Longrightarrow> diverge (ks @ a # as) (ks @ b # bs)"
  by (induction ks) auto

lemma put_all_frame:
  "(\<And>k. k \<in> fst ` set kvs \<Longrightarrow> diverge (ks @ [k]) q) \<Longrightarrow>
     get q (fst (put_all ks kvs ob)) = Inr (Some w) \<longleftrightarrow> get q ob = Inr (Some w)"
proof (induction ks kvs ob rule: put_all.induct)
  case (2 ks k v kvs ob)
  obtain ob1 e where p: "put v (ks @ [k]) ob = (ob1, e)" by fastforce
  have "get q ob1 = Inr (Some w) \<longleftrightarrow> get q ob = Inr (Some w)"
    using get_put_diverge [of "ks @ [k]" q v ob w] 2(2) [of k] p by simp
  then show ?case using 2 p by (cases e) auto
qed simp

lemma put_all_get:
  "snd (put_all ks kvs ob) = None \<Longrightarrow> distinct (map fst kvs) \<Longrightarrow> (k, v) \<in> set kvs \<Longrightarrow>
     get (ks @ [k]) (fst (put_all ks kvs ob)) = Inr (Some v)"
proof (induction ks kvs ob rule: put_all.induct)
  case (2 ks k' v' kvs ob)
  from 2(2) obtain ob1 where p: "put v' (ks @ [k']) ob = (ob1, None)"
    by (auto split: prod.splits option.splits)
  show ?case
  proof (cases "(k, v) = (k', v')")
    case True
    have "get (ks @ [k']) ob1 = Inr (Some v')" using get_put [of v' "ks @ [k']" ob] p by simp
    moreover have "\<And>k''. k'' \<in> fst ` set kvs \<Longrightarrow> diverge (ks @ [k'']) (ks @ [k'])"
      using 2(3) by (auto intro!: diverge_siblings)
    ultimately show ?thesis using True p put_all_frame [of kvs ks "ks @ [k']" ob1 v'] by simp
  next
    case False
    then show ?thesis using 2 p by auto
  qed
qed simp

end

lemma fst_SetNestedField: "VMap (fst (SetNestedField v ks ob)) = fst (setPath v ks (VMap ob))"
  using setPath_VMap [of v ks ob] by (auto simp: SetNestedField_def as_map_def case_prod_beta)

lemma snd_SetNestedField: "snd (SetNestedField v ks ob) = snd (setPath v ks (VMap ob))"
  by (simp add: SetNestedField_def case_prod_beta)

interpretation nested: nested_store GetNestedField SetNestedField
  by unfold_locales
    (simp_all add: GetNestedField_def fst_SetNestedField snd_SetNestedField getPath_setPath
      getPath_setPath_diverge)

section \<open>Properties of nested fields\<close>

lemma wf_SetNestedField: "wf_uo ob \<Longrightarrow> wf_val v \<Longrightarrow> wf_uo (fst (SetNestedField v ks ob))"
  using wf_setPath [of "VMap ob" v ks] fst_SetNestedField [of v ks ob] by metis

lemma diverge_snoc:
  assumes "diverge (ks @ [k]) q"
  shows "diverge ks q \<or> (\<exists>b bs. q = ks @ b # bs \<and> b \<noteq> k)"
  using assms
proof (induction ks arbitrary: q)
  case Nil
  then show ?case by (cases q) (auto split: if_splits)
next
  case (Cons a ks)
  then obtain b bs where "q = b # bs" by (cases q) auto
  with Cons show ?case by (cases "a = b") auto
qed

lemma VMap_updPath_root:
  "getPath ks (VMap ob) = Inr (Some (VMap m)) \<Longrightarrow>
     VMap (as_map (updPath (\<lambda>_. VMap m') ks (VMap ob))) = updPath (\<lambda>_. VMap m') ks (VMap ob)"
  using updPath_VMap [of ks "\<lambda>_. VMap m'" ob] by (cases ks) (auto simp: as_map_def)

text \<open>Removal of a key of a map: the key is gone and every diverging path reads as before.\<close>

lemma RemoveNestedField_map:
  assumes "GetNestedField ks ob = Inr (Some (VMap m))"
  shows "snd (RemoveNestedField (ks @ [KStr s]) ob) = None"
    and "GetNestedField ks (fst (RemoveNestedField (ks @ [KStr s]) ob)) =
           Inr (Some (VMap (AList.delete s m)))"
    and "diverge (ks @ [KStr s]) q \<Longrightarrow>
           GetNestedField q (fst (RemoveNestedField (ks @ [KStr s]) ob)) = GetNestedField q ob"
    and "wf_uo ob \<Longrightarrow> wf_uo (fst (RemoveNestedField (ks @ [KStr s]) ob))"
proof -
  let ?u = "updPath (\<lambda>_. VMap (AList.delete s m)) ks (VMap ob)"
  have g: "getPath ks (VMap ob) = Inr (Some (VMap m))" using assms by (simp add: GetNestedField_def)
  have r: "RemoveNestedField (ks @ [KStr s]) ob = (as_map ?u, None)"
    using g by (simp add: RemoveNestedField_def)
  have u: "VMap (as_map ?u) = ?u" by (rule VMap_updPath_root [OF g])
  have gu: "getPath ks ?u = Inr (Some (VMap (AList.delete s m)))" using getPath_updPath [OF g] by simp
  show "snd (RemoveNestedField (ks @ [KStr s]) ob) = None" by (simp add: r)
  show "GetNestedField ks (fst (RemoveNestedField (ks @ [KStr s]) ob)) =
          Inr (Some (VMap (AList.delete s m)))"
    using gu u by (simp add: r GetNestedField_def)
  show "GetNestedField q (fst (RemoveNestedField (ks @ [KStr s]) ob)) = GetNestedField q ob"
    if d: "diverge (ks @ [KStr s]) q"
  proof (cases "diverge ks q")
    case True
    then show ?thesis using u by (simp add: r GetNestedField_def getPath_updPath_diverge)
  next
    case False
    then obtain b bs where q: "q = ks @ b # bs" "b \<noteq> KStr s" using diverge_snoc [OF d] by blast
    have "GetChild (VMap (AList.delete s m)) b = GetChild (VMap m) b"
      using q(2) by (cases b) (auto simp: child_simps)
    then show ?thesis using q(1) g gu u by (simp add: r GetNestedField_def getPath_append)
  qed
  show "wf_uo (fst (RemoveNestedField (ks @ [KStr s]) ob))" if "wf_uo ob"
  proof -
    have "wf_val (VMap m)" using that g by (metis wf_getPath)
    then have "wf_val (VMap (AList.delete s m))" by (rule wf_val_delete)
    then have "wf_val ?u" using that by (intro wf_updPath) auto
    then show ?thesis using r u by (metis fst_conv)
  qed
qed

text \<open>A path whose parent is absent or a scalar: nothing changes, and no error is raised.\<close>

lemma RemoveNestedField_absent:
  "GetNestedField ks ob = Inr None \<Longrightarrow> RemoveNestedField (ks @ [k]) ob = (ob, None)"
  by (simp add: RemoveNestedField_def GetNestedField_def)

text \<open>Removal of an index of a list shifts the elements behind it.\<close>

lemma RemoveNestedField_list:
  assumes "GetNestedField ks ob = Inr (Some (VList l))" "i < length l"
  shows "snd (RemoveNestedField (ks @ [KInt (int i)]) ob) = None \<and>
         GetNestedField ks (fst (RemoveNestedField (ks @ [KInt (int i)]) ob)) =
           Inr (Some (VList (take i l @ drop (Suc i) l)))"
proof -
  have "ks \<noteq> []" using assms(1) by (auto simp: GetNestedField_def)
  then have "can_set ks (VMap ob)"
    using assms(1) getPath_can_set by (simp add: GetNestedField_def)
  then have "snd (SetNestedField (VList (take i l @ drop (Suc i) l)) ks ob) = None"
    by (simp add: snd_SetNestedField setPath_ok_iff)
  then show ?thesis using assms nested.get_put
    by (simp add: RemoveNestedField_def GetNestedField_def)
qed


text \<open>
  C17: Specification of \<^verbatim>\<open>SetNestedField\<close>. It ends without error exactly when the keys fit the object
  (\<^const>\<open>can_set\<close>); then the value is read back at the path; whether it fails or not, the value at
  every diverging path is the one from before, and maps keep distinct keys.
\<close>

theorem SetNestedField_spec:
  assumes "SetNestedField v keys ob = (ob', e)"
  shows "(e = None \<longleftrightarrow> can_set keys (VMap ob)) \<and>
    (e = None \<longrightarrow> GetNestedField keys ob' = Inr (Some v)) \<and>
    (\<forall>q w. diverge keys q \<longrightarrow>
       (GetNestedField q ob' = Inr (Some w)) = (GetNestedField q ob = Inr (Some w))) \<and>
    (wf_uo ob \<and> wf_val v \<longrightarrow> wf_uo ob')"
  using nested.get_put [of v keys ob] nested.get_put_diverge [of keys _ v ob]
    setPath_ok_iff [of v keys "VMap ob"] snd_SetNestedField [of v keys ob]
    wf_SetNestedField [of ob v keys] assms
  by (simp del: wf_val.simps(2))

theorem SetNestedField_spec_witness:
  "GetNestedField [KStr ''a'', KStr ''b''] [(''a'', VMap [(''b'', VBool True), (''c'', VStr ''y'')])] =
     Inr (Some (VBool True)) \<and>
   GetNestedField [KStr ''a'', KStr ''c''] [(''a'', VMap [(''b'', VBool True), (''c'', VStr ''y'')])] =
     Inr (Some (VStr ''y''))"
proof -
  have s: "SetNestedField (VBool True) [KStr ''a'', KStr ''b''] [(''a'', VMap [(''b'', VStr ''x''), (''c'', VStr ''y'')])]
     = ([(''a'', VMap [(''b'', VBool True), (''c'', VStr ''y'')])], None)"
    by (simp add: SetNestedField_def setPath.simps child_simps as_map_def)
  show ?thesis using SetNestedField_spec [OF s]
    by (auto simp: GetNestedField_def child_simps)
qed

text \<open>
  C11: Specification of \<^verbatim>\<open>RemoveNestedField\<close> on a map that the path leads to: it does not fail, the key
  is gone and the other entries of that map remain, every path that diverges from the removed one reads
  as before, and maps keep distinct keys.
\<close>

theorem RemoveNestedField_spec:
  assumes "GetNestedField ks ob = Inr (Some (VMap m))"
    and "RemoveNestedField (ks @ [KStr s]) ob = (ob', e)"
  shows "e = None \<and>
    GetNestedField (ks @ [KStr s]) ob' = Inr None \<and>
    GetNestedField ks ob' = Inr (Some (VMap (AList.delete s m))) \<and>
    (\<forall>q. diverge (ks @ [KStr s]) q \<longrightarrow> GetNestedField q ob' = GetNestedField q ob) \<and>
    (wf_uo ob \<longrightarrow> wf_uo ob')"
proof -
  have "GetNestedField ks ob' = Inr (Some (VMap (AList.delete s m)))"
    using RemoveNestedField_map(2) [OF assms(1), of s] assms(2) by simp
  then have "GetNestedField (ks @ [KStr s]) ob' = Inr None"
    by (simp add: GetNestedField_def getPath_append child_simps)
  then show ?thesis
    using RemoveNestedField_map [OF assms(1), of s] assms(2) by (simp del: wf_val.simps(2))
qed

theorem RemoveNestedField_spec_witness:
  "GetNestedField [KStr ''metadata'', KStr ''uid''] [(''metadata'', VMap [(''name'', VStr ''n'')])] = Inr None"
proof -
  have g: "GetNestedField [KStr ''metadata''] [(''metadata'', VMap [(''uid'', VStr ''u''), (''name'', VStr ''n'')])]
      = Inr (Some (VMap [(''uid'', VStr ''u''), (''name'', VStr ''n'')]))"
    by (simp add: GetNestedField_def child_simps)
  have r: "RemoveNestedField ([KStr ''metadata''] @ [KStr ''uid''])
      [(''metadata'', VMap [(''uid'', VStr ''u''), (''name'', VStr ''n'')])]
      = ([(''metadata'', VMap [(''name'', VStr ''n'')])], None)"
    by (simp add: RemoveNestedField_def child_simps as_map_def)
  show ?thesis using RemoveNestedField_spec [OF g r] by simp
qed

end
