(* ===== verification/Uo_Iterator.thy ===== *)
theory Uo_Iterator
  imports Uo_Paths
begin

text \<open>
  The leaf iterator of \<^verbatim>\<open>object_iterator.go\<close> and the operations built on it: replacing keys and
  values (\<^verbatim>\<open>uo.go\<close>) and removing fields by a regular expression (\<^verbatim>\<open>nested_fields.go\<close>).
\<close>

section \<open>Iteration\<close>

text \<open>
  A callback sees the key path and the value of a leaf and a state of its own; it returns the value the
  leaf has afterwards (\<^verbatim>\<open>SetValue\<close> stores into the parent), its new state, and an error that stops the
  iteration. Maps are visited in the order of their association list.
\<close>

type_synonym 's callback = "keypath \<Rightarrow> val \<Rightarrow> 's \<Rightarrow> val \<times> 's \<times> go_error option"

function iterateInterface :: "'s callback \<Rightarrow> keypath \<Rightarrow> val \<Rightarrow> 's \<Rightarrow> val \<times> 's \<times> go_error option"
  and iterateMap :: "'s callback \<Rightarrow> keypath \<Rightarrow> uo \<Rightarrow> 's \<Rightarrow> uo \<times> 's \<times> go_error option"
  and iterateList :: "'s callback \<Rightarrow> keypath \<Rightarrow> nat \<Rightarrow> val list \<Rightarrow> 's \<Rightarrow> val list \<times> 's \<times> go_error option"
where
  "iterateInterface cb ks v s =
     (case v of
        VMap m \<Rightarrow> (case iterateMap cb ks m s of (m', s', e) \<Rightarrow> (VMap m', s', e))
      | VList l \<Rightarrow> (case iterateList cb ks 0 l s of (l', s', e) \<Rightarrow> (VList l', s', e))
      | _ \<Rightarrow> cb ks v s)"
| "iterateMap cb ks [] s = ([], s, None)"
| "iterateMap cb ks ((k, v) # m) s =
     (case iterateInterface cb (ks @ [KStr k]) v s of
        (v', s', Some e) \<Rightarrow> ((k, v') # m, s', Some e)
      | (v', s', None) \<Rightarrow> (case iterateMap cb ks m s' of (m', s'', e) \<Rightarrow> ((k, v') # m', s'', e)))"
| "iterateList cb ks i [] s = ([], s, None)"
| "iterateList cb ks i (v # l) s =
     (case iterateInterface cb (ks @ [KInt (int i)]) v s of
        (v', s', Some e) \<Rightarrow> (v' # l, s', Some e)
      | (v', s', None) \<Rightarrow> (case iterateList cb ks (Suc i) l s' of (l', s'', e) \<Rightarrow> (v' # l', s'', e)))"
  by pat_completeness auto
termination
  by (relation "measure (\<lambda>x. case x of
        Inl (cb, ks, v, s) \<Rightarrow> size v
      | Inr (Inl (cb, ks, m, s)) \<Rightarrow> size_list (size_prod (\<lambda>_. 0) size) m
      | Inr (Inr (cb, ks, i, l, s)) \<Rightarrow> size_list size l)")
    auto

declare iterateInterface.simps [simp del]

definition IterateLeafs :: "'s callback \<Rightarrow> uo \<Rightarrow> 's \<Rightarrow> uo \<times> 's \<times> go_error option" where
  "IterateLeafs cb ob s = iterateMap cb [] ob s"

text \<open>Collecting: the state is the list of collected items, and no leaf changes.\<close>

definition collect_cb :: "(keypath \<Rightarrow> val \<Rightarrow> 'a list) \<Rightarrow> 'a list callback" where
  "collect_cb f ks v s = (v, s @ f ks v, None)"

definition collectLeafs :: "(keypath \<Rightarrow> val \<Rightarrow> 'a list) \<Rightarrow> uo \<Rightarrow> 'a list" where
  "collectLeafs f ob = fst (snd (IterateLeafs (collect_cb f) ob []))"

section \<open>Operations on leafs\<close>

text \<open>
  \<^verbatim>\<open>ReplaceValues\<close>: a leaf deeply equal to the old value gets the new one. Leafs are no maps and no
  slices, for which deep equality is equality.
\<close>

definition ReplaceValues :: "val \<Rightarrow> val \<Rightarrow> uo \<Rightarrow> uo" where
  "ReplaceValues oldV newV ob =
     fst (IterateLeafs (\<lambda>ks v s. (if v = oldV then newV else v, s, None)) ob ())"

definition deleteKeyAt :: "keypath \<Rightarrow> string \<Rightarrow> uo \<Rightarrow> uo" where
  "deleteKeyAt parent k ob =
     as_map (updPath (\<lambda>p. case p of VMap m \<Rightarrow> VMap (AList.delete k m) | _ \<Rightarrow> p) parent (VMap ob))"

definition setKeyAt :: "keypath \<Rightarrow> string \<Rightarrow> val \<Rightarrow> uo \<Rightarrow> uo" where
  "setKeyAt parent k v ob = as_map (updPath (\<lambda>p. fst (SetChild p (KStr k) v)) parent (VMap ob))"

text \<open>
  \<^verbatim>\<open>ReplaceKeys\<close>: the leafs with the old key are collected as pairs of their parent and value; then the
  old key is deleted from every parent, and then the new key is set in every parent. A parent is a
  map, so setting a string key does not fail.
\<close>

definition ReplaceKeys :: "string \<Rightarrow> string \<Rightarrow> uo \<Rightarrow> uo" where
  "ReplaceKeys oldKey newKey ob =
     (let found = collectLeafs (\<lambda>ks v. if last ks = KStr oldKey then [(butlast ks, v)] else []) ob;
          deleted = foldl (\<lambda>o' (parent, v). deleteKeyAt parent oldKey o') ob found
      in foldl (\<lambda>o' (parent, v). setKeyAt parent newKey v o') deleted found)"

text \<open>\<^verbatim>\<open>regexp.Compile\<close> is a parameter: it gives the match predicate or a syntax error.\<close>

definition removeAll :: "keypath list \<Rightarrow> uo \<Rightarrow> uo \<times> go_error option" where
  "removeAll ps ob =
     foldl (\<lambda>(o', e) p. if e = None then RemoveNestedField p o' else (o', e)) (ob, None) ps"

definition RemoveFieldsByPathRegex :: "(string \<Rightarrow> (string \<Rightarrow> bool) res) \<Rightarrow> string \<Rightarrow> uo \<Rightarrow> uo \<times> go_error option" where
  "RemoveFieldsByPathRegex compile path ob =
     (case compile path of
        Inl e \<Rightarrow> (ob, Some e)
      | Inr match \<Rightarrow> removeAll (collectLeafs (\<lambda>ks v. if match (ToJsonPath ks) then [ks] else []) ob) ob)"


section \<open>Leafs as a specification\<close>

text \<open>The leafs of a value with their paths, and the value with every leaf replaced.\<close>

definition is_leaf :: "val \<Rightarrow> bool" where
  "is_leaf v = (case v of VMap _ \<Rightarrow> False | VList _ \<Rightarrow> False | _ \<Rightarrow> True)"

lemma size_nth [termination_simp]: "i < length l \<Longrightarrow> size (l ! i) < Suc (size_list size l)"
  by (metis le_imp_less_Suc nth_mem order_refl size_list_estimation')

fun leafsOf :: "keypath \<Rightarrow> val \<Rightarrow> (keypath \<times> val) list" where
  "leafsOf ks (VMap m) = concat (map (\<lambda>p. leafsOf (ks @ [KStr (fst p)]) (snd p)) m)"
| "leafsOf ks (VList l) = concat (map (\<lambda>i. leafsOf (ks @ [KInt (int i)]) (l ! i)) [0..<length l])"
| "leafsOf ks v = [(ks, v)]"

fun mapLeafs :: "(keypath \<Rightarrow> val \<Rightarrow> val) \<Rightarrow> keypath \<Rightarrow> val \<Rightarrow> val" where
  "mapLeafs g ks (VMap m) = VMap (map (\<lambda>p. (fst p, mapLeafs g (ks @ [KStr (fst p)]) (snd p))) m)"
| "mapLeafs g ks (VList l) = VList (map (\<lambda>i. mapLeafs g (ks @ [KInt (int i)]) (l ! i)) [0..<length l])"
| "mapLeafs g ks v = g ks v"

lemma leafsOf_leaf: "is_leaf v \<Longrightarrow> leafsOf ks v = [(ks, v)]"
  by (cases v) (auto simp: is_leaf_def)

lemma mapLeafs_leaf: "is_leaf v \<Longrightarrow> mapLeafs g ks v = g ks v"
  by (cases v) (auto simp: is_leaf_def)

lemma iterateInterface_leaf: "is_leaf v \<Longrightarrow> iterateInterface cb ks v s = cb ks v s"
  by (cases v) (auto simp: is_leaf_def iterateInterface.simps)

lemma not_leaf_cases: "\<not> is_leaf v \<Longrightarrow> (\<And>m. v = VMap m \<Longrightarrow> P) \<Longrightarrow> (\<And>l. v = VList l \<Longrightarrow> P) \<Longrightarrow> P"
  by (cases v) (auto simp: is_leaf_def)

lemma upt_shift: "map f [0..<length (v # l)] = f 0 # map (\<lambda>i. f (Suc i)) [0..<length l]"
proof -
  have "[0..<length (v # l)] = 0 # map Suc [0..<length l]"
    by (simp add: upt_conv_Cons map_Suc_upt del: upt_Suc)
  then show ?thesis by simp
qed

text \<open>Iteration with a callback that never fails: the leafs are replaced by \<open>g\<close> and the state goes
  through the leafs in order.\<close>

definition pure_cb :: "(keypath \<Rightarrow> val \<Rightarrow> val) \<Rightarrow> (keypath \<Rightarrow> val \<Rightarrow> 's \<Rightarrow> 's) \<Rightarrow> 's callback" where
  "pure_cb g h ks v s = (g ks v, h ks v s, None)"

lemma iterate_pure:
  "iterateInterface (pure_cb g h) ks v s =
     (mapLeafs g ks v, fold (\<lambda>(k, x). h k x) (leafsOf ks v) s, None)"
  "iterateMap (pure_cb g h) ks m s =
     (map (\<lambda>p. (fst p, mapLeafs g (ks @ [KStr (fst p)]) (snd p))) m,
      fold (\<lambda>(k, x). h k x) (concat (map (\<lambda>p. leafsOf (ks @ [KStr (fst p)]) (snd p)) m)) s, None)"
  "iterateList (pure_cb g h) ks i l s =
     (map (\<lambda>j. mapLeafs g (ks @ [KInt (int (i + j))]) (l ! j)) [0..<length l],
      fold (\<lambda>(k, x). h k x)
        (concat (map (\<lambda>j. leafsOf (ks @ [KInt (int (i + j))]) (l ! j)) [0..<length l])) s, None)"
proof (induction "pure_cb g h" ks v s and "pure_cb g h" ks m s and "pure_cb g h" ks i l s
    rule: iterateInterface_iterateMap_iterateList.induct)
  case (1 ks v s)
  show ?case
  proof (cases "is_leaf v")
    case True
    then show ?thesis by (simp add: iterateInterface_leaf mapLeafs_leaf leafsOf_leaf pure_cb_def)
  next
    case False
    then show ?thesis using 1 by (auto simp: iterateInterface.simps elim!: not_leaf_cases)
  qed
next
  case (5 ks i v l s)
  then show ?case unfolding upt_shift by simp
qed auto


lemma IterateLeafs_pure:
  "IterateLeafs (pure_cb g h) ob s =
     (as_map (mapLeafs g [] (VMap ob)), fold (\<lambda>(k, x). h k x) (leafsOf [] (VMap ob)) s, None)"
  by (simp add: IterateLeafs_def iterate_pure as_map_def)

lemma fold_append_concat: "fold (\<lambda>(k, x) s. s @ f k x) xs s = s @ concat (map (case_prod f) xs)"
  by (induction xs arbitrary: s) auto

lemma collectLeafs_eq:
  "collectLeafs f ob = concat (map (\<lambda>(k, x). f k x) (leafsOf [] (VMap ob)))"
proof -
  have cb: "collect_cb f = pure_cb (\<lambda>ks v. v) (\<lambda>ks v s. s @ f ks v)"
    by (intro ext) (simp add: collect_cb_def pure_cb_def)
  have "collectLeafs f ob = fold (\<lambda>(k, x) s. s @ f k x) (leafsOf [] (VMap ob)) []"
    unfolding collectLeafs_def cb IterateLeafs_pure by (simp add: case_prod_beta)
  then show ?thesis by (simp add: fold_append_concat)
qed

lemma leafsOf_iff:
  "wf_val v \<Longrightarrow> (q, w) \<in> set (leafsOf ks v) \<longleftrightarrow>
     (\<exists>p. q = ks @ p \<and> getPath p v = Inr (Some w) \<and> is_leaf w)"
proof (induction ks v arbitrary: q rule: leafsOf.induct)
  case (1 ks m)
  have "(q, w) \<in> set (leafsOf ks (VMap m)) \<longleftrightarrow>
      (\<exists>p \<in> set m. (q, w) \<in> set (leafsOf (ks @ [KStr (fst p)]) (snd p)))" by auto
  also have "\<dots> \<longleftrightarrow> (\<exists>p \<in> set m. \<exists>r. q = ks @ KStr (fst p) # r \<and>
      getPath r (snd p) = Inr (Some w) \<and> is_leaf w)"
    using 1 by (intro bex_cong) auto
  also have "\<dots> \<longleftrightarrow> (\<exists>p. q = ks @ p \<and> getPath p (VMap m) = Inr (Some w) \<and> is_leaf w)"
    (is "?l \<longleftrightarrow> ?r")
  proof
    assume ?l
    then show ?r using "1.prems" by (fastforce simp: child_simps)
  next
    assume ?r
    then obtain p where p: "q = ks @ p" "getPath p (VMap m) = Inr (Some w)" "is_leaf w" by blast
    then obtain k r where "p = KStr k # r"
      by (cases p) (auto simp: is_leaf_def GetChild_def split: key.splits)
    then show ?l using p by (force simp: child_simps split: option.splits dest: map_of_SomeD)
  qed
  finally show ?case .
next
  case (2 ks l)
  have "(q, w) \<in> set (leafsOf ks (VList l)) \<longleftrightarrow>
      (\<exists>i < length l. (q, w) \<in> set (leafsOf (ks @ [KInt (int i)]) (l ! i)))" by auto
  also have "\<dots> \<longleftrightarrow> (\<exists>i < length l. \<exists>r. q = ks @ KInt (int i) # r \<and>
      getPath r (l ! i) = Inr (Some w) \<and> is_leaf w)"
    using 2 by auto
  also have "\<dots> \<longleftrightarrow> (\<exists>p. q = ks @ p \<and> getPath p (VList l) = Inr (Some w) \<and> is_leaf w)"
    (is "?l \<longleftrightarrow> ?r")
  proof
    assume ?l
    then obtain i r where ir: "i < length l" "q = ks @ KInt (int i) # r"
      "getPath r (l ! i) = Inr (Some w)" "is_leaf w" by blast
    then have "getPath (KInt (int i) # r) (VList l) = Inr (Some w)" by (simp add: child_simps)
    with ir show ?r by blast
  next
    assume ?r
    then obtain p where p: "q = ks @ p" "getPath p (VList l) = Inr (Some w)" "is_leaf w" by blast
    then obtain i r where "p = KInt i # r" "0 \<le> i" "i < int (length l)"
      by (cases p) (auto simp: is_leaf_def GetChild_def split: key.splits if_splits)
    then show ?l using p by (intro exI [of _ "nat i"]) (auto simp: child_simps)
  qed
  finally show ?case .
qed (auto simp: is_leaf_def, (case_tac p; auto simp: GetChild_def)+)

lemma GetChild_mapLeafs:
  "GetChild p k = Inr (Some c) \<Longrightarrow> GetChild (mapLeafs g ks p) k = Inr (Some (mapLeafs g (ks @ [k]) c))"
proof -
  assume a: "GetChild p k = Inr (Some c)"
  have "map_of (map (\<lambda>p. (fst p, mapLeafs g (ks @ [KStr (fst p)]) (snd p))) m) s =
      map_option (mapLeafs g (ks @ [KStr s])) (map_of m s)" for m s
    by (induction m) auto
  with a show ?thesis
    by (cases p; cases k) (auto simp: GetChild_def split: if_splits)
qed

text \<open>A path of the value leads to the image of what it led to.\<close>

lemma getPath_mapLeafs:
  "getPath q p = Inr (Some w) \<Longrightarrow> getPath q (mapLeafs g ks p) = Inr (Some (mapLeafs g (ks @ q) w))"
proof (induction q arbitrary: p ks)
  case (Cons k q)
  then obtain c where c: "GetChild p k = Inr (Some c)" "getPath q c = Inr (Some w)"
    by (auto split: sum.splits option.splits)
  then show ?case using Cons.IH [of c "ks @ [k]"] by (simp add: GetChild_mapLeafs)
qed simp


text \<open>What a collecting iteration finds.\<close>

lemma set_collectLeafs:
  assumes "wf_uo ob"
  shows "x \<in> set (collectLeafs f ob) \<longleftrightarrow>
    (\<exists>ks w. GetNestedField ks ob = Inr (Some w) \<and> is_leaf w \<and> x \<in> set (f ks w))"
proof -
  have "x \<in> set (collectLeafs f ob) \<longleftrightarrow> (\<exists>ks w. (ks, w) \<in> set (leafsOf [] (VMap ob)) \<and> x \<in> set (f ks w))"
    unfolding collectLeafs_eq set_concat by (auto simp del: leafsOf.simps(1))
  then show ?thesis
    using leafsOf_iff [OF assms, of _ _ "[]"] by (simp add: GetNestedField_def del: leafsOf.simps(1) wf_val.simps(2))
qed

section \<open>Removal of several fields\<close>

lemma RemoveNestedField_str:
  assumes "list_all is_str p" "p \<noteq> []" "GetNestedField p ob = Inr r"
  shows "snd (RemoveNestedField p ob) = None"
    and "GetNestedField p (fst (RemoveNestedField p ob)) = Inr None"
    and "diverge p q \<Longrightarrow> GetNestedField q (fst (RemoveNestedField p ob)) = GetNestedField q ob"
proof -
  obtain ks s where p: "p = ks @ [KStr s]"
    using assms(1,2) by (cases p rule: rev_cases) (auto simp: is_str_def split: key.splits)
  consider "GetNestedField ks ob = Inr None" | m where "GetNestedField ks ob = Inr (Some (VMap m))"
    using assms(3) unfolding p GetNestedField_def getPath_append
    by (auto simp: GetChild_def split: sum.splits option.splits val.splits)
  then have "snd (RemoveNestedField p ob) = None \<and>
     GetNestedField p (fst (RemoveNestedField p ob)) = Inr None \<and>
     (diverge p q \<longrightarrow> GetNestedField q (fst (RemoveNestedField p ob)) = GetNestedField q ob)"
  proof cases
    case 1
    then show ?thesis
      unfolding p RemoveNestedField_absent [OF 1] by (simp add: GetNestedField_def getPath_append)
  next
    case (2 m)
    have "GetNestedField p (fst (RemoveNestedField p ob)) = Inr None"
      using RemoveNestedField_map(2) [OF 2, of s]
      unfolding p by (simp add: GetNestedField_def getPath_append child_simps)
    then show ?thesis using RemoveNestedField_map(1,3) [OF 2, of s] p by simp
  qed
  then show "snd (RemoveNestedField p ob) = None"
    "GetNestedField p (fst (RemoveNestedField p ob)) = Inr None"
    "diverge p q \<Longrightarrow> GetNestedField q (fst (RemoveNestedField p ob)) = GetNestedField q ob"
    by simp_all
qed

lemma removeAll_Nil [simp]: "removeAll [] ob = (ob, None)"
  by (simp add: removeAll_def)

lemma removeAll_stuck:
  "foldl (\<lambda>(o', e) p. if e = None then RemoveNestedField p o' else (o', e)) (ob, Some e) ps = (ob, Some e)"
  by (induction ps) auto

lemma removeAll_Cons [simp]:
  "removeAll (p # ps) ob =
     (case RemoveNestedField p ob of (ob1, None) \<Rightarrow> removeAll ps ob1 | (ob1, Some e) \<Rightarrow> (ob1, Some e))"
  by (auto simp: removeAll_def removeAll_stuck split: prod.splits option.splits)

lemma removeAll_str:
  assumes "\<And>p. p \<in> set ps \<Longrightarrow> list_all is_str p \<and> p \<noteq> [] \<and> (\<exists>r. GetNestedField p ob = Inr r)"
    and "\<And>p p'. p \<in> set ps \<Longrightarrow> p' \<in> set ps \<Longrightarrow> p = p' \<or> diverge p p'"
  shows "snd (removeAll ps ob) = None \<and>
    (\<forall>p \<in> set ps. GetNestedField p (fst (removeAll ps ob)) = Inr None) \<and>
    (\<forall>q. (\<forall>p \<in> set ps. diverge p q) \<longrightarrow> GetNestedField q (fst (removeAll ps ob)) = GetNestedField q ob)"
  using assms
proof (induction ps arbitrary: ob)
  case (Cons p ps)
  obtain ob1 where ob1: "RemoveNestedField p ob = (ob1, None)"
    using RemoveNestedField_str(1) [of p ob] Cons.prems(1) [of p] by (metis list.set_intros(1) prod.collapse)
  have gone: "GetNestedField p ob1 = Inr None"
    using RemoveNestedField_str(2) [of p ob] Cons.prems(1) [of p] ob1 by auto
  have frame: "diverge p q \<Longrightarrow> GetNestedField q ob1 = GetNestedField q ob" for q
    using RemoveNestedField_str(3) [of p ob _ q] Cons.prems(1) [of p] ob1 by auto
  have IH: "snd (removeAll ps ob1) = None \<and>
    (\<forall>p \<in> set ps. GetNestedField p (fst (removeAll ps ob1)) = Inr None) \<and>
    (\<forall>q. (\<forall>p \<in> set ps. diverge p q) \<longrightarrow> GetNestedField q (fst (removeAll ps ob1)) = GetNestedField q ob1)"
  proof (rule Cons.IH)
    fix p' assume "p' \<in> set ps"
    then show "list_all is_str p' \<and> p' \<noteq> [] \<and> (\<exists>r. GetNestedField p' ob1 = Inr r)"
      using Cons.prems gone frame [of p'] by (metis list.set_intros)
  qed (use Cons.prems(2) in auto)
  have "GetNestedField p (fst (removeAll ps ob1)) = Inr None"
  proof (cases "p \<in> set ps")
    case False
    then have "\<forall>p' \<in> set ps. diverge p' p"
      using Cons.prems(2) by (metis list.set_intros)
    then show ?thesis using IH gone by metis
  qed (use IH in blast)
  then show ?case using IH frame ob1 by auto
qed simp

lemma getPath_leaf_end: "is_leaf v \<Longrightarrow> getPath p v = Inr (Some w) \<Longrightarrow> p = []"
  by (cases p; cases v) (auto simp: is_leaf_def GetChild_def)

lemma leaf_paths_diverge:
  assumes "getPath p v = Inr (Some a)" "is_leaf a" "getPath q v = Inr (Some b)" "is_leaf b" "p \<noteq> q"
  shows "diverge p q"
proof -
  have "\<not> prefix p q"
  proof
    assume "prefix p q"
    then obtain r where "q = p @ r" by (auto simp: prefix_def)
    then show False using assms getPath_leaf_end [of a r b] by (auto simp: getPath_append)
  qed
  moreover have "\<not> prefix q p"
  proof
    assume "prefix q p"
    then obtain r where "p = q @ r" by (auto simp: prefix_def)
    then show False using assms getPath_leaf_end [of b r a] by (auto simp: getPath_append)
  qed
  ultimately show ?thesis by (simp add: diverge_iff_parallel parallel_def)
qed


lemma leaf_fields_diverge:
  "GetNestedField p ob = Inr (Some a) \<Longrightarrow> is_leaf a \<Longrightarrow> GetNestedField q ob = Inr (Some b) \<Longrightarrow>
     is_leaf b \<Longrightarrow> p = q \<or> diverge p q"
  unfolding GetNestedField_def using leaf_paths_diverge by blast

section \<open>Properties of the operations on leafs\<close>

text \<open>
  C13: \<^verbatim>\<open>RemoveFieldsByPathRegex\<close> removes exactly the leafs whose printed path matches, provided no
  matching leaf lies inside a list: it does not fail, and a leaf is in the result iff it was in the
  object and its path does not match.
\<close>

theorem RemoveFieldsByPathRegex_spec:
  assumes "compile path = Inr match" and "wf_uo ob"
    and "\<And>q w. GetNestedField q ob = Inr (Some w) \<Longrightarrow> is_leaf w \<Longrightarrow> match (ToJsonPath q) \<Longrightarrow> list_all is_str q"
  shows "snd (RemoveFieldsByPathRegex compile path ob) = None \<and>
    (\<forall>q w. GetNestedField q ob = Inr (Some w) \<and> is_leaf w \<longrightarrow>
       GetNestedField q (fst (RemoveFieldsByPathRegex compile path ob)) =
         (if match (ToJsonPath q) then Inr None else Inr (Some w)))"
proof -
  let ?ps = "collectLeafs (\<lambda>ks v. if match (ToJsonPath ks) then [ks] else []) ob"
  have ps: "p \<in> set ?ps \<longleftrightarrow>
      match (ToJsonPath p) \<and> (\<exists>w. GetNestedField p ob = Inr (Some w) \<and> is_leaf w)" for p
    unfolding set_collectLeafs [OF assms(2)] by (auto split: if_splits)
  have nonempty: "p \<noteq> []" if "p \<in> set ?ps" for p
    using that ps by (auto simp: GetNestedField_def is_leaf_def)
  have dv: "p = p' \<or> diverge p p'" if "p \<in> set ?ps" "p' \<in> set ?ps" for p p'
    using that leaf_fields_diverge unfolding ps by blast
  have R: "snd (removeAll ?ps ob) = None \<and>
    (\<forall>p \<in> set ?ps. GetNestedField p (fst (removeAll ?ps ob)) = Inr None) \<and>
    (\<forall>q. (\<forall>p \<in> set ?ps. diverge p q) \<longrightarrow> GetNestedField q (fst (removeAll ?ps ob)) = GetNestedField q ob)"
    by (rule removeAll_str) (use ps assms(3) nonempty dv in blast)+
  have keep: "diverge p q"
    if "GetNestedField q ob = Inr (Some w)" "is_leaf w" "\<not> match (ToJsonPath q)" "p \<in> set ?ps" for p q w
    using that leaf_fields_diverge unfolding ps by blast
  have eq: "RemoveFieldsByPathRegex compile path ob = removeAll ?ps ob"
    using assms(1) by (simp add: RemoveFieldsByPathRegex_def)
  show ?thesis unfolding eq
  proof (intro conjI allI impI)
    show "snd (removeAll ?ps ob) = None" using R by blast
    fix q w assume q: "GetNestedField q ob = Inr (Some w) \<and> is_leaf w"
    show "GetNestedField q (fst (removeAll ?ps ob)) = (if match (ToJsonPath q) then Inr None else Inr (Some w))"
    proof (cases "match (ToJsonPath q)")
      case True
      then show ?thesis using R ps [of q] q by auto
    next
      case False
      then have "\<forall>p \<in> set ?ps. diverge p q" using keep q by blast
      then show ?thesis using R q False by simp
    qed
  qed
qed

theorem RemoveFieldsByPathRegex_spec_witness:
  "GetNestedField [KStr ''aa'']
     (fst (RemoveFieldsByPathRegex (\<lambda>r. Inr (\<lambda>s. s = r)) ''aa'' [(''aa'', VStr ''x''), (''bb'', VStr ''y'')])) = Inr None"
proof -
  let ?ob = "[(''aa'', VStr ''x''), (''bb'', VStr ''y'')]"
  have cases: "q = [KStr ''aa''] \<or> q = [KStr ''bb'']"
    if "GetNestedField q ?ob = Inr (Some w)" "is_leaf w" for q w
    using leafsOf_iff [of "VMap ?ob" q w "[]"] that by (auto simp: GetNestedField_def)
  have path: "ToJsonPath [KStr ''aa''] = ''aa''"
    by (simp add: ToJsonPath_def jsonPathStep_def isSimpleIdentifier_def is_ident_start_def is_ident_char_def)
  have str: "list_all is_str q"
    if "GetNestedField q ?ob = Inr (Some w)" "is_leaf w" "ToJsonPath q = ''aa''" for q w
    using cases [OF that(1,2)] by (auto simp: is_str_def)
  have "GetNestedField [KStr ''aa''] ?ob = Inr (Some (VStr ''x'')) \<and> is_leaf (VStr ''x'')"
    by (simp add: GetNestedField_def child_simps is_leaf_def)
  then show ?thesis
    using RemoveFieldsByPathRegex_spec [of "\<lambda>r. Inr (\<lambda>s. s = r)" "''aa''" "\<lambda>s. s = ''aa''" ?ob] str path
    by auto
qed

text \<open>
  Inside a list the same operation misses elements: the paths are collected first, and removing an
  index shifts the elements behind it. With every element of a list matching, the second one survives.
\<close>

theorem RemoveFieldsByPathRegex_list_shift:
  "RemoveFieldsByPathRegex (\<lambda>_. Inr (\<lambda>_. True)) r
     [(''list'', VList [VStr ''x'', VStr ''y'', VStr ''z''])] = ([(''list'', VList [VStr ''y''])], None)"
  by (simp add: RemoveFieldsByPathRegex_def collectLeafs_eq upt_rec RemoveNestedField_def child_simps
      SetNestedField_def as_map_def)

text \<open>
  C15: \<^verbatim>\<open>ReplaceValues\<close> keeps the shape of the object: at every path of a leaf the new value stands if the
  leaf was the old value, and the leaf itself otherwise; so the old value is gone from every leaf.
\<close>

theorem ReplaceValues_spec:
  assumes "GetNestedField q ob = Inr (Some w)" "is_leaf w"
  shows "GetNestedField q (ReplaceValues oldV newV ob) = Inr (Some (if w = oldV then newV else w))"
proof -
  let ?g = "\<lambda>ks v. if v = oldV then newV else v"
  have cb: "(\<lambda>ks v s. (?g ks v, s, None)) = pure_cb ?g (\<lambda>ks v s. s)"
    by (intro ext) (simp add: pure_cb_def)
  have "ReplaceValues oldV newV ob = as_map (mapLeafs ?g [] (VMap ob))"
    unfolding ReplaceValues_def cb IterateLeafs_pure by simp
  then show ?thesis
    using getPath_mapLeafs [of q "VMap ob" w ?g "[]"] assms
    by (simp add: GetNestedField_def as_map_def mapLeafs_leaf)
qed

theorem ReplaceValues_spec_witness:
  "GetNestedField [KStr ''a'', KInt 0] (ReplaceValues (VStr ''tmp'') (VStr ''real'') [(''a'', VList [VStr ''tmp''])])
     = Inr (Some (VStr ''real''))"
  using ReplaceValues_spec [of "[KStr ''a'', KInt 0]" "[(''a'', VList [VStr ''tmp''])]" "VStr ''tmp''" "VStr ''tmp''" "VStr ''real''"]
  by (simp add: GetNestedField_def child_simps is_leaf_def)

end
