(* ===== verification/Uo_Merge.thy ===== *)
theory Uo_Merge
  imports Uo_Paths
begin

text \<open>
  Merging of objects and of string maps (\<^verbatim>\<open>utils.go\<close>, \<^verbatim>\<open>unstructured.go\<close>, \<^verbatim>\<open>uo.go\<close> of
  \<^verbatim>\<open>pkg/utils/uo\<close>) and the constructors of objects.
\<close>

section \<open>Constructors\<close>

definition New :: uo where
  "New = []"

definition FromMap :: "(string \<times> val) list \<Rightarrow> uo" where
  "FromMap m = m"

definition IsZero :: "uo \<Rightarrow> bool" where
  "IsZero ob = (length ob = 0)"

definition fromAnyList :: "val list \<Rightarrow> uo list res" where
  "fromAnyList l = mapE (\<lambda>i. case i of VMap m \<Rightarrow> Inr (FromMap m) | _ \<Rightarrow> Inl (Error ''object is not a map'')) l"

section \<open>Merging\<close>

fun MergeMap :: "uo \<Rightarrow> uo \<Rightarrow> uo" where
  "MergeMap a [] = a"
| "MergeMap a ((k, bv) # rest) =
     MergeMap
       (case map_of a k of
          Some av \<Rightarrow> (case av of
              VMap am \<Rightarrow> (case bv of VMap bm \<Rightarrow> AList.update k (VMap (MergeMap am bm)) a
                          | _ \<Rightarrow> AList.update k bv a)
            | _ \<Rightarrow> AList.update k bv a)
        | None \<Rightarrow> AList.update k bv a)
       rest"

definition Merge :: "uo \<Rightarrow> uo \<Rightarrow> uo" where
  "Merge ob other = MergeMap ob other"

definition MergeChild :: "string \<Rightarrow> uo \<Rightarrow> uo \<Rightarrow> uo" where
  "MergeChild child other ob = MergeMap ob [(child, VMap other)]"

text \<open>\<^verbatim>\<open>Clone\<close> copies deeply; on immutable values that is the identity.\<close>

definition Clone :: "uo \<Rightarrow> uo" where
  "Clone ob = ob"

definition MergeCopy :: "uo \<Rightarrow> uo \<Rightarrow> uo" where
  "MergeCopy ob other = Merge (Clone ob) other"

definition Clear :: "uo \<Rightarrow> uo" where
  "Clear ob = New"

fun MergeStrMap :: "(string, string) gomap \<Rightarrow> (string, string) gomap \<Rightarrow> (string, string) gomap" where
  "MergeStrMap a [] = a"
| "MergeStrMap a ((k, v) # b) = MergeStrMap (AList.update k v a) b"

definition CopyMergeStrMap :: "(string, string) gomap \<Rightarrow> (string, string) gomap \<Rightarrow> (string, string) gomap" where
  "CopyMergeStrMap a b = MergeStrMap (MergeStrMap [] a) b"

section \<open>Laws\<close>

text \<open>The value of one key after a merge.\<close>

definition merged :: "val option \<Rightarrow> val option \<Rightarrow> val option" where
  "merged av bv =
     (case bv of None \<Rightarrow> av
      | Some (VMap bm) \<Rightarrow> (case av of Some (VMap am) \<Rightarrow> Some (VMap (MergeMap am bm)) | _ \<Rightarrow> bv)
      | Some _ \<Rightarrow> bv)"

lemma merge_entry:
  "(case map_of a k of
      Some av \<Rightarrow> (case av of
          VMap am \<Rightarrow> (case bv of VMap bm \<Rightarrow> AList.update k (VMap (MergeMap am bm)) a
                      | _ \<Rightarrow> AList.update k bv a)
        | _ \<Rightarrow> AList.update k bv a)
    | None \<Rightarrow> AList.update k bv a) = AList.update k (the (merged (map_of a k) (Some bv))) a"
  by (auto simp: merged_def split: option.splits val.splits)

lemma MergeMap_step:
  "MergeMap a ((k, bv) # rest) = MergeMap (AList.update k (the (merged (map_of a k) (Some bv))) a) rest"
  by (simp add: merge_entry)

declare MergeMap.simps(2) [simp del]

lemma MergeMap_induct [case_names nil step]:
  assumes "\<And>a. P a []"
    and "\<And>a k bv rest. (\<And>am bm. map_of a k = Some (VMap am) \<Longrightarrow> bv = VMap bm \<Longrightarrow> P am bm) \<Longrightarrow>
       P (AList.update k (the (merged (map_of a k) (Some bv))) a) rest \<Longrightarrow> P a ((k, bv) # rest)"
  shows "P a b"
proof (induction a b rule: MergeMap.induct)
  case (2 a k bv rest)
  show ?case
  proof (rule assms(2))
    show "P am bm" if "map_of a k = Some (VMap am)" "bv = VMap bm" for am bm
      using 2(1) that by blast
    show "P (AList.update k (the (merged (map_of a k) (Some bv))) a) rest"
      using 2(2) unfolding merge_entry .
  qed
qed (rule assms(1))

lemma merged_Some: "\<exists>v. merged av (Some bv) = Some v"
  by (auto simp: merged_def split: option.splits val.splits)

lemma merged_cases:
  "merged av (Some bv) = Some bv \<or>
   (\<exists>am bm. av = Some (VMap am) \<and> bv = VMap bm \<and> merged av (Some bv) = Some (VMap (MergeMap am bm)))"
  by (auto simp: merged_def split: option.splits val.splits)

lemma map_of_MergeMap:
  "wf_map b \<Longrightarrow> map_of (MergeMap a b) k = merged (map_of a k) (map_of b k)"
proof (induction b arbitrary: a)
  case Nil
  then show ?case by (simp add: merged_def)
next
  case (Cons p b)
  obtain k' bv where p: "p = (k', bv)" by fastforce
  have none: "merged x None = x" for x by (simp add: merged_def)
  have "map_of b k' = None" using Cons.prems p by (auto simp: map_of_eq_None_iff)
  then show ?case using Cons p merged_Some [of "map_of a k'" bv]
    by (auto simp: MergeMap_step none)
qed

lemma wf_MergeMap: "wf_uo a \<Longrightarrow> wf_uo b \<Longrightarrow> wf_uo (MergeMap a b)"
proof (induction a b rule: MergeMap_induct)
  case (step a k bv rest)
  have bv: "wf_val bv" and rest: "wf_uo rest" using step.prems by auto
  have "wf_val (the (merged (map_of a k) (Some bv)))"
    using merged_cases [of "map_of a k" bv] step.IH(1) bv wf_val_lookup [OF step.prems(1), of k]
    by (auto simp del: wf_val.simps(2))
  then have "wf_uo (AList.update k (the (merged (map_of a k) (Some bv))) a)"
    using step.prems(1) by (intro wf_val_update)
  then show ?case using step.IH(2) rest by (simp add: MergeMap_step del: wf_val.simps(2))
qed simp

lemma MergeMap_same:
  "wf_uo a \<Longrightarrow> wf_uo b \<Longrightarrow> (\<And>k v. map_of b k = Some v \<Longrightarrow> map_of a k = Some v) \<Longrightarrow> MergeMap a b = a"
proof (induction a b rule: MergeMap_induct)
  case (step a k bv rest)
  have a: "map_of a k = Some bv" using step.prems(3) [of k bv] by simp
  have "wf_val bv" using step.prems(2) by simp
  then have "merged (map_of a k) (Some bv) = Some bv"
    using a step.IH(1) by (cases bv) (auto simp: merged_def)
  then have upd: "AList.update k (the (merged (map_of a k) (Some bv))) a = a" using a by simp
  have "map_of rest k' = Some v \<Longrightarrow> map_of a k' = Some v" for k' v
    using wf_map_head [of k bv rest] step.prems(2) step.prems(3) [of k' v] by (cases "k' = k") auto
  then show ?case
    using step.IH(2) step.prems(1,2) unfolding MergeMap_step upd by simp
qed simp

text \<open>Paths through a merge: the second object wins, and where it has nothing the first one stays.\<close>

definition is_map :: "val \<Rightarrow> bool" where
  "is_map v = (case v of VMap _ \<Rightarrow> True | _ \<Rightarrow> False)"

lemma getPath_Cons_VMap:
  "getPath (k # q) (VMap m) = Inr (Some v) \<Longrightarrow>
     \<exists>s c. k = KStr s \<and> map_of m s = Some c \<and> getPath q c = Inr (Some v)"
  by (cases k) (auto simp: GetChild_def split: option.splits)

lemma getPath_MergeMap_right:
  "wf_uo b \<Longrightarrow> q \<noteq> [] \<Longrightarrow> getPath q (VMap b) = Inr (Some v) \<Longrightarrow> \<not> is_map v \<Longrightarrow>
     getPath q (VMap (MergeMap a b)) = Inr (Some v)"
proof (induction q arbitrary: a b)
  case (Cons k q)
  obtain s c where c: "k = KStr s" "map_of b s = Some c" "getPath q c = Inr (Some v)"
    using getPath_Cons_VMap [OF Cons.prems(3)] by blast
  have m: "map_of (MergeMap a b) s = merged (map_of a s) (Some c)"
    using map_of_MergeMap Cons.prems(1) c(2) by auto
  show ?case
  proof (cases "\<exists>am bm. map_of a s = Some (VMap am) \<and> c = VMap bm")
    case True
    then obtain am bm where ab: "map_of a s = Some (VMap am)" "c = VMap bm" by blast
    have "q \<noteq> []" using c(3) ab Cons.prems(4) by (auto simp: is_map_def)
    moreover have "wf_uo bm" using wf_val_lookup Cons.prems(1) c(2) ab by blast
    ultimately have "getPath q (VMap (MergeMap am bm)) = Inr (Some v)"
      using Cons.IH c(3) ab Cons.prems(4) by blast
    then show ?thesis using m ab c(1) by (simp add: child_simps merged_def)
  next
    case False
    then have "merged (map_of a s) (Some c) = Some c"
      by (auto simp: merged_def split: option.splits val.splits)
    then show ?thesis using m c by (simp add: child_simps)
  qed
qed simp

lemma getPath_MergeMap_left:
  "wf_uo b \<Longrightarrow> list_all is_str q \<Longrightarrow> q \<noteq> [] \<Longrightarrow> getPath q (VMap a) = Inr (Some v) \<Longrightarrow>
     getPath q (VMap b) = Inr None \<Longrightarrow> getPath q (VMap (MergeMap a b)) = Inr (Some v)"
proof (induction q arbitrary: a b)
  case (Cons k q)
  obtain s c where c: "k = KStr s" "map_of a s = Some c" "getPath q c = Inr (Some v)"
    using getPath_Cons_VMap [OF Cons.prems(4)] by blast
  have m: "map_of (MergeMap a b) s = merged (map_of a s) (map_of b s)"
    using map_of_MergeMap Cons.prems(1) by auto
  show ?case
  proof (cases "map_of b s")
    case None
    then show ?thesis using m c by (simp add: child_simps merged_def)
  next
    case (Some bv)
    then have g: "getPath q bv = Inr None" using Cons.prems(5) c(1) by (simp add: child_simps)
    then have q: "q \<noteq> []" by auto
    then obtain s' q' where "q = KStr s' # q'"
      using Cons.prems(2) by (cases q) (auto simp: is_str_def split: key.splits)
    then obtain bm am where ab: "bv = VMap bm" "c = VMap am"
      using g c(3) by (cases bv; cases c) (auto simp: GetChild_def)
    have "wf_uo bm" using wf_val_lookup Cons.prems(1) Some ab by blast
    then have "getPath q (VMap (MergeMap am bm)) = Inr (Some v)"
      using Cons.IH Cons.prems(2) q c(3) g ab by auto
    then show ?thesis using m Some ab c by (simp add: child_simps merged_def)
  qed
qed simp

lemma map_of_MergeStrMap:
  "wf_map b \<Longrightarrow> map_of (MergeStrMap a b) k = (case map_of b k of None \<Rightarrow> map_of a k | Some v \<Rightarrow> Some v)"
proof (induction a b rule: MergeStrMap.induct)
  case (2 a k' v b)
  have "map_of b k' = None" by (rule wf_map_head [OF "2.prems"])
  moreover have "map_of (MergeStrMap (AList.update k' v a) b) k =
      (case map_of b k of None \<Rightarrow> map_of (AList.update k' v a) k | Some v \<Rightarrow> Some v)"
    using 2 by simp
  ultimately show ?case by (cases "map_of b k") auto
qed simp

lemma wf_MergeStrMap [simp]: "wf_map a \<Longrightarrow> wf_map (MergeStrMap a b)"
  by (induction a b rule: MergeStrMap.induct) auto

section \<open>Properties of merging\<close>



end
