(* ===== verification/Uo_K8s.thy ===== *)
theory Uo_K8s
  imports Uo_Merge
begin

text \<open>
  References to Kubernetes objects (\<^verbatim>\<open>pkg/types/k8s\<close>) and the access to the standard fields of an
  object (\<^verbatim>\<open>k8s_fields.go\<close>). A malformed field makes the accessor panic, as in the code.
\<close>

section \<open>Library functions\<close>

text \<open>
  Functions of k8s.io/apimachinery and of Go's time package that the accessors call. They are not
  part of the program: every definition that uses them takes this record. A time is the number of
  nanoseconds since Go's zero time.
\<close>

record k8s_lib =
  ParseGroupVersion :: "string \<Rightarrow> (string \<times> string) res"
  GroupVersion_String :: "string \<times> string \<Rightarrow> string"
  GroupKind_String :: "string \<times> string \<Rightarrow> string"
  ParseTime :: "string \<Rightarrow> int res"

section \<open>References\<close>

record ObjectRef =
  Group :: string
  Version :: string
  Kind :: string
  Name :: string
  Namespace :: string

definition NewObjectRef :: "string \<Rightarrow> string \<Rightarrow> string \<Rightarrow> string \<Rightarrow> string \<Rightarrow> ObjectRef" where
  "NewObjectRef g v k n ns = \<lparr>Group = g, Version = v, Kind = k, Name = n, Namespace = ns\<rparr>"

definition ObjectRef_String :: "ObjectRef \<Rightarrow> string" where
  "ObjectRef_String r =
     (if Namespace r \<noteq> [] then Namespace r @ ''/'' @ Kind r @ ''/'' @ Name r
      else if Name r \<noteq> [] then Kind r @ ''/'' @ Name r
      else Kind r)"

definition GroupKind :: "ObjectRef \<Rightarrow> string \<times> string" where
  "GroupKind r = (Group r, Kind r)"

definition GroupVersion :: "ObjectRef \<Rightarrow> string \<times> string" where
  "GroupVersion r = (Group r, Version r)"

definition GroupVersionKind :: "ObjectRef \<Rightarrow> string \<times> string \<times> string" where
  "GroupVersionKind r = (Group r, Version r, Kind r)"

section \<open>Fields\<close>

definition orEmpty :: "string option \<Rightarrow> string" where
  "orEmpty s = (case s of None \<Rightarrow> [] | Some x \<Rightarrow> x)"

definition GetK8sGVK :: "k8s_lib \<Rightarrow> uo \<Rightarrow> (string \<times> string \<times> string) res" where
  "GetK8sGVK L ob =
     bindE (must (GetNestedString [KStr ''kind''] ob)) (\<lambda>kind.
     bindE (must (GetNestedString [KStr ''apiVersion''] ob)) (\<lambda>apiVersion.
     bindE (must (ParseGroupVersion L (orEmpty apiVersion))) (\<lambda>(g, v).
       Inr (g, v, orEmpty kind))))"

definition SetK8sGVK :: "k8s_lib \<Rightarrow> string \<times> string \<times> string \<Rightarrow> uo \<Rightarrow> uo res" where
  "SetK8sGVK L gvk ob =
     (case gvk of (g, v, k) \<Rightarrow>
       bindE (mustSet (SetNestedField (VStr (GroupVersion_String L (g, v))) [KStr ''apiVersion''] ob)) (\<lambda>ob1.
         mustSet (SetNestedField (VStr k) [KStr ''kind''] ob1)))"

definition SetK8sGVKs :: "k8s_lib \<Rightarrow> string \<Rightarrow> string \<Rightarrow> string \<Rightarrow> uo \<Rightarrow> uo res" where
  "SetK8sGVKs L g v k ob = SetK8sGVK L (g, v, k) ob"

definition GetK8sName :: "uo \<Rightarrow> string res" where
  "GetK8sName ob = bindE (must (GetNestedString [KStr ''metadata'', KStr ''name''] ob)) (\<lambda>s. Inr (orEmpty s))"

definition SetK8sName :: "string \<Rightarrow> uo \<Rightarrow> uo res" where
  "SetK8sName name ob = mustSet (SetNestedField (VStr name) [KStr ''metadata'', KStr ''name''] ob)"

definition GetK8sNamespace :: "uo \<Rightarrow> string res" where
  "GetK8sNamespace ob =
     bindE (must (GetNestedString [KStr ''metadata'', KStr ''namespace''] ob)) (\<lambda>s. Inr (orEmpty s))"

definition SetK8sNamespace :: "string \<Rightarrow> uo \<Rightarrow> uo res" where
  "SetK8sNamespace ns ob =
     (if ns \<noteq> [] then mustSet (SetNestedField (VStr ns) [KStr ''metadata'', KStr ''namespace''] ob)
      else mustSet (RemoveNestedField [KStr ''metadata'', KStr ''namespace''] ob))"

definition GetK8sRef :: "k8s_lib \<Rightarrow> uo \<Rightarrow> ObjectRef res" where
  "GetK8sRef L ob =
     bindE (GetK8sGVK L ob) (\<lambda>(g, v, k).
     bindE (GetK8sName ob) (\<lambda>n.
     bindE (GetK8sNamespace ob) (\<lambda>ns.
       Inr \<lparr>Group = g, Version = v, Kind = k, Name = n, Namespace = ns\<rparr>)))"

definition GetK8sUid :: "uo \<Rightarrow> string res" where
  "GetK8sUid ob = bindE (must (GetNestedString [KStr ''metadata'', KStr ''uid''] ob)) (\<lambda>s. Inr (orEmpty s))"

definition GetK8sLabels :: "uo \<Rightarrow> (string, string) gomap res" where
  "GetK8sLabels ob =
     bindE (must (GetNestedStringMapCopy [KStr ''metadata'', KStr ''labels''] ob))
       (\<lambda>r. Inr (case r of None \<Rightarrow> [] | Some m \<Rightarrow> m))"

definition SetK8sLabel :: "string \<Rightarrow> string \<Rightarrow> uo \<Rightarrow> uo res" where
  "SetK8sLabel name v ob = mustSet (SetNestedField (VStr v) [KStr ''metadata'', KStr ''labels'', KStr name] ob)"

definition SetK8sLabels :: "(string, string) gomap \<Rightarrow> uo \<Rightarrow> uo res" where
  "SetK8sLabels labels ob =
     foldE (\<lambda>(k, v) o'. SetK8sLabel k v o') labels (fst (RemoveNestedField [KStr ''metadata'', KStr ''labels''] ob))"

definition GetK8sLabel :: "string \<Rightarrow> uo \<Rightarrow> string option res" where
  "GetK8sLabel name ob = must (GetNestedString [KStr ''metadata'', KStr ''labels'', KStr name] ob)"

text \<open>The regular expression is its match predicate.\<close>

definition GetK8sLabelsWithRegex :: "(string \<Rightarrow> bool) \<Rightarrow> uo \<Rightarrow> (string, string) gomap res" where
  "GetK8sLabelsWithRegex p ob = bindE (GetK8sLabels ob) (\<lambda>m. Inr (filter (\<lambda>(k, v). p k) m))"

definition GetK8sAnnotations :: "uo \<Rightarrow> (string, string) gomap res" where
  "GetK8sAnnotations ob =
     bindE (must (GetNestedStringMapCopy [KStr ''metadata'', KStr ''annotations''] ob))
       (\<lambda>r. Inr (case r of None \<Rightarrow> [] | Some m \<Rightarrow> m))"

definition GetK8sAnnotation :: "string \<Rightarrow> uo \<Rightarrow> string option res" where
  "GetK8sAnnotation name ob = must (GetNestedString [KStr ''metadata'', KStr ''annotations'', KStr name] ob)"

definition SetK8sAnnotation :: "string \<Rightarrow> string \<Rightarrow> uo \<Rightarrow> uo res" where
  "SetK8sAnnotation name v ob =
     mustSet (SetNestedField (VStr v) [KStr ''metadata'', KStr ''annotations'', KStr name] ob)"

definition SetK8sAnnotations :: "(string, string) gomap \<Rightarrow> uo \<Rightarrow> uo res" where
  "SetK8sAnnotations anns ob =
     foldE (\<lambda>(k, v) o'. SetK8sAnnotation k v o') anns
       (fst (RemoveNestedField [KStr ''metadata'', KStr ''annotations''] ob))"

definition GetK8sAnnotationsWithRegex :: "(string \<Rightarrow> bool) \<Rightarrow> uo \<Rightarrow> (string, string) gomap res" where
  "GetK8sAnnotationsWithRegex p ob = bindE (GetK8sAnnotations ob) (\<lambda>m. Inr (filter (\<lambda>(k, v). p k) m))"

definition GetK8sGeneration :: "(rat \<Rightarrow> 64 word) \<Rightarrow> uo \<Rightarrow> 64 word" where
  "GetK8sGeneration f2i ob =
     (case GetNestedInt f2i [KStr ''metadata'', KStr ''generation''] ob of Inr (Some i) \<Rightarrow> i | _ \<Rightarrow> - 1)"

definition GetK8sResourceVersion :: "uo \<Rightarrow> string" where
  "GetK8sResourceVersion ob =
     (case GetNestedString [KStr ''metadata'', KStr ''resourceVersion''] ob of Inr (Some s) \<Rightarrow> s | _ \<Rightarrow> [])"

definition SetK8sResourceVersion :: "string \<Rightarrow> uo \<Rightarrow> uo res" where
  "SetK8sResourceVersion rv ob =
     (if rv = [] then Inr (fst (RemoveNestedField [KStr ''metadata'', KStr ''resourceVersion''] ob))
      else mustSet (SetNestedField (VStr rv) [KStr ''metadata'', KStr ''resourceVersion''] ob))"

definition GetK8sOwnerReferences :: "uo \<Rightarrow> uo list" where
  "GetK8sOwnerReferences ob = GetNestedObjectListNoErr [KStr ''metadata'', KStr ''ownerReferences''] ob"

definition GetK8sManagedFields :: "uo \<Rightarrow> uo list" where
  "GetK8sManagedFields ob = GetNestedObjectListNoErr [KStr ''metadata'', KStr ''managedFields''] ob"

definition GetK8sCreationTime :: "k8s_lib \<Rightarrow> uo \<Rightarrow> int" where
  "GetK8sCreationTime L ob =
     (case GetNestedString [KStr ''metadata'', KStr ''creationTimestamp''] ob of
        Inr (Some v) \<Rightarrow> (case ParseTime L v of Inr t \<Rightarrow> t | Inl _ \<Rightarrow> 0)
      | _ \<Rightarrow> 0)"

text \<open>\<^verbatim>\<open>utils.ParseBoolOrFalse\<close>.\<close>

definition ParseBoolOrFalse :: "string option \<Rightarrow> bool" where
  "ParseBoolOrFalse s = (case s of None \<Rightarrow> False | Some x \<Rightarrow> (case ParseBool x of Inr b \<Rightarrow> b | Inl _ \<Rightarrow> False))"


text \<open>A value whose error is dropped (\<^verbatim>\<open>x, _, _ := ...\<close>), and a string read that way.\<close>

definition noErr :: "'a \<Rightarrow> 'a res \<Rightarrow> 'a" where
  "noErr d r = (case r of Inr x \<Rightarrow> x | Inl _ \<Rightarrow> d)"

definition strAt :: "keypath \<Rightarrow> uo \<Rightarrow> string" where
  "strAt ks ob = orEmpty (noErr None (GetNestedString ks ob))"

section \<open>Laws\<close>

text \<open>The metadata of an object is a map, or there is none yet.\<close>

definition metadata :: "uo \<Rightarrow> uo" where
  "metadata ob = (case map_of ob ''metadata'' of Some (VMap m) \<Rightarrow> m | _ \<Rightarrow> [])"

definition metadata_ok :: "uo \<Rightarrow> bool" where
  "metadata_ok ob =
     (case map_of ob ''metadata'' of None \<Rightarrow> True | Some VNil \<Rightarrow> True | Some (VMap _) \<Rightarrow> True | _ \<Rightarrow> False)"

lemma SetNestedField_1: "SetNestedField v [KStr k] ob = (AList.update k v ob, None)"
  by (simp add: SetNestedField_def child_simps as_map_def)

lemma SetNestedField_meta:
  assumes "metadata_ok ob"
  shows "SetNestedField v [KStr ''metadata'', KStr k] ob =
    (AList.update ''metadata'' (VMap (AList.update k v (metadata ob))) ob, None)"
proof -
  have r: "GetChild (VMap ob) (KStr ''metadata'') = Inr (map_of ob ''metadata'')" by (simp add: child_simps)
  have "child_or_new (map_of ob ''metadata'') = VMap (metadata ob)"
    using assms by (auto simp: metadata_ok_def metadata_def child_or_new_def split: option.splits val.splits)
  then show ?thesis
    by (simp add: SetNestedField_def setPath_step [OF r] child_simps as_map_def)
qed

lemma metadata_update [simp]:
  "metadata (AList.update ''metadata'' (VMap m) ob) = m"
  "metadata_ok (AList.update ''metadata'' (VMap m) ob)"
  "k \<noteq> ''metadata'' \<Longrightarrow> metadata (AList.update k v ob) = metadata ob"
  "k \<noteq> ''metadata'' \<Longrightarrow> metadata_ok (AList.update k v ob) = metadata_ok ob"
  by (simp_all add: metadata_def metadata_ok_def)

lemma GetNestedString_1:
  "GetNestedString [KStr k] ob =
     (case map_of ob k of None \<Rightarrow> Inr None | Some (VStr s) \<Rightarrow> Inr (Some s)
      | Some _ \<Rightarrow> Inl (Error ''value is not a string''))"
  by (simp add: GetNestedString_def GetNestedField_def child_simps split: option.splits)

lemma GetNestedString_meta:
  assumes "map_of ob ''metadata'' = Some (VMap m)"
  shows "GetNestedString [KStr ''metadata'', KStr k] ob =
     (case map_of m k of None \<Rightarrow> Inr None | Some (VStr s) \<Rightarrow> Inr (Some s)
      | Some _ \<Rightarrow> Inl (Error ''value is not a string''))"
  using assms by (simp add: GetNestedString_def GetNestedField_def child_simps split: option.splits)

lemma RemoveNestedField_meta:
  "map_of ob ''metadata'' = Some (VMap m) \<Longrightarrow>
     RemoveNestedField [KStr ''metadata'', KStr k] ob =
       (AList.update ''metadata'' (VMap (AList.delete k m)) ob, None)"
  by (simp add: RemoveNestedField_def child_simps as_map_def)

lemmas ref_simps = GetK8sRef_def GetK8sGVK_def GetK8sName_def GetK8sNamespace_def SetK8sGVK_def
  SetK8sName_def SetK8sNamespace_def SetNestedField_1 SetNestedField_meta GetNestedString_1
  GetNestedString_meta RemoveNestedField_meta mustSet_def

section \<open>Properties of the fields\<close>

text \<open>
  The reference of an object is what was written: after setting group, version and kind, name and
  namespace of an object whose metadata is a map or absent, reading the reference gives these values
  (the empty namespace removes the field), provided apimachinery parses the group version it printed.
\<close>

theorem GetK8sRef_roundtrip:
  assumes "ParseGroupVersion L (GroupVersion_String L (g, v)) = Inr (g, v)" and "metadata_ok ob"
  shows "\<exists>ob'. bindE (SetK8sGVK L (g, v, k) ob) (\<lambda>o1. bindE (SetK8sName n o1) (SetK8sNamespace ns)) = Inr ob' \<and>
    GetK8sRef L ob' = Inr \<lparr>Group = g, Version = v, Kind = k, Name = n, Namespace = ns\<rparr>"
  using assms by (cases "ns = []") (simp_all add: ref_simps orEmpty_def)

definition sample_lib :: k8s_lib where
  "sample_lib = \<lparr>
     ParseGroupVersion = (\<lambda>s. case SplitChar s (CHR ''/'') of
         [v] \<Rightarrow> Inr ([], v) | [g, v] \<Rightarrow> Inr (g, v) | _ \<Rightarrow> Inl (Error ''unexpected GroupVersion string'')),
     GroupVersion_String = (\<lambda>(g, v). if g \<noteq> [] then g @ ''/'' @ v else v),
     GroupKind_String = (\<lambda>(g, k). if g \<noteq> [] then k @ ''.'' @ g else k),
     ParseTime = (\<lambda>s. Inr (int (length s)))\<rparr>"

theorem GetK8sRef_roundtrip_witness:
  "\<exists>ob'. bindE (SetK8sGVK sample_lib (''apps'', ''v1'', ''Deployment'') [])
       (\<lambda>o1. bindE (SetK8sName ''n'' o1) (SetK8sNamespace ''ns'')) = Inr ob' \<and>
     GetK8sRef sample_lib ob' =
       Inr \<lparr>Group = ''apps'', Version = ''v1'', Kind = ''Deployment'', Name = ''n'', Namespace = ''ns''\<rparr>"
  using GetK8sRef_roundtrip [of sample_lib "''apps''" "''v1''" "[]" "''Deployment''" "''n''" "''ns''"]
  by (simp add: sample_lib_def metadata_ok_def)

lemma SetK8sLabels_put_all:
  "SetK8sLabels labels ob = mustSet (nested.put_all [KStr ''metadata'', KStr ''labels'']
     (map (\<lambda>(k, v). (KStr k, VStr v)) labels) (fst (RemoveNestedField [KStr ''metadata'', KStr ''labels''] ob)))"
proof -
  have "foldE (\<lambda>(k, v) o'. SetK8sLabel k v o') ls o1 = mustSet (nested.put_all [KStr ''metadata'', KStr ''labels'']
     (map (\<lambda>(k, v). (KStr k, VStr v)) ls) o1)" for ls o1
    by (induction ls arbitrary: o1)
      (auto simp: SetK8sLabel_def mustSet_def split: prod.splits option.splits go_error.splits)
  then show ?thesis by (simp add: SetK8sLabels_def)
qed

text \<open>
  Setting all labels: when it does not panic, every label of the map is read back with its value,
  and fields of the metadata other than the labels keep their values.
\<close>

theorem SetK8sLabels_spec:
  assumes "SetK8sLabels labels ob = Inr ob'" and "wf_map labels"
  shows "(\<forall>k v. map_of labels k = Some v \<longrightarrow> GetK8sLabel k ob' = Inr (Some v)) \<and>
    (\<forall>k v. k \<noteq> ''labels'' \<and> metadata_ok ob \<and> GetNestedField [KStr ''metadata'', KStr k] ob = Inr (Some v) \<longrightarrow>
       GetNestedField [KStr ''metadata'', KStr k] ob' = Inr (Some v))"
proof (intro conjI allI impI)
  let ?kvs = "map (\<lambda>(k, v). (KStr k, VStr v)) labels"
  let ?o1 = "fst (RemoveNestedField [KStr ''metadata'', KStr ''labels''] ob)"
  have p: "nested.put_all [KStr ''metadata'', KStr ''labels''] ?kvs ?o1 = (ob', None)"
    using assms(1) by (simp add: SetK8sLabels_put_all)
  have d: "distinct (map fst ?kvs)"
    using assms(2) by (induction labels) (auto simp: image_iff)
  { fix k v assume "map_of labels k = Some v"
    then have "(KStr k, VStr v) \<in> set ?kvs" by (force dest: map_of_SomeD)
    then have "GetNestedField ([KStr ''metadata'', KStr ''labels''] @ [KStr k]) ob' = Inr (Some (VStr v))"
      using nested.put_all_get [of "[KStr ''metadata'', KStr ''labels'']" ?kvs ?o1] d p by fastforce
    then show "GetK8sLabel k ob' = Inr (Some v)" by (simp add: GetK8sLabel_def GetNestedString_def) }
  { fix k v assume k: "k \<noteq> ''labels'' \<and> metadata_ok ob \<and>
      GetNestedField [KStr ''metadata'', KStr k] ob = Inr (Some v)"
    then obtain m where m: "map_of ob ''metadata'' = Some (VMap m)"
      by (auto simp: metadata_ok_def GetNestedField_def GetChild_def split: option.splits val.splits)
    have "GetNestedField [KStr ''metadata'', KStr k] ?o1 = Inr (Some v)"
      using k m by (simp add: RemoveNestedField_meta GetNestedField_def child_simps)
    then show "GetNestedField [KStr ''metadata'', KStr k] ob' = Inr (Some v)"
      using nested.put_all_frame [of ?kvs "[KStr ''metadata'', KStr ''labels'']" "[KStr ''metadata'', KStr k]" ?o1 v] k p
      by force }
qed

theorem SetK8sLabels_spec_witness:
  "\<exists>ob'. SetK8sLabels [(''x'', ''1'')] [(''metadata'', VMap [(''name'', VStr ''n'')])] = Inr ob' \<and>
     GetK8sLabel ''x'' ob' = Inr (Some ''1'')"
proof -
  have "SetK8sLabels [(''x'', ''1'')] [(''metadata'', VMap [(''name'', VStr ''n'')])] =
     Inr [(''metadata'', VMap [(''name'', VStr ''n''), (''labels'', VMap [(''x'', VStr ''1'')])])]"
    by (simp add: SetK8sLabels_def SetK8sLabel_def RemoveNestedField_meta SetNestedField_def
        setPath.simps child_simps as_map_def mustSet_def)
  then show ?thesis using SetK8sLabels_spec by (fastforce simp: if_splits)
qed

section \<open>Well-formed objects\<close>

lemma wf_mustSet: "mustSet r = Inr ob \<Longrightarrow> wf_uo (fst r) \<Longrightarrow> wf_uo ob"
  by (cases r) (simp add: mustSet_def del: wf_val.simps split: option.splits go_error.splits)

lemma wf_list_remove: "wf_val (VList l) \<Longrightarrow> wf_val (VList (take i l @ drop j l))"
  by (auto dest: in_set_takeD in_set_dropD)

lemma wf_RemoveNestedField:
  assumes "wf_uo ob"
  shows "wf_uo (fst (RemoveNestedField ks ob))"
proof (cases "ks \<noteq> [] \<and> (\<exists>v. getPath (butlast ks) (VMap ob) = Inr (Some v))")
  case True
  then obtain v where ks: "ks \<noteq> []" and v: "getPath (butlast ks) (VMap ob) = Inr (Some v)" by blast
  have w: "wf_val v" using assms v by (rule wf_getPath)
  show ?thesis
  proof (cases v)
    case (VList l)
    then show ?thesis
      using ks v w assms wf_list_remove [of l] by (cases "last ks") (auto simp: RemoveNestedField_def intro!: wf_SetNestedField simp del: wf_val.simps)
  next
    case (VMap m)
    show ?thesis
    proof (cases "last ks")
      case (KStr s)
      then have "ks = butlast ks @ [KStr s]" using ks by (metis append_butlast_last_id)
      moreover have "GetNestedField (butlast ks) ob = Inr (Some (VMap m))" using v VMap by (simp add: GetNestedField_def)
      ultimately show ?thesis using RemoveNestedField_map(4) [of "butlast ks" ob m s] assms by simp
    qed (use ks v VMap assms in \<open>auto simp: RemoveNestedField_def simp del: wf_val.simps\<close>)
  qed (use ks v assms in \<open>auto simp: RemoveNestedField_def simp del: wf_val.simps\<close>)
qed (use assms in \<open>auto simp: RemoveNestedField_def simp del: wf_val.simps split: sum.splits option.splits\<close>)

text \<open>A setter that ends normally leaves a well-formed object.\<close>

definition keeps_wf :: "(uo \<Rightarrow> uo res) \<Rightarrow> bool" where
  "keeps_wf f \<longleftrightarrow> (\<forall>ob ob'. wf_uo ob \<longrightarrow> f ob = Inr ob' \<longrightarrow> wf_uo ob')"

lemma keeps_wf_set: "wf_val v \<Longrightarrow> keeps_wf (\<lambda>ob. mustSet (SetNestedField v ks ob))" "keeps_wf (\<lambda>ob. mustSet (RemoveNestedField ks ob))"
  unfolding keeps_wf_def using wf_mustSet wf_SetNestedField wf_RemoveNestedField by blast+

lemma keeps_wf_bind: "keeps_wf f \<Longrightarrow> keeps_wf g \<Longrightarrow> keeps_wf (\<lambda>ob. bindE (f ob) g)"
  unfolding keeps_wf_def bindE_Inr_iff by blast

lemma keeps_wf_fold: "(\<And>x. keeps_wf (f x)) \<Longrightarrow> keeps_wf (foldE f xs)"
  unfolding keeps_wf_def using foldE_invariant [of xs wf_uo f] by blast

lemma keeps_wf_after_remove: "keeps_wf f \<Longrightarrow> keeps_wf (\<lambda>ob. f (fst (RemoveNestedField ks ob)))"
  unfolding keeps_wf_def using wf_RemoveNestedField by blast



end
