(* ===== verification/Util_Collections.thy ===== *)
theory Util_Collections
  imports Prelude
begin

text \<open>
  Small containers of \<^verbatim>\<open>pkg/utils\<close>: inclusion filters (\<^verbatim>\<open>inclusion.go\<close>), the insertion-ordered map
  (\<^verbatim>\<open>ordered_map.go\<close>), the memoising caches (\<^verbatim>\<open>thread_safe_cache.go\<close>) and the search in a slice.
\<close>

section \<open>Inclusion\<close>

record InclusionEntry =
  Type :: string
  Value :: string

record Inclusion =
  inc_includes :: "(InclusionEntry, bool) gomap"
  inc_excludes :: "(InclusionEntry, bool) gomap"

definition NewInclusion :: Inclusion where
  "NewInclusion = \<lparr>inc_includes = [], inc_excludes = []\<rparr>"

definition AddInclude :: "string \<Rightarrow> string \<Rightarrow> Inclusion \<Rightarrow> Inclusion" where
  "AddInclude typ v inc = inc\<lparr>inc_includes := AList.update \<lparr>Type = typ, Value = v\<rparr> True (inc_includes inc)\<rparr>"

definition AddExclude :: "string \<Rightarrow> string \<Rightarrow> Inclusion \<Rightarrow> Inclusion" where
  "AddExclude typ v inc = inc\<lparr>inc_excludes := AList.update \<lparr>Type = typ, Value = v\<rparr> True (inc_excludes inc)\<rparr>"

text \<open>A nil \<^verbatim>\<open>*Inclusion\<close> is \<open>None\<close>.\<close>

definition HasType :: "Inclusion option \<Rightarrow> string \<Rightarrow> bool" where
  "HasType inc typ =
     (case inc of None \<Rightarrow> False
      | Some i \<Rightarrow> list_ex (\<lambda>(e, _). Type e = typ) (inc_includes i) \<or> list_ex (\<lambda>(e, _). Type e = typ) (inc_excludes i))"

definition GetIncludes :: "Inclusion option \<Rightarrow> string \<Rightarrow> string list" where
  "GetIncludes inc typ =
     (case inc of None \<Rightarrow> [] | Some i \<Rightarrow> map (\<lambda>(e, _). Value e) (filter (\<lambda>(e, _). Type e = typ) (inc_includes i)))"

definition GetExcludes :: "Inclusion option \<Rightarrow> string \<Rightarrow> string list" where
  "GetExcludes inc typ =
     (case inc of None \<Rightarrow> [] | Some i \<Rightarrow> map (\<lambda>(e, _). Value e) (filter (\<lambda>(e, _). Type e = typ) (inc_excludes i)))"

fun checkList :: "InclusionEntry list \<Rightarrow> (InclusionEntry, bool) gomap \<Rightarrow> bool" where
  "checkList [] m = False"
| "checkList (e # l) m = (if map_of m e \<noteq> None then True else checkList l m)"

definition CheckIncluded :: "Inclusion option \<Rightarrow> InclusionEntry list \<Rightarrow> bool \<Rightarrow> bool" where
  "CheckIncluded inc l excludeIfNotIncluded =
     (case inc of
        None \<Rightarrow> True
      | Some i \<Rightarrow>
          if length (inc_includes i) = 0 \<and> length (inc_excludes i) = 0 then True
          else let isIncluded = checkList l (inc_includes i); isExcluded = checkList l (inc_excludes i)
               in if excludeIfNotIncluded \<and> \<not> isIncluded then False
                  else if isExcluded then False
                  else length (inc_includes i) = 0 \<or> isIncluded)"

section \<open>Ordered map\<close>

text \<open>The index map \<open>om_m\<close> is \<open>None\<close> before the first insertion (a nil map).\<close>

record 'v OrderedMap =
  om_m :: "(string, nat) gomap option"
  om_l :: "(string \<times> 'v) list"

definition om_new :: "'v OrderedMap" where
  "om_new = \<lparr>om_m = None, om_l = []\<rparr>"

definition om_Set :: "string \<Rightarrow> 'v \<Rightarrow> 'v OrderedMap \<Rightarrow> 'v OrderedMap \<times> bool" where
  "om_Set k v s =
     (case om_m s of
        None \<Rightarrow> (s\<lparr>om_m := Some [(k, 0)], om_l := om_l s @ [(k, v)]\<rparr>, True)
      | Some m \<Rightarrow>
          if map_of m k \<noteq> None then (s, False)
          else (s\<lparr>om_m := Some (AList.update k (length (om_l s)) m), om_l := om_l s @ [(k, v)]\<rparr>, True))"

definition om_SetMultiple :: "string list \<Rightarrow> 'v \<Rightarrow> 'v OrderedMap \<Rightarrow> 'v OrderedMap" where
  "om_SetMultiple ks v s = foldl (\<lambda>s k. fst (om_Set k v s)) s ks"

definition om_Has :: "'v OrderedMap \<Rightarrow> string \<Rightarrow> bool" where
  "om_Has s k = (case om_m s of None \<Rightarrow> False | Some m \<Rightarrow> map_of m k \<noteq> None)"

definition om_Get :: "'v OrderedMap \<Rightarrow> string \<Rightarrow> 'v option res" where
  "om_Get s k =
     (case om_m s of
        None \<Rightarrow> Inr None
      | Some m \<Rightarrow> (case map_of m k of
            None \<Rightarrow> Inr None
          | Some i \<Rightarrow> if i < length (om_l s) then Inr (Some (snd (om_l s ! i)))
                      else Inl (Panic ''index out of range'')))"

definition om_ListKeys :: "'v OrderedMap \<Rightarrow> string list" where
  "om_ListKeys s = map fst (om_l s)"

definition om_ListValues :: "'v OrderedMap \<Rightarrow> 'v list" where
  "om_ListValues s = map snd (om_l s)"

definition om_Merge :: "'v OrderedMap \<Rightarrow> 'v OrderedMap \<Rightarrow> 'v OrderedMap" where
  "om_Merge other s = foldl (\<lambda>s (k, v). fst (om_Set k v s)) s (om_l other)"

section \<open>Caches\<close>

text \<open>
  \<^verbatim>\<open>ThreadSafeCache.Get\<close> under its lock: the first call for a key stores the value and the error of the
  function, every later call returns them. The number of calls of the function is part of the result.
\<close>

record 'v ThreadSafeCache =
  tc_cache :: "(string, 'v res) gomap"

definition tc_Get :: "string \<Rightarrow> 'v res \<Rightarrow> 'v ThreadSafeCache \<Rightarrow> 'v ThreadSafeCache \<times> 'v res \<times> nat" where
  "tc_Get key fval c =
     (case map_of (tc_cache c) key of
        Some e \<Rightarrow> (c, e, 0)
      | None \<Rightarrow> (c\<lparr>tc_cache := AList.update key fval (tc_cache c)\<rparr>, fval, 1))"

section \<open>Slices\<close>

fun find_from :: "nat \<Rightarrow> string list \<Rightarrow> string \<Rightarrow> int" where
  "find_from i [] s = - 1"
| "find_from i (v # vs) s = (if v = s then int i else find_from (Suc i) vs s)"

definition FindStrInSlice :: "string list \<Rightarrow> string \<Rightarrow> int" where
  "FindStrInSlice a s = find_from 0 a s"

section \<open>Laws\<close>

lemma checkList_iff: "checkList l m \<longleftrightarrow> set l \<inter> fst ` set m \<noteq> {}"
  by (induction l) (auto simp: map_of_eq_None_iff image_iff)

lemma find_from_iff: "find_from i a s \<noteq> - 1 \<longleftrightarrow> s \<in> set a"
  by (induction a arbitrary: i) auto

lemma FindStrInSlice_iff: "FindStrInSlice a s \<noteq> - 1 \<longleftrightarrow> s \<in> set a"
  by (simp add: FindStrInSlice_def find_from_iff)

subsection \<open>The ordered map\<close>

text \<open>The index map lists exactly the positions of the keys, which are distinct.\<close>

definition om_inv :: "'v OrderedMap \<Rightarrow> bool" where
  "om_inv s \<longleftrightarrow> distinct (om_ListKeys s) \<and>
     (case om_m s of
        None \<Rightarrow> om_l s = []
      | Some m \<Rightarrow> (\<forall>k i. map_of m k = Some i \<longleftrightarrow> i < length (om_l s) \<and> fst (om_l s ! i) = k))"

lemma om_inv_new: "om_inv om_new"
  by (simp add: om_inv_def om_new_def om_ListKeys_def)

lemma om_Has_iff: "om_inv s \<Longrightarrow> om_Has s k \<longleftrightarrow> k \<in> set (om_ListKeys s)"
proof (cases "om_m s")
  case (Some m)
  assume "om_inv s"
  then have m: "map_of m k = Some i \<longleftrightarrow> i < length (om_l s) \<and> fst (om_l s ! i) = k" for i
    using Some by (simp add: om_inv_def)
  have "map_of m k \<noteq> None \<longleftrightarrow> (\<exists>i < length (om_l s). fst (om_l s ! i) = k)"
    using m by blast
  also have "\<dots> \<longleftrightarrow> k \<in> set (om_ListKeys s)"
    unfolding om_ListKeys_def in_set_conv_nth by auto
  finally show ?thesis using Some by (simp add: om_Has_def)
qed (auto simp: om_inv_def om_Has_def om_ListKeys_def)

lemma om_Set_present: "om_Has s k \<Longrightarrow> om_Set k v s = (s, False)"
  by (auto simp: om_Has_def om_Set_def split: option.splits)

lemma om_Set_absent:
  assumes "om_inv s" "\<not> om_Has s k"
  shows "om_inv (fst (om_Set k v s))" "om_l (fst (om_Set k v s)) = om_l s @ [(k, v)]" "snd (om_Set k v s)"
proof -
  have k: "k \<notin> set (om_ListKeys s)" using assms om_Has_iff by blast
  show l: "om_l (fst (om_Set k v s)) = om_l s @ [(k, v)]" and "snd (om_Set k v s)"
    using assms(2) by (auto simp: om_Has_def om_Set_def split: option.splits)
  show "om_inv (fst (om_Set k v s))"
  proof (cases "om_m s")
    case None
    then show ?thesis using assms(1)
      by (auto simp: om_inv_def om_Set_def om_ListKeys_def split: if_splits)
  next
    case (Some m)
    have m: "map_of m k' = Some i \<longleftrightarrow> i < length (om_l s) \<and> fst (om_l s ! i) = k'" for k' i
      using assms(1) Some by (simp add: om_inv_def)
    have ne: "i < length (om_l s) \<Longrightarrow> fst (om_l s ! i) \<noteq> k" for i
      using k by (auto simp: om_ListKeys_def)
    have n: "map_of m k = None" using assms(2) Some by (simp add: om_Has_def)
    show ?thesis using assms(1) k Some n m ne
      by (auto simp: om_inv_def om_Set_def om_ListKeys_def nth_append less_Suc_eq split: if_splits)
  qed
qed

lemma om_inv_Set: "om_inv s \<Longrightarrow> om_inv (fst (om_Set k v s))"
  by (cases "om_Has s k") (simp_all add: om_Set_present om_Set_absent)

lemma om_Get_eq:
  assumes "om_inv s"
  shows "om_Get s k = Inr (map_of (om_l s) k)"
proof (cases "om_Has s k")
  case False
  then have "map_of (om_l s) k = None" using om_Has_iff [OF assms] by (simp add: om_ListKeys_def map_of_eq_None_iff)
  then show ?thesis using False by (auto simp: om_Get_def om_Has_def split: option.splits)
next
  case True
  then obtain m i where mi: "om_m s = Some m" "map_of m k = Some i" by (auto simp: om_Has_def split: option.splits)
  then have i: "i < length (om_l s)" "fst (om_l s ! i) = k" using assms by (auto simp: om_inv_def)
  have "distinct (map fst (om_l s))" using assms by (simp add: om_inv_def om_ListKeys_def)
  then have "map_of (om_l s) k = Some (snd (om_l s ! i))"
    using i by (intro map_of_is_SomeI) (auto simp: in_set_conv_nth)
  then show ?thesis using mi i by (simp add: om_Get_def)
qed


subsection \<open>The contract of a first-wins map\<close>

text \<open>
  What the users of the ordered map rely on: an insertion of a present key changes nothing, an insertion
  of an absent key appends the entry. The tags of deployment items are collected through it.
\<close>

locale first_wins_map =
  fixes ins :: "'k \<Rightarrow> 'v \<Rightarrow> 'm \<Rightarrow> 'm"
    and entries :: "'m \<Rightarrow> ('k \<times> 'v) list"
    and inv :: "'m \<Rightarrow> bool"
  assumes ins_present: "inv m \<Longrightarrow> k \<in> fst ` set (entries m) \<Longrightarrow> ins k v m = m"
    and ins_absent: "inv m \<Longrightarrow> k \<notin> fst ` set (entries m) \<Longrightarrow> entries (ins k v m) = entries m @ [(k, v)]"
    and inv_ins: "inv m \<Longrightarrow> inv (ins k v m)"
begin

definition ins_all :: "('k \<times> 'v) list \<Rightarrow> 'm \<Rightarrow> 'm" where
  "ins_all kvs m = foldl (\<lambda>m (k, v). ins k v m) m kvs"

lemma ins_all_simps [simp]: "ins_all [] m = m" "ins_all ((k, v) # kvs) m = ins_all kvs (ins k v m)"
  by (simp_all add: ins_all_def)

lemma inv_ins_all: "inv m \<Longrightarrow> inv (ins_all kvs m)"
  by (induction kvs arbitrary: m) (auto simp: inv_ins)

lemma map_of_ins:
  "inv m \<Longrightarrow> map_of (entries (ins k v m)) k' = map_of (entries m @ [(k, v)]) k'"
proof (cases "k \<in> fst ` set (entries m)")
  case True
  assume "inv m"
  obtain w where w: "map_of (entries m) k = Some w"
    using True by (metis map_of_eq_None_iff not_None_eq)
  show ?thesis using ins_present [OF \<open>inv m\<close> True, of v] w
    by (cases "k' = k") (simp_all add: map_add_def split: option.splits)
qed (simp add: ins_absent)

lemma map_of_ins_all:
  "inv m \<Longrightarrow> map_of (entries (ins_all kvs m)) k' = map_of (entries m @ kvs) k'"
proof (induction kvs arbitrary: m)
  case (Cons p kvs)
  obtain k v where p: "p = (k, v)" by fastforce
  have "map_of (entries (ins_all (p # kvs) m)) k' = map_of (entries (ins k v m) @ kvs) k'"
    using Cons p by (simp add: inv_ins)
  also have "\<dots> = map_of ((entries m @ [(k, v)]) @ kvs) k'"
    using map_of_ins [OF Cons.prems, of k v k'] by (simp add: map_add_def split: option.splits)
  finally show ?case using p by simp
qed simp

lemma entries_ins_all_prefix: "inv m \<Longrightarrow> \<exists>ys. entries (ins_all kvs m) = entries m @ ys \<and> set ys \<subseteq> set kvs"
proof (induction kvs arbitrary: m)
  case (Cons p kvs)
  obtain k v where p: "p = (k, v)" by fastforce
  obtain ys where ys: "entries (ins_all kvs (ins k v m)) = entries (ins k v m) @ ys" "set ys \<subseteq> set kvs"
    using Cons inv_ins by blast
  show ?case
  proof (cases "k \<in> fst ` set (entries m)")
    case True
    then show ?thesis using ys p ins_present [OF Cons.prems True, of v] by auto
  next
    case False
    then show ?thesis using ys p ins_absent [OF Cons.prems False, of v] by auto
  qed
qed simp

end

interpretation om: first_wins_map "\<lambda>k v s. fst (om_Set k v s)" om_l om_inv
proof
  fix m :: "'a OrderedMap" and k v
  assume m: "om_inv m"
  show "k \<in> fst ` set (om_l m) \<Longrightarrow> fst (om_Set k v m) = m"
    using om_Has_iff [OF m] by (simp add: om_ListKeys_def om_Set_present)
  show "k \<notin> fst ` set (om_l m) \<Longrightarrow> om_l (fst (om_Set k v m)) = om_l m @ [(k, v)]"
    using om_Has_iff [OF m] by (simp add: om_ListKeys_def om_Set_absent m)
  show "om_inv (fst (om_Set k v m))" by (rule om_inv_Set [OF m])
qed

lemma om_SetMultiple_eq: "om_SetMultiple ks v s = om.ins_all (map (\<lambda>k. (k, v)) ks) s"
  by (induction ks arbitrary: s) (auto simp: om_SetMultiple_def)

lemma om_Merge_eq: "om_Merge other s = om.ins_all (om_l other) s"
  by (simp add: om_Merge_def om.ins_all_def)

lemma om_inv_SetMultiple: "om_inv s \<Longrightarrow> om_inv (om_SetMultiple ks v s)"
  by (simp add: om_SetMultiple_eq om.inv_ins_all)

lemma set_om_SetMultiple:
  assumes "om_inv s"
  shows "set (om_ListKeys (om_SetMultiple ks v s)) = set (om_ListKeys s) \<union> set ks"
proof -
  have "k \<in> set (om_ListKeys (om_SetMultiple ks v s)) \<longleftrightarrow>
      map_of (om_l (om.ins_all (map (\<lambda>k. (k, v)) ks) s)) k \<noteq> None" for k
    by (simp add: om_SetMultiple_eq om_ListKeys_def map_of_eq_None_iff)
  then show ?thesis
    by (auto simp: om.map_of_ins_all [OF assms] map_add_None om_ListKeys_def map_of_eq_None_iff image_iff
        simp flip: map_add_def)
qed

section \<open>Properties\<close>

text \<open>
  The inclusion filter. An item without any configured entry passes; otherwise it passes iff none of
  its entries is excluded and either nothing is included explicitly (and that is not demanded) or one of
  its entries is included. Exclusion wins over inclusion.
\<close>

theorem CheckIncluded_spec:
  "CheckIncluded (Some i) l strict \<longleftrightarrow>
     (inc_includes i = [] \<and> inc_excludes i = []) \<or>
     (set l \<inter> fst ` set (inc_excludes i) = {} \<and>
      (if inc_includes i = [] then \<not> strict else \<exists>e\<in>set l. e \<in> fst ` set (inc_includes i)))"
  by (auto simp: CheckIncluded_def checkList_iff Let_def)

text \<open>
  The ordered map after any sequence of insertions: looking a key up gives the first value inserted
  for it and never goes out of range, keys are listed once each, and the entries are a selection of the
  insertions.
\<close>

theorem OrderedMap_first_wins:
  "om_Get (foldl (\<lambda>s (k, v). fst (om_Set k v s)) om_new kvs) k = Inr (map_of kvs k) \<and>
   distinct (om_ListKeys (foldl (\<lambda>s (k, v). fst (om_Set k v s)) om_new kvs)) \<and>
   set (om_l (foldl (\<lambda>s (k, v). fst (om_Set k v s)) om_new kvs)) \<subseteq> set kvs"
proof -
  let ?s = "om.ins_all kvs om_new"
  have inv: "om_inv ?s" by (simp add: om.inv_ins_all om_inv_new)
  have "om_Get ?s k = Inr (map_of kvs k)"
    using om.map_of_ins_all [OF om_inv_new, of kvs k] om_Get_eq [OF inv] by (simp add: om_new_def)
  moreover have "distinct (om_ListKeys ?s)" using inv by (simp add: om_inv_def)
  moreover have "set (om_l ?s) \<subseteq> set kvs"
    using om.entries_ins_all_prefix [OF om_inv_new, of kvs] by (auto simp: om_new_def)
  ultimately show ?thesis by (simp add: om.ins_all_def)
qed

end
