(* ===== verification/Effects.thy ===== *)
theory Effects
  imports Prelude
begin

text \<open>
  Stateful Go code as a function from a state to an outcome and a state. An outcome is a value or a
  panic; a panic keeps the state reached, so that what was done before it stays visible. The theory
  holds the combinators, and two ways of reasoning about them: relations between the states before and
  after (a locale over any reflexive and transitive relation) and Hoare triples.
\<close>

section \<open>Combinators\<close>

type_synonym ('s, 'a) eff = "'s \<Rightarrow> 'a res \<times> 's"

definition ret :: "'a \<Rightarrow> ('s, 'a) eff" where
  "ret x s = (Inr x, s)"

definition throw :: "go_error \<Rightarrow> ('s, 'a) eff" where
  "throw e s = (Inl e, s)"

definition bindM :: "('s, 'a) eff \<Rightarrow> ('a \<Rightarrow> ('s, 'b) eff) \<Rightarrow> ('s, 'b) eff" where
  "bindM m f s = (case m s of (Inl e, s') \<Rightarrow> (Inl e, s') | (Inr x, s') \<Rightarrow> f x s')"

definition seqM :: "('s, 'a) eff \<Rightarrow> ('s, 'b) eff \<Rightarrow> ('s, 'b) eff" where
  "seqM m n = bindM m (\<lambda>_. n)"

definition lift :: "'a res \<Rightarrow> ('s, 'a) eff" where
  "lift r s = (r, s)"

definition ask :: "('s \<Rightarrow> 'a) \<Rightarrow> ('s, 'a) eff" where
  "ask f s = (Inr (f s), s)"

definition modify :: "('s \<Rightarrow> 's) \<Rightarrow> ('s, unit) eff" where
  "modify f s = (Inr (), f s)"

definition whenM :: "bool \<Rightarrow> ('s, unit) eff \<Rightarrow> ('s, unit) eff" where
  "whenM b m = (if b then m else ret ())"

fun forM :: "('a \<Rightarrow> ('s, unit) eff) \<Rightarrow> 'a list \<Rightarrow> ('s, unit) eff" where
  "forM f [] = ret ()"
| "forM f (x # xs) = seqM (f x) (forM f xs)"

fun mapM :: "('a \<Rightarrow> ('s, 'b) eff) \<Rightarrow> 'a list \<Rightarrow> ('s, 'b list) eff" where
  "mapM f [] = ret []"
| "mapM f (x # xs) = bindM (f x) (\<lambda>y. bindM (mapM f xs) (\<lambda>ys. ret (y # ys)))"

named_theorems run_simps

lemma run_eqs [run_simps]:
  "ret x s = (Inr x, s)" "throw e s = (Inl e, s)" "lift r s = (r, s)" "ask g s = (Inr (g s), s)"
  "modify f s = (Inr (), f s)"
  by (simp_all add: ret_def throw_def lift_def ask_def modify_def)

lemma run_bindM [run_simps]:
  "m s = (Inr x, s') \<Longrightarrow> bindM m f s = f x s'"
  "m s = (Inl e, s') \<Longrightarrow> bindM m f s = (Inl e, s')"
  by (simp_all add: bindM_def)

lemma bindM_cases:
  "P (bindM m f s) \<longleftrightarrow> (\<forall>e s'. m s = (Inl e, s') \<longrightarrow> P (Inl e, s')) \<and> (\<forall>x s'. m s = (Inr x, s') \<longrightarrow> P (f x s'))"
  by (auto simp: bindM_def split: prod.splits sum.splits)

lemma bindM_Inr_iff: "bindM m f s = (Inr y, s'') \<longleftrightarrow> (\<exists>x s'. m s = (Inr x, s') \<and> f x s' = (Inr y, s''))"
  by (auto simp: bindM_def split: prod.splits sum.splits)

lemma bindM_ret_left [simp]: "bindM (ret x) f = f x"
  by (rule ext) (simp add: bindM_def ret_def)

lemma bindM_lift [simp]: "bindM (lift (Inr x)) f = f x" "bindM (lift (Inl e)) f = throw e"
  by (rule ext, simp add: bindM_def lift_def throw_def)+

lemma bindM_assoc: "bindM (bindM m f) g = bindM m (\<lambda>x. bindM (f x) g)"
  by (rule ext) (simp add: bindM_def split: prod.splits sum.splits)

lemma forM_append: "forM f (xs @ ys) = seqM (forM f xs) (forM f ys)"
  by (induction xs) (simp_all add: seqM_def bindM_assoc)


section \<open>Relations between states\<close>

text \<open>
  \<open>always R m\<close>: however \<open>m\<close> ends, its final state is related to its initial state. A relation that is
  reflexive and transitive goes through every combinator, so it is enough to look at the primitive
  operations.
\<close>

definition always :: "('s \<Rightarrow> 's \<Rightarrow> bool) \<Rightarrow> ('s, 'a) eff \<Rightarrow> bool" where
  "always R m \<longleftrightarrow> (\<forall>s. R s (snd (m s)))"

lemma alwaysI: "(\<And>s. R s (snd (m s))) \<Longrightarrow> always R m"
  by (simp add: always_def)

lemma alwaysD: "always R m \<Longrightarrow> R s (snd (m s))"
  by (simp add: always_def)

lemma always_run: "always R m \<Longrightarrow> m s = (r, s') \<Longrightarrow> R s s'"
  using alwaysD [of R m s] by simp

lemma always_mono: "always R m \<Longrightarrow> (\<And>s s'. R s s' \<Longrightarrow> R' s s') \<Longrightarrow> always R' m"
  by (simp add: always_def)

locale step_rel =
  fixes R :: "'s \<Rightarrow> 's \<Rightarrow> bool"
  assumes refl: "R s s"
    and trans: "R s s' \<Longrightarrow> R s' s'' \<Longrightarrow> R s s''"
begin

lemma always_pure: "always R (ret x)" "always R (throw e)" "always R (lift r)" "always R (ask g)"
  by (simp_all add: always_def run_simps refl)

lemma always_modify: "(\<And>s. R s (f s)) \<Longrightarrow> always R (modify f)"
  by (simp add: always_def run_simps)

lemma always_bind:
  assumes "always R m" "\<And>x. always R (f x)"
  shows "always R (bindM m f)"
proof (rule alwaysI)
  fix s
  have m: "R s (snd (m s))" using assms(1) by (rule alwaysD)
  show "R s (snd (bindM m f s))"
  proof (cases "m s")
    case (Pair r s')
    then show ?thesis using m trans [OF _ alwaysD [OF assms(2)]]
      by (cases r) (simp_all add: bindM_def)
  qed
qed

lemma always_seq: "always R m \<Longrightarrow> always R n \<Longrightarrow> always R (seqM m n)"
  by (simp add: seqM_def always_bind)

lemma always_when: "(b \<Longrightarrow> always R m) \<Longrightarrow> always R (whenM b m)"
  by (simp add: whenM_def always_pure)

lemma always_if: "(b \<Longrightarrow> always R m) \<Longrightarrow> (\<not> b \<Longrightarrow> always R n) \<Longrightarrow> always R (if b then m else n)"
  by simp

lemma always_case_option:
  "(x = None \<Longrightarrow> always R m) \<Longrightarrow> (\<And>y. x = Some y \<Longrightarrow> always R (f y)) \<Longrightarrow>
     always R (case x of None \<Rightarrow> m | Some y \<Rightarrow> f y)"
  by (cases x) auto

lemma always_case_sum:
  "(\<And>e. x = Inl e \<Longrightarrow> always R (g e)) \<Longrightarrow> (\<And>y. x = Inr y \<Longrightarrow> always R (f y)) \<Longrightarrow>
     always R (case x of Inl e \<Rightarrow> g e | Inr y \<Rightarrow> f y)"
  by (cases x) auto

lemma always_case_prod: "(\<And>a b. x = (a, b) \<Longrightarrow> always R (f a b)) \<Longrightarrow> always R (case x of (a, b) \<Rightarrow> f a b)"
  by (cases x) auto

lemma always_for: "(\<And>x. x \<in> set xs \<Longrightarrow> always R (f x)) \<Longrightarrow> always R (forM f xs)"
  by (induction xs) (simp_all add: always_pure always_seq)

lemma always_mapM: "(\<And>x. x \<in> set xs \<Longrightarrow> always R (f x)) \<Longrightarrow> always R (mapM f xs)"
  by (induction xs) (simp_all add: always_pure always_bind)

lemma after_bind:
  assumes "bindM m f s = (Inr y, s')" "\<And>x. always R (f x)"
  obtains x s1 where "m s = (Inr x, s1)" "R s1 s'"
proof -
  obtain x s1 where 1: "m s = (Inr x, s1)" "f x s1 = (Inr y, s')" using assms(1) by (auto simp: bindM_Inr_iff)
  then show ?thesis using that alwaysD [OF assms(2), of s1 x] by simp
qed

lemma after_seq:
  assumes "seqM m n s = (Inr y, s')" "always R n"
  obtains x s1 where "m s = (Inr x, s1)" "R s1 s'"
  using assms unfolding seqM_def by (rule after_bind)

text \<open>What every round of a loop establishes and the relation keeps holds for all items at the end.\<close>

lemma for_each:
  assumes "\<And>x. x \<in> set xs \<Longrightarrow> always R (f x)"
    and "\<And>x s s'. x \<in> set xs \<Longrightarrow> f x s = (Inr (), s') \<Longrightarrow> Q x s'"
    and "\<And>x s s'. Q x s \<Longrightarrow> R s s' \<Longrightarrow> Q x s'"
    and "forM f xs s = (Inr (), s')"
  shows "\<forall>x \<in> set xs. Q x s'"
  using assms(1,2,4)
proof (induction xs arbitrary: s)
  case (Cons x xs)
  obtain s1 where s1: "f x s = (Inr (), s1)" "forM f xs s1 = (Inr (), s')"
    using Cons.prems(3) by (auto simp: seqM_def bindM_Inr_iff)
  have "R s1 s'" using alwaysD [OF always_for, of xs f s1] Cons.prems(1) s1(2) by simp
  moreover have "Q x s1" using Cons.prems(2) s1(1) by simp
  ultimately show ?case using Cons.IH [OF _ _ s1(2)] Cons.prems(1,2) assms(3) by simp
qed simp

lemmas always_intros = always_pure always_bind always_seq always_when always_if always_case_option
  always_case_sum always_case_prod always_for always_mapM always_modify

end


section \<open>Hoare triples\<close>

text \<open>
  \<open>triple P m Q\<close>: from a state with \<open>P\<close>, the outcome and the final state satisfy \<open>Q\<close>; a panic is an
  outcome like any other.
\<close>

definition triple :: "('s \<Rightarrow> bool) \<Rightarrow> ('s, 'a) eff \<Rightarrow> ('a res \<Rightarrow> 's \<Rightarrow> bool) \<Rightarrow> bool" where
  "triple P m Q \<longleftrightarrow> (\<forall>s. P s \<longrightarrow> Q (fst (m s)) (snd (m s)))"

lemma tripleD: "triple P m Q \<Longrightarrow> P s \<Longrightarrow> m s = (r, s') \<Longrightarrow> Q r s'"
  by (auto simp: triple_def)

lemma triple_ret: "(\<And>s. P s \<Longrightarrow> Q (Inr x) s) \<Longrightarrow> triple P (ret x) Q"
  by (simp add: triple_def run_simps)

lemma triple_bind:
  assumes "triple P m (\<lambda>r s. case r of Inl e \<Rightarrow> Q (Inl e) s | Inr x \<Rightarrow> I x s)" "\<And>x. triple (I x) (f x) Q"
  shows "triple P (bindM m f) Q"
  unfolding triple_def
proof (intro allI impI)
  fix s assume P: "P s"
  obtain r s' where m: "m s = (r, s')" by fastforce
  then have "case r of Inl e \<Rightarrow> Q (Inl e) s' | Inr x \<Rightarrow> I x s'" using tripleD [OF assms(1) P] by blast
  then show "Q (fst (bindM m f s)) (snd (bindM m f s))"
    using m assms(2) by (cases r) (auto simp: bindM_def triple_def)
qed

lemma triple_for:
  assumes "\<And>x. x \<in> set xs \<Longrightarrow> triple I (f x) (\<lambda>r s. I s)"
  shows "triple I (forM f xs) (\<lambda>r s. I s)"
  using assms
proof (induction xs)
  case (Cons x xs)
  have "triple I (f x) (\<lambda>r s. case r of Inl e \<Rightarrow> I s | Inr _ \<Rightarrow> I s)"
    using Cons.prems [of x] by (auto simp: triple_def split: sum.splits)
  then show ?case using Cons by (auto simp: seqM_def intro!: triple_bind [where I = "\<lambda>_. I"])
qed (simp add: triple_ret)

lemma always_triple: "always (\<lambda>s s'. I s \<longrightarrow> I s') m \<longleftrightarrow> triple I m (\<lambda>_. I)"
  by (auto simp: always_def triple_def)

section \<open>Invariants\<close>

text \<open>An invariant as a relation between states.\<close>

definition keeps :: "('s \<Rightarrow> bool) \<Rightarrow> 's \<Rightarrow> 's \<Rightarrow> bool" where
  "keeps I s s' \<longleftrightarrow> (I s \<longrightarrow> I s')"

interpretation keeps: step_rel "keeps I" for I
  by unfold_locales (auto simp: keeps_def)

text \<open>Two relations at once.\<close>

lemma always_conj: "always (\<lambda>s s'. R s s' \<and> R' s s') m \<longleftrightarrow> always R m \<and> always R' m"
  by (auto simp: always_def)

section \<open>Loops that only read\<close>

lemma mapM_pure:
  assumes "\<And>x y s s'. f x s = (Inr y, s') \<Longrightarrow> s' = s \<and> P s x y" and "mapM f xs s = (Inr ys, s')"
  shows "s' = s \<and> list_all2 (P s) xs ys"
  using assms(2)
proof (induction xs arbitrary: ys)
  case (Cons x xs)
  then obtain y s1 zs s2 where "f x s = (Inr y, s1)" "mapM f xs s1 = (Inr zs, s2)" "ys = y # zs" "s' = s2"
    by (auto simp: bindM_Inr_iff run_simps)
  then show ?case using assms(1) Cons.IH by fastforce
qed (auto simp: run_simps)

section \<open>What a computation that returns has done\<close>

text \<open>
  \<open>ends Q m\<close>: when \<open>m\<close> returns a value, the value and the states before and after are related by \<open>Q\<close>. If \<open>Q\<close> absorbs
  the steps of a relation \<open>R\<close> before it, then everything that only makes such steps can come first.
\<close>

definition ends :: "('a \<Rightarrow> 's \<Rightarrow> 's \<Rightarrow> bool) \<Rightarrow> ('s, 'a) eff \<Rightarrow> bool" where
  "ends Q m \<longleftrightarrow> (\<forall>s y s'. m s = (Inr y, s') \<longrightarrow> Q y s s')"

lemma endsI: "(\<And>s y s'. m s = (Inr y, s') \<Longrightarrow> Q y s s') \<Longrightarrow> ends Q m"
  by (simp add: ends_def)

lemma endsD: "ends Q m \<Longrightarrow> m s = (Inr y, s') \<Longrightarrow> Q y s s'"
  by (simp add: ends_def)

locale outcome_rel = step_rel R for R :: "'s \<Rightarrow> 's \<Rightarrow> bool" +
  fixes Q :: "'a \<Rightarrow> 's \<Rightarrow> 's \<Rightarrow> bool"
  assumes before: "R s s1 \<Longrightarrow> Q y s1 s2 \<Longrightarrow> Q y s s2"
begin

lemma ends_bind:
  assumes "always R m" "\<And>x. ends Q (f x)"
  shows "ends Q (bindM m f)"
proof (rule endsI)
  fix s y s'
  assume "bindM m f s = (Inr y, s')"
  then obtain x s1 where "m s = (Inr x, s1)" "f x s1 = (Inr y, s')" by (auto simp: bindM_Inr_iff)
  then show "Q y s s'" using alwaysD [OF assms(1), of s] endsD [OF assms(2)] before by simp
qed

lemma ends_seq: "always R m \<Longrightarrow> ends Q n \<Longrightarrow> ends Q (seqM m n)"
  unfolding seqM_def by (rule ends_bind)

lemma ends_ret: "(\<And>s. Q x s s) \<Longrightarrow> ends Q (ret x)"
  by (simp add: ends_def run_simps)

lemma ends_throw: "ends Q (throw e)"
  by (simp add: ends_def run_simps)

lemma ends_if: "(b \<Longrightarrow> ends Q m) \<Longrightarrow> (\<not> b \<Longrightarrow> ends Q n) \<Longrightarrow> ends Q (if b then m else n)"
  by simp

lemma ends_case_option:
  "(x = None \<Longrightarrow> ends Q m) \<Longrightarrow> (\<And>y. x = Some y \<Longrightarrow> ends Q (f y)) \<Longrightarrow> ends Q (case x of None \<Rightarrow> m | Some y \<Rightarrow> f y)"
  by (cases x) auto

lemma ends_case_sum:
  "(\<And>e. x = Inl e \<Longrightarrow> ends Q (g e)) \<Longrightarrow> (\<And>y. x = Inr y \<Longrightarrow> ends Q (f y)) \<Longrightarrow> ends Q (case x of Inl e \<Rightarrow> g e | Inr y \<Rightarrow> f y)"
  by (cases x) auto

lemma ends_case_prod: "(\<And>a b. x = (a, b) \<Longrightarrow> ends Q (f a b)) \<Longrightarrow> ends Q (case x of (a, b) \<Rightarrow> f a b)"
  by (cases x) auto

lemmas ends_intros = ends_bind ends_seq ends_throw ends_if ends_case_option ends_case_sum ends_case_prod

end

end
