(* ===== verification/Uo_JsonPath.thy ===== *)
theory Uo_JsonPath
  imports Uo_Iterator Uo_Merge
begin

text \<open>
  JSON paths (\<^verbatim>\<open>jsonpath.go\<close>) and the printing of values with \<^verbatim>\<open>%v\<close>. The JSON path library
  (\<^verbatim>\<open>github.com/ohler55/ojg\<close>) is the parameter \<open>jp_lib\<close>: whether an expression parses, the
  locations of an object it matches in the order of its results, and deletion and setting.
\<close>

section \<open>JSON paths\<close>

record jp_lib =
  jp_ParseErr :: "string \<Rightarrow> string option"
  jp_Locate :: "string \<Rightarrow> uo \<Rightarrow> keypath list"
  jp_Del :: "string \<Rightarrow> uo \<Rightarrow> uo \<times> go_error option"
  jp_Set :: "string \<Rightarrow> val \<Rightarrow> uo \<Rightarrow> uo \<times> go_error option"

text \<open>A parsed expression is represented by its text.\<close>

definition NewMyJsonPath :: "jp_lib \<Rightarrow> string \<Rightarrow> string res" where
  "NewMyJsonPath L p = (case jp_ParseErr L p of Some e \<Rightarrow> Inl (Error e) | None \<Rightarrow> Inr p)"

definition NewMyJsonPathMust :: "jp_lib \<Rightarrow> string \<Rightarrow> string res" where
  "NewMyJsonPathMust L p = must (NewMyJsonPath L p)"

definition jpGet :: "jp_lib \<Rightarrow> string \<Rightarrow> uo \<Rightarrow> (keypath \<times> val) list" where
  "jpGet L j ob = List.map_filter (\<lambda>ks. case GetNestedField ks ob of Inr (Some v) \<Rightarrow> Some (ks, v) | _ \<Rightarrow> None) (jp_Locate L j ob)"

text \<open>
  The result shares memory with the object: what is stored into a map found through it is stored at its
  location, so the location comes along.
\<close>

definition GetFirst :: "jp_lib \<Rightarrow> string \<Rightarrow> uo \<Rightarrow> (keypath \<times> val) option" where
  "GetFirst L j ob = (case jpGet L j ob of [] \<Rightarrow> None | x # _ \<Rightarrow> Some x)"

definition GetFirstObject :: "jp_lib \<Rightarrow> string \<Rightarrow> uo \<Rightarrow> (keypath \<times> uo) option res" where
  "GetFirstObject L j ob =
     (case GetFirst L j ob of
        None \<Rightarrow> Inr None
      | Some (ks, VMap m) \<Rightarrow> Inr (Some (ks, FromMap m))
      | Some _ \<Rightarrow> Inl (Error ''child is not a map''))"

definition GetFirstListOfObjects :: "jp_lib \<Rightarrow> string \<Rightarrow> uo \<Rightarrow> (keypath \<times> uo list) option res" where
  "GetFirstListOfObjects L j ob =
     (case GetFirst L j ob of
        None \<Rightarrow> Inr None
      | Some (ks, VList l) \<Rightarrow>
          bindE (mapE (\<lambda>x. case x of VMap m \<Rightarrow> Inr (FromMap m) | _ \<Rightarrow> Inl (Error ''child is not a list of maps'')) l)
            (\<lambda>ms. Inr (Some (ks, ms)))
      | Some _ \<Rightarrow> Inl (Error ''child is not a list''))"

text \<open>
  \<^verbatim>\<open>ListMatchingFields\<close> sets a marker that no object contains and collects the leafs that hold it.
\<close>

definition magic :: val where
  "magic = VOther ''struct {}{}''"

definition ListMatchingFields :: "jp_lib \<Rightarrow> string \<Rightarrow> uo \<Rightarrow> keypath list res" where
  "ListMatchingFields L j ob =
     (case jp_Set L j magic (Clone ob) of
        (_, Some e) \<Rightarrow> Inl e
      | (ob', None) \<Rightarrow> Inr (collectLeafs (\<lambda>ks v. if v = magic then [ks] else []) ob'))"

section \<open>Printing\<close>

text \<open>
  \<^verbatim>\<open>fmt.Sprintf("%v", v)\<close>: maps are printed in the order of their keys. The forms of floats, pointers and
  foreign values are left to the parameter \<open>f\<close>.
\<close>

fun fmt_v :: "(val \<Rightarrow> string) \<Rightarrow> val \<Rightarrow> string" where
  "fmt_v f VNil = ''<nil>''"
| "fmt_v f (VBool b) = (if b then ''true'' else ''false'')"
| "fmt_v f (VInt i) = show_int (sint i)"
| "fmt_v f (VUint i) = show_int (uint i)"
| "fmt_v f (VStr s) = s"
| "fmt_v f (VList l) = ''['' @ Join (map (fmt_v f) l) '' '' @ '']''"
| "fmt_v f (VMap m) = ''map['' @ Join (map (\<lambda>(k, s). k @ '':'' @ s) (sort_key fst (map (\<lambda>(k, v). (k, fmt_v f v)) m))) '' '' @ '']''"
| "fmt_v f v = f v"

end
