(* ===== verification/K8s_Cluster.thy ===== *)
theory K8s_Cluster
  imports Effects Uo_K8s Uo_JsonPath Util_Collections
begin

text \<open>
  The access to a Kubernetes cluster (\<^verbatim>\<open>pkg/k8s\<close>). The client library, the discovery client, the
  context and the clock are not part of the repository: they are the fields of \<open>K8sCluster\<close> that
  are functions of the requests made so far, so a statement for every cluster value is a statement for every
  behaviour of the server. The requests that reach the client are logged in the state; the log is what the
  safety properties speak about.
\<close>

section \<open>Requests, replies and errors\<close>

type_synonym gvk = "string \<times> string \<times> string"

record ApiWarning =
  warn_Code :: int
  warn_Agent :: string
  warn_Text :: string

record StatusCause =
  cause_Type :: string
  cause_Message :: string
  cause_Field :: string

text \<open>
  An error of the client: its message, the answers of the predicates of
  \<^verbatim>\<open>k8s.io/apimachinery\<close> the code asks (they look through wrapped errors), whether it wraps an error of the
  context, and the causes of the wrapped status error, if there is one (\<open>Some None\<close>: a status without
  details).
\<close>

record api_err =
  err_Msg :: string
  IsNotFound :: bool
  IsConflict :: bool
  IsForbidden :: bool
  IsUnauthorized :: bool
  IsNoMatchError :: bool
  IsContextErr :: bool
  AsStatus :: "StatusCause list option option"

definition Errorf :: "string \<Rightarrow> api_err" where
  "Errorf m = \<lparr>err_Msg = m, IsNotFound = False, IsConflict = False, IsForbidden = False,
     IsUnauthorized = False, IsNoMatchError = False, IsContextErr = False, AsStatus = None\<rparr>"

definition wrapErr :: "string \<Rightarrow> api_err \<Rightarrow> api_err" where
  "wrapErr m e = e\<lparr>err_Msg := m @ '': '' @ err_Msg e\<rparr>"

definition ctxErr :: "string \<Rightarrow> string \<Rightarrow> api_err" where
  "ctxErr m c = (Errorf (m @ '': '' @ c))\<lparr>IsContextErr := True\<rparr>"

datatype request =
  ReqGet gvk string string
| ReqList gvk string "(string, string) gomap"
| ReqDelete ObjectRef bool
| ReqPatch uo bool bool
| ReqUpdate uo bool
| ReqResetMapper

fun harmless :: "request \<Rightarrow> bool" where
  "harmless (ReqDelete ref dry) = dry"
| "harmless (ReqPatch x force dry) = dry"
| "harmless (ReqUpdate x dry) = dry"
| "harmless _ = True"

record reply =
  rp_Warnings :: "ApiWarning list"
  rp_Err :: "api_err option"
  rp_Obj :: uo
  rp_Items :: "uo list"

record APIResource =
  ar_Name :: string
  ar_Group :: string
  ar_Version :: string
  ar_Kind :: string
  ar_Verbs :: "string list"

record APIGroupResources =
  agr_Name :: string
  agr_PreferredVersion :: string
  agr_VersionedResources :: "(string, APIResource list) gomap"

text \<open>
  \<open>k_poolDone\<close> and \<open>k_ctxDone\<close> answer the two selects on the context: whether the branch of the finished
  context is taken, and its error; \<open>k_semDone\<close> whether a worker gives up waiting for the semaphore because
  the context is done. \<open>k_polls\<close> bounds the rounds of a polling loop that are looked at.
\<close>

record K8sCluster =
  k_lib :: k8s_lib
  k_DryRun :: bool
  k_client :: "request list \<Rightarrow> request \<Rightarrow> reply"
  k_poolDone :: "request list \<Rightarrow> string option"
  k_ctxDone :: "request list \<Rightarrow> string option"
  k_semDone :: "request list \<Rightarrow> ObjectRef \<Rightarrow> bool"
  k_discovery :: "request list \<Rightarrow> api_err + APIGroupResources list"
  k_namespaced :: "request list \<Rightarrow> gvk \<Rightarrow> bool option"
  k_mappings :: "request list \<Rightarrow> gvk \<Rightarrow> api_err + (gvk \<times> string) list"
  k_now :: "request list \<Rightarrow> int"
  k_polls :: nat
  k_versionParses :: bool
  k_versionBelow1_100 :: bool
  k_jp :: jp_lib
  k_fmtOther :: "val \<Rightarrow> string"

record kstate =
  reqlog :: "request list"

type_synonym ('x, 'a) keff = "('x kstate_scheme, 'a) eff"

section \<open>The client pool\<close>

text \<open>
  \<^verbatim>\<open>withCClientFromPool\<close> with a callback that makes one request and may wrap its error. Wrapping the client
  in a dry-run client sets the dry-run flag of the request, as the options of the request do.
\<close>

definition withClientFromPool :: "K8sCluster \<Rightarrow> (api_err \<Rightarrow> api_err) \<Rightarrow> request \<Rightarrow> ('x, reply) keff" where
  "withClientFromPool k wrap req =
     bindM (ask reqlog) (\<lambda>h.
     case k_poolDone k h of
       Some c \<Rightarrow> ret \<lparr>rp_Warnings = [], rp_Err = Some (ctxErr ''failed waiting for free client'' c), rp_Obj = [], rp_Items = []\<rparr>
     | None \<Rightarrow>
         seqM (modify (\<lambda>s. s\<lparr>reqlog := reqlog s @ [req]\<rparr>))
              (let r = k_client k h req in ret (r\<lparr>rp_Err := map_option wrap (rp_Err r)\<rparr>)))"

definition doList :: "K8sCluster \<Rightarrow> gvk \<Rightarrow> string \<Rightarrow> (string, string) gomap \<Rightarrow>
    ('x, uo list \<times> ApiWarning list \<times> api_err option) keff" where
  "doList k gvk namespace labels =
     bindM (withClientFromPool k id (ReqList gvk namespace labels)) (\<lambda>r.
       ret (case rp_Err r of Some e \<Rightarrow> ([], rp_Warnings r, Some e) | None \<Rightarrow> (rp_Items r, rp_Warnings r, None)))"

definition ListObjects :: "K8sCluster \<Rightarrow> gvk \<Rightarrow> string \<Rightarrow> (string, string) gomap \<Rightarrow>
    ('x, uo list \<times> ApiWarning list \<times> api_err option) keff" where
  "ListObjects k gvk namespace labels = doList k gvk namespace labels"

definition GetSingleObject :: "K8sCluster \<Rightarrow> ObjectRef \<Rightarrow>
    ('x, uo option \<times> ApiWarning list \<times> api_err option) keff" where
  "GetSingleObject k ref =
     bindM (withClientFromPool k id (ReqGet (GroupVersionKind ref) (Name ref) (Namespace ref))) (\<lambda>r.
       ret (case rp_Err r of Some e \<Rightarrow> (None, rp_Warnings r, Some e) | None \<Rightarrow> (Some (rp_Obj r), rp_Warnings r, None)))"

section \<open>Deletion\<close>

record DeleteOptions =
  del_ForceDryRun :: bool
  del_NoWait :: bool
  del_IgnoreNotFoundError :: bool

fun waitForDeletedObject :: "K8sCluster \<Rightarrow> nat \<Rightarrow> ObjectRef \<Rightarrow> ('x, api_err option) keff" where
  "waitForDeletedObject k 0 ref = throw OutOfFuel"
| "waitForDeletedObject k (Suc n) ref =
     bindM (GetSingleObject k ref) (\<lambda>(_, _, err).
     case err of
       Some e \<Rightarrow> ret (if IsNotFound e then None else Some e)
     | None \<Rightarrow> bindM (ask reqlog) (\<lambda>h.
         case k_ctxDone k h of
           None \<Rightarrow> waitForDeletedObject k n ref
         | Some c \<Rightarrow> ret (Some (ctxErr (''failed waiting for deletion of '' @ ObjectRef_String ref) c))))"

definition DeleteSingleObject :: "K8sCluster \<Rightarrow> ObjectRef \<Rightarrow> DeleteOptions \<Rightarrow>
    ('x, ApiWarning list \<times> api_err option) keff" where
  "DeleteSingleObject k ref options =
     (let dryRun = k_DryRun k \<or> del_ForceDryRun options in
      bindM (withClientFromPool k id (ReqDelete ref dryRun)) (\<lambda>r.
      case rp_Err r of
        Some e \<Rightarrow> ret (rp_Warnings r, if del_IgnoreNotFoundError options \<and> IsNotFound e then None else Some e)
      | None \<Rightarrow>
          if \<not> dryRun \<and> \<not> del_NoWait options then
            bindM (waitForDeletedObject k (k_polls k) ref) (\<lambda>err. ret (rp_Warnings r, err))
          else ret (rp_Warnings r, None)))"

section \<open>Patch and update\<close>

record PatchOptions =
  patch_ForceDryRun :: bool
  patch_ForceApply :: bool

definition doPatch :: "K8sCluster \<Rightarrow> ObjectRef \<Rightarrow> uo \<Rightarrow> PatchOptions \<Rightarrow> ('x, reply) keff" where
  "doPatch k ref obj options =
     withClientFromPool k (wrapErr (''failed to patch '' @ ObjectRef_String ref))
       (ReqPatch obj (patch_ForceApply options) (k_DryRun k \<or> patch_ForceDryRun options))"

definition k8s_ApplyObject :: "K8sCluster \<Rightarrow> uo \<Rightarrow> PatchOptions \<Rightarrow>
    ('x, uo option \<times> ApiWarning list \<times> api_err option) keff" where
  "k8s_ApplyObject k ob options =
     bindM (lift (GetK8sRef (k_lib k) ob)) (\<lambda>ref.
     bindM (doPatch k ref (Clone ob) options) (\<lambda>r.
     ret (case rp_Err r of Some e \<Rightarrow> (None, rp_Warnings r, Some e) | None \<Rightarrow> (Some (rp_Obj r), rp_Warnings r, None))))"

record UpdateOptions =
  upd_ForceDryRun :: bool

definition k8s_UpdateObject :: "K8sCluster \<Rightarrow> uo \<Rightarrow> UpdateOptions \<Rightarrow>
    ('x, uo option \<times> ApiWarning list \<times> api_err option) keff" where
  "k8s_UpdateObject k ob options =
     bindM (lift (GetK8sRef (k_lib k) ob)) (\<lambda>ref.
     bindM (withClientFromPool k id (ReqUpdate (Clone ob) (k_DryRun k \<or> upd_ForceDryRun options))) (\<lambda>r.
     ret (case rp_Err r of Some e \<Rightarrow> (None, rp_Warnings r, Some e) | None \<Rightarrow> (Some (rp_Obj r), rp_Warnings r, None))))"

definition ReadWrite :: "K8sCluster \<Rightarrow> K8sCluster" where
  "ReadWrite k = k\<lparr>k_DryRun := False\<rparr>"

definition ResetMapper :: "K8sCluster \<Rightarrow> ('x, unit) keff" where
  "ResetMapper k = modify (\<lambda>s. s\<lparr>reqlog := reqlog s @ [ReqResetMapper]\<rparr>)"

section \<open>Objects before they are patched\<close>

text \<open>
  The server version is a parameter: whether it parses as a semantic version and whether it is below
  1.100. The fix of the defaults is always on (\<^verbatim>\<open>|| true\<close>). The objects found through a JSON path share
  memory with the patched object, so a change of them is a change at their location.
\<close>

definition fixPorts :: "K8sCluster \<Rightarrow> string \<Rightarrow> uo \<Rightarrow> uo res" where
  "fixPorts k p ob =
     bindE (NewMyJsonPathMust (k_jp k) p) (\<lambda>j.
     case GetFirstListOfObjects (k_jp k) j ob of
       Inr (Some (ks, ports)) \<Rightarrow>
         Inr (foldl (\<lambda>ob' (i, port). case GetNestedField [KStr ''protocol''] port of
                Inr (Some _) \<Rightarrow> ob'
              | _ \<Rightarrow> fst (SetNestedField (VStr ''TCP'') (ks @ [KInt (int i), KStr ''protocol'']) ob'))
            ob (List.enumerate 0 ports))
     | _ \<Rightarrow> Inr ob)"

definition fixStringType :: "K8sCluster \<Rightarrow> string \<Rightarrow> string \<Rightarrow> uo \<Rightarrow> uo res" where
  "fixStringType k p key ob =
     (if \<not> k_versionBelow1_100 k then Inr ob
      else bindE (NewMyJsonPathMust (k_jp k) p) (\<lambda>j.
        case GetFirstObject (k_jp k) j ob of
          Inr (Some (ks, d)) \<Rightarrow>
            (case GetNestedField [KStr key] d of
               Inr (Some (VStr _)) \<Rightarrow> Inr ob
             | Inr (Some v) \<Rightarrow> Inr (fst (SetNestedField (VStr (fmt_v (k_fmtOther k) v)) (ks @ [KStr key]) ob))
             | _ \<Rightarrow> Inr ob)
        | _ \<Rightarrow> Inr ob))"

definition fixContainer :: "K8sCluster \<Rightarrow> string \<Rightarrow> uo \<Rightarrow> uo res" where
  "fixContainer k p ob =
     bindE (fixPorts k (p @ ''.ports'') ob) (\<lambda>ob.
     bindE (fixStringType k (p @ ''.resources.limits'') ''cpu'' ob) (\<lambda>ob.
     fixStringType k (p @ ''.resources.requests'') ''cpu'' ob))"

definition forItems :: "K8sCluster \<Rightarrow> (string \<Rightarrow> uo \<Rightarrow> uo res) \<Rightarrow> string \<Rightarrow> uo \<Rightarrow> uo res" where
  "forItems k f p ob =
     bindE (NewMyJsonPathMust (k_jp k) p) (\<lambda>j.
     case GetFirstListOfObjects (k_jp k) j ob of
       Inr (Some (_, l)) \<Rightarrow> foldE (\<lambda>i. f (p @ ''['' @ show_int (int i) @ '']'')) [0..<length l] ob
     | _ \<Rightarrow> Inr ob)"

definition fixContainers :: "K8sCluster \<Rightarrow> string \<Rightarrow> uo \<Rightarrow> uo res" where
  "fixContainers k p ob = forItems k (fixContainer k) p ob"

definition fixLimits :: "K8sCluster \<Rightarrow> string \<Rightarrow> uo \<Rightarrow> uo res" where
  "fixLimits k p ob =
     forItems k (\<lambda>q ob. bindE (fixStringType k (q @ ''.default'') ''cpu'' ob)
                             (fixStringType k (q @ ''.defaultRequest'') ''cpu'')) p ob"

definition FixObjectForPatch :: "K8sCluster \<Rightarrow> uo \<Rightarrow> uo res" where
  "FixObjectForPatch k ob =
     (if \<not> k_versionParses k then Inr ob
      else bindE (fixContainers k ''spec.template.spec.containers'' (Clone ob)) (\<lambda>ob.
           bindE (fixPorts k ''spec.ports'' ob) (\<lambda>ob.
           fixLimits k ''spec.limits'' ob)))"

section \<open>Namespaces\<close>

definition IsNamespaced :: "K8sCluster \<Rightarrow> gvk \<Rightarrow> ('x, bool option) keff" where
  "IsNamespaced k g = ask (\<lambda>s. if k_poolDone k (reqlog s) \<noteq> None then None else k_namespaced k (reqlog s) g)"

definition FixNamespace :: "K8sCluster \<Rightarrow> uo \<Rightarrow> string \<Rightarrow> ('x, uo) keff" where
  "FixNamespace k ob def =
     bindM (lift (GetK8sRef (k_lib k) ob)) (\<lambda>ref.
     bindM (IsNamespaced k (GroupVersionKind ref)) (\<lambda>namespaced.
     case namespaced of
       None \<Rightarrow> ret ob
     | Some n \<Rightarrow>
         if \<not> n \<and> Namespace ref \<noteq> [] then lift (SetK8sNamespace [] ob)
         else if n \<and> Namespace ref = [] then lift (SetK8sNamespace def ob)
         else ret ob))"

definition FixNamespaceInRef :: "K8sCluster \<Rightarrow> ObjectRef \<Rightarrow> ('x, ObjectRef) keff" where
  "FixNamespaceInRef k ref =
     bindM (IsNamespaced k (GroupVersionKind ref)) (\<lambda>namespaced.
     ret (case namespaced of
            None \<Rightarrow> ref
          | Some n \<Rightarrow>
              if \<not> n \<and> Namespace ref \<noteq> [] then ref\<lparr>Namespace := []\<rparr>
              else if n \<and> Namespace ref = [] then ref\<lparr>Namespace := ''default''\<rparr>
              else ref))"

section \<open>Schemas and discovery\<close>

definition liftErr :: "'a res \<Rightarrow> ('s, api_err + 'a) eff" where
  "liftErr r = (case r of Inl (Error m) \<Rightarrow> ret (Inl (Errorf m)) | Inl e \<Rightarrow> throw e | Inr x \<Rightarrow> ret (Inr x))"

fun schemaOfVersion :: "string \<Rightarrow> uo list \<Rightarrow> string \<Rightarrow> ('s, api_err + uo option) eff" where
  "schemaOfVersion ver [] g = ret (Inl (Errorf (''schema for '' @ g @ '' not found'')))"
| "schemaOfVersion ver (v # vs) g =
     (let name = (case GetNestedString [KStr ''name''] v of Inr n \<Rightarrow> orEmpty n | Inl _ \<Rightarrow> []) in
      if name \<noteq> ver then schemaOfVersion ver vs g
      else bindM (liftErr (GetNestedObject [KStr ''schema'', KStr ''openAPIV3Schema''] v)) (\<lambda>r.
        ret (case r of
               Inl e \<Rightarrow> Inl e
             | Inr None \<Rightarrow> Inl (Errorf (''version '' @ name @ '' has no schema''))
             | Inr (Some sc) \<Rightarrow> Inr sc)))"

definition gvk_String :: "gvk \<Rightarrow> string" where
  "gvk_String g = fst g @ ''/'' @ fst (snd g) @ '', Kind='' @ snd (snd g)"

definition GetSchemaForGVK :: "K8sCluster \<Rightarrow> gvk \<Rightarrow> ('x, api_err + uo option) keff" where
  "GetSchemaForGVK k g =
     bindM (ask reqlog) (\<lambda>h.
     case k_mappings k h g of
       Inl e \<Rightarrow> ret (Inl e)
     | Inr rms \<Rightarrow>
         (case find (\<lambda>(g', _). g' = g) rms of
            None \<Rightarrow> ret (Inl (Errorf ''rest mapping not found''))
          | Some (_, resource) \<Rightarrow>
              bindM (GetSingleObject k (NewObjectRef ''apiextensions.k8s.io'' ''v1'' ''CustomResourceDefinition''
                       (resource @ ''.'' @ fst g) [])) (\<lambda>(crd, _, err).
              case err of
                Some e \<Rightarrow> ret (Inl e)
              | None \<Rightarrow>
                  bindM (liftErr (GetNestedObjectList [KStr ''spec'', KStr ''versions''] (case crd of Some c \<Rightarrow> c | None \<Rightarrow> []))) (\<lambda>r.
                  case r of
                    Inl e \<Rightarrow> ret (Inl e)
                  | Inr None \<Rightarrow> ret (Inl (Errorf ''versions not found in CRD''))
                  | Inr (Some versions) \<Rightarrow> schemaOfVersion (fst (snd g)) versions (gvk_String g)))))"

definition deprecatedResources :: "(string \<times> string) list" where
  "deprecatedResources = [(''extensions'', ''Ingress''), ([], ''ComponentStatus'')]"

definition doGetFilteredGVKs :: "string \<Rightarrow> string \<Rightarrow> APIResource list \<Rightarrow> (APIResource \<Rightarrow> bool) \<Rightarrow> gvk list" where
  "doGetFilteredGVKs g v vrs flt =
     map (\<lambda>vr. (g, v, ar_Kind vr))
       (filter (\<lambda>vr. IndexChar (ar_Name vr) CHR ''/'' = - 1 \<and> (g, ar_Kind vr) \<notin> set deprecatedResources \<and> flt vr) vrs)"

definition GetFilteredGVKs :: "K8sCluster \<Rightarrow> (APIResource \<Rightarrow> bool) \<Rightarrow> ('x, api_err + gvk list) keff" where
  "GetFilteredGVKs k flt =
     ask (\<lambda>s. case k_discovery k (reqlog s) of
                Inl e \<Rightarrow> Inl e
              | Inr agrs \<Rightarrow> Inr (concat (map (\<lambda>agr.
                  concat (map (\<lambda>(v, vrs). doGetFilteredGVKs (agr_Name agr) v vrs flt) (agr_VersionedResources agr))) agrs)))"

definition GetFilteredPreferredGVKs :: "K8sCluster \<Rightarrow> (APIResource \<Rightarrow> bool) \<Rightarrow> ('x, api_err + gvk list) keff" where
  "GetFilteredPreferredGVKs k flt =
     ask (\<lambda>s. case k_discovery k (reqlog s) of
                Inl e \<Rightarrow> Inl e
              | Inr agrs \<Rightarrow> Inr (concat (map (\<lambda>agr.
                  case map_of (agr_VersionedResources agr) (agr_PreferredVersion agr) of
                    None \<Rightarrow> []
                  | Some vrs \<Rightarrow> doGetFilteredGVKs (agr_Name agr) (agr_PreferredVersion agr) vrs flt) agrs)))"

definition optMatches :: "string option \<Rightarrow> string \<Rightarrow> bool" where
  "optMatches want have' = (case want of None \<Rightarrow> True | Some w \<Rightarrow> w = have')"

definition BuildGVKFilter :: "string option \<Rightarrow> string option \<Rightarrow> string option \<Rightarrow> APIResource \<Rightarrow> bool" where
  "BuildGVKFilter grp version kind ar \<longleftrightarrow>
     optMatches grp (ar_Group ar) \<and> optMatches version (ar_Version ar) \<and> optMatches kind (ar_Kind ar)"

text \<open>The objects for which \<^verbatim>\<open>UnwrapListItems\<close> calls its callback, in order.\<close>

definition UnwrapListItems :: "k8s_lib \<Rightarrow> uo \<Rightarrow> bool \<Rightarrow> uo list res" where
  "UnwrapListItems L ob withListCallback =
     bindE (GetK8sGVK L ob) (\<lambda>g.
     if g = ([], ''v1'', ''List'') then
       bindE (GetNestedObjectList [KStr ''items''] ob) (\<lambda>items.
       Inr ((if withListCallback then [ob] else []) @ (case items of None \<Rightarrow> [] | Some l \<Rightarrow> l)))
     else Inr [ob])"

section \<open>Laws\<close>

text \<open>
  \<open>logs P\<close> relates two states when the second has a longer request log and every request in
  between satisfies \<open>P\<close>.
\<close>

definition logs :: "(request \<Rightarrow> bool) \<Rightarrow> 'x kstate_scheme \<Rightarrow> 'x kstate_scheme \<Rightarrow> bool" where
  "logs P s s' \<longleftrightarrow> (\<exists>new. reqlog s' = reqlog s @ new \<and> list_all P new)"

interpretation logs: step_rel "logs P" for P
proof
  show "logs P s s" for s by (simp add: logs_def)
  show "logs P s s' \<Longrightarrow> logs P s' s'' \<Longrightarrow> logs P s s''" for s s' s''
    by (auto simp: logs_def)
qed

lemma logs_mono: "logs P s s' \<Longrightarrow> (\<And>r. P r \<Longrightarrow> Q r) \<Longrightarrow> logs Q s s'"
  by (auto simp: logs_def elim!: list.pred_mono_strong)

lemma logs_same: "reqlog s' = reqlog s \<Longrightarrow> logs P s s'"
  by (simp add: logs_def)

named_theorems logs_intros

lemma logs_withClientFromPool [logs_intros]: "P req \<Longrightarrow> always (logs P) (withClientFromPool k w req)"
  unfolding withClientFromPool_def Let_def
  by (intro logs.always_intros) (simp_all add: logs_def)

text \<open>Reading never asks for more than a read request.\<close>

definition read_only :: "request \<Rightarrow> bool" where
  "read_only r = (case r of ReqGet _ _ _ \<Rightarrow> True | ReqList _ _ _ \<Rightarrow> True | _ \<Rightarrow> False)"

lemma logs_doList [logs_intros]: "P (ReqList g ns l) \<Longrightarrow> always (logs P) (ListObjects k g ns l)"
  unfolding ListObjects_def doList_def by (intro logs.always_intros logs_intros)

lemma logs_GetSingleObject [logs_intros]:
  "(\<And>r. read_only r \<Longrightarrow> P r) \<Longrightarrow> always (logs P) (GetSingleObject k ref)"
  unfolding GetSingleObject_def by (intro logs.always_intros logs_intros) (simp add: read_only_def)

lemma logs_waitForDeletedObject [logs_intros]:
  "(\<And>r. read_only r \<Longrightarrow> P r) \<Longrightarrow> always (logs P) (waitForDeletedObject k n ref)"
proof (induction n)
  case (Suc n)
  then show ?case
    unfolding waitForDeletedObject.simps
    by (intro logs.always_intros logs_intros) simp_all
qed (simp add: logs.always_pure)

lemma logs_DeleteSingleObject [logs_intros]:
  "(\<And>r. read_only r \<Longrightarrow> P r) \<Longrightarrow> P (ReqDelete ref (k_DryRun k \<or> del_ForceDryRun opt)) \<Longrightarrow>
     always (logs P) (DeleteSingleObject k ref opt)"
  unfolding DeleteSingleObject_def Let_def
  by (intro logs.always_intros logs_intros) simp_all

lemma logs_k8s_ApplyObject [logs_intros]:
  "P (ReqPatch x (patch_ForceApply opt) (k_DryRun k \<or> patch_ForceDryRun opt)) \<Longrightarrow> always (logs P) (k8s_ApplyObject k x opt)"
  unfolding k8s_ApplyObject_def doPatch_def Clone_def
  by (intro logs.always_intros logs_intros) simp_all

lemma logs_k8s_UpdateObject [logs_intros]:
  "P (ReqUpdate x (k_DryRun k \<or> upd_ForceDryRun opt)) \<Longrightarrow> always (logs P) (k8s_UpdateObject k x opt)"
  unfolding k8s_UpdateObject_def Clone_def
  by (intro logs.always_intros logs_intros) simp_all

lemma logs_FixNamespaceInRef [logs_intros]: "always (logs P) (FixNamespaceInRef k ref)"
  unfolding FixNamespaceInRef_def IsNamespaced_def by (intro logs.always_intros)

lemma logs_schemaOfVersion: "always (logs P) (schemaOfVersion v vs g)"
  by (induction v vs g rule: schemaOfVersion.induct)
    (auto simp: Let_def liftErr_def intro!: logs.always_intros split: go_error.splits)

lemma logs_GetSchemaForGVK [logs_intros]:
  "(\<And>r. read_only r \<Longrightarrow> P r) \<Longrightarrow> always (logs P) (GetSchemaForGVK k g)"
  unfolding GetSchemaForGVK_def liftErr_def
  by (intro logs.always_intros logs_intros logs_schemaOfVersion) (simp_all split: go_error.splits add: logs.always_pure)

lemma logs_discovery [logs_intros]:
  "always (logs P) (GetFilteredGVKs k f)" "always (logs P) (GetFilteredPreferredGVKs k f)"
  unfolding GetFilteredGVKs_def GetFilteredPreferredGVKs_def by (intro logs.always_intros)+

section \<open>A sample cluster\<close>

text \<open>A cluster that answers every request in the same way; the context is never done.\<close>

definition plain_reply :: reply where
  "plain_reply = \<lparr>rp_Warnings = [], rp_Err = None, rp_Obj = [], rp_Items = []\<rparr>"

definition no_jp :: jp_lib where
  "no_jp = \<lparr>jp_ParseErr = (\<lambda>_. None), jp_Locate = (\<lambda>_ _. []), jp_Del = (\<lambda>_ ob. (ob, None)), jp_Set = (\<lambda>_ _ ob. (ob, None))\<rparr>"

definition sample_cluster :: "bool \<Rightarrow> (request \<Rightarrow> reply) \<Rightarrow> K8sCluster" where
  "sample_cluster dry answer = \<lparr>
     k_lib = sample_lib, k_DryRun = dry, k_client = (\<lambda>_ r. answer r),
     k_poolDone = (\<lambda>_. None), k_ctxDone = (\<lambda>_. None), k_semDone = (\<lambda>_ _. False), k_discovery = (\<lambda>_. Inr []),
     k_namespaced = (\<lambda>_ _. Some True), k_mappings = (\<lambda>_ _. Inr []), k_now = (\<lambda>_. 0), k_polls = 3,
     k_versionParses = False, k_versionBelow1_100 = True, k_jp = no_jp, k_fmtOther = (\<lambda>_. [])\<rparr>"

end
