(* ===== verification/Errors_Holder.thy ===== *)
theory Errors_Holder
  imports K8s_Cluster
begin

text \<open>
  The collector of errors and warnings of a command (\<^verbatim>\<open>errors_holder.go\<close>). Every method runs under the
  mutex of the collector, so each is one step.
\<close>

record DeploymentError =
  de_Ref :: ObjectRef
  de_Message :: string

record DeploymentErrorsAndWarnings =
  dew_errors :: "(ObjectRef, (DeploymentError, bool) gomap) gomap"
  dew_warnings :: "(ObjectRef, (DeploymentError, bool) gomap) gomap"

definition dew_Init :: DeploymentErrorsAndWarnings where
  "dew_Init = \<lparr>dew_errors = [], dew_warnings = []\<rparr>"

definition addTo :: "ObjectRef \<Rightarrow> string \<Rightarrow> (ObjectRef, (DeploymentError, bool) gomap) gomap \<Rightarrow>
    (ObjectRef, (DeploymentError, bool) gomap) gomap" where
  "addTo ref m ms =
     (let inner = (case map_of ms ref of None \<Rightarrow> [] | Some x \<Rightarrow> x)
      in AList.update ref (AList.update \<lparr>de_Ref = ref, de_Message = m\<rparr> True inner) ms)"

definition dew_AddWarning :: "ObjectRef \<Rightarrow> string \<Rightarrow> DeploymentErrorsAndWarnings \<Rightarrow> DeploymentErrorsAndWarnings" where
  "dew_AddWarning ref w d = d\<lparr>dew_warnings := addTo ref w (dew_warnings d)\<rparr>"

definition dew_AddError :: "ObjectRef \<Rightarrow> string \<Rightarrow> DeploymentErrorsAndWarnings \<Rightarrow> DeploymentErrorsAndWarnings" where
  "dew_AddError ref e d = d\<lparr>dew_errors := addTo ref e (dew_errors d)\<rparr>"

text \<open>The text of a warning is used as a format string.\<close>

definition dew_AddApiWarnings :: "ObjectRef \<Rightarrow> ApiWarning list \<Rightarrow> DeploymentErrorsAndWarnings \<Rightarrow> DeploymentErrorsAndWarnings" where
  "dew_AddApiWarnings ref ws d = foldl (\<lambda>d w. dew_AddWarning ref (SprintfNoArgs (warn_Text w)) d) d ws"

definition dew_HadError :: "DeploymentErrorsAndWarnings \<Rightarrow> ObjectRef \<Rightarrow> bool" where
  "dew_HadError d ref = (map_of (dew_errors d) ref \<noteq> None)"

definition flatten :: "(ObjectRef, (DeploymentError, bool) gomap) gomap \<Rightarrow> DeploymentError list" where
  "flatten ms = concat (map (\<lambda>(_, m). map fst m) ms)"

definition GetErrorsList :: "DeploymentErrorsAndWarnings \<Rightarrow> DeploymentError list" where
  "GetErrorsList d = flatten (dew_errors d)"

definition GetWarningsList :: "DeploymentErrorsAndWarnings \<Rightarrow> DeploymentError list" where
  "GetWarningsList d = flatten (dew_warnings d)"

definition getPlainErrorsList :: "DeploymentErrorsAndWarnings \<Rightarrow> string list" where
  "getPlainErrorsList d = map de_Message (GetErrorsList d)"

text \<open>\<^verbatim>\<open>GetMultiError\<close>: no error exactly when the list is empty.\<close>

definition GetMultiError :: "DeploymentErrorsAndWarnings \<Rightarrow> string list option" where
  "GetMultiError d = (let l = getPlainErrorsList d in if l = [] then None else Some l)"

section \<open>Laws\<close>

declare map_of_eq_Some_iff [simp del] Some_eq_map_of_iff [simp del]

definition keys :: "('k, 'v) gomap \<Rightarrow> 'k set" where
  "keys m = fst ` set m"

lemma keys_update [simp]: "keys (AList.update k v m) = insert k (keys m)" "keys [] = {}"
  by (simp_all add: keys_def dom_update)

definition entry_ok :: "ObjectRef \<Rightarrow> (DeploymentError, bool) gomap \<Rightarrow> bool" where
  "entry_ok ref m \<longleftrightarrow> m \<noteq> [] \<and> wf_map m \<and> (\<forall>e \<in> keys m. de_Ref e = ref)"

definition col_inv :: "(ObjectRef, (DeploymentError, bool) gomap) gomap \<Rightarrow> bool" where
  "col_inv ms \<longleftrightarrow> wf_map ms \<and> (\<forall>ref m. map_of ms ref = Some m \<longrightarrow> entry_ok ref m)"

text \<open>
  What the users of a collector rely on: adding records exactly one more entry, and a reference is marked
  exactly when it has an entry.
\<close>

locale collector =
  fixes add :: "ObjectRef \<Rightarrow> string \<Rightarrow> 'd \<Rightarrow> 'd"
    and listing :: "'d \<Rightarrow> DeploymentError list"
    and marked :: "'d \<Rightarrow> ObjectRef \<Rightarrow> bool"
    and inv :: "'d \<Rightarrow> bool"
  assumes inv_add: "inv d \<Longrightarrow> inv (add ref m d)"
    and listing_add: "inv d \<Longrightarrow> set (listing (add ref m d)) = insert \<lparr>de_Ref = ref, de_Message = m\<rparr> (set (listing d))"
    and listing_distinct: "inv d \<Longrightarrow> distinct (listing d)"
    and marked_iff: "inv d \<Longrightarrow> marked d ref \<longleftrightarrow> ref \<in> de_Ref ` set (listing d)"
begin

definition add_all :: "(ObjectRef \<times> string) list \<Rightarrow> 'd \<Rightarrow> 'd" where
  "add_all es d = foldl (\<lambda>d (ref, m). add ref m d) d es"

lemma add_all_simps [simp]: "add_all [] d = d" "add_all ((ref, m) # es) d = add_all es (add ref m d)"
  by (simp_all add: add_all_def)

lemma inv_add_all: "inv d \<Longrightarrow> inv (add_all es d)"
  by (induction es arbitrary: d) (auto simp: inv_add)

lemma listing_add_all:
  "inv d \<Longrightarrow> set (listing (add_all es d)) = set (listing d) \<union> (\<lambda>(ref, m). \<lparr>de_Ref = ref, de_Message = m\<rparr>) ` set es"
  by (induction es arbitrary: d) (auto simp: inv_add listing_add)

lemma marked_add: "inv d \<Longrightarrow> marked (add ref m d) ref' \<longleftrightarrow> ref' = ref \<or> marked d ref'"
  by (simp add: marked_iff inv_add listing_add)

end

lemma entry_ok_update:
  assumes "m = [] \<or> entry_ok ref m" "de_Ref e = ref"
  shows "entry_ok ref (AList.update e True m)"
proof -
  show ?thesis using assms unfolding entry_ok_def
    by (cases "m = []") (simp add: keys_def, simp add: update_nonempty)
qed

lemma col_inv_addTo:
  assumes "col_inv ms"
  shows "col_inv (addTo ref m ms)"
proof -
  have "(case map_of ms ref of None \<Rightarrow> [] | Some x \<Rightarrow> x) = [] \<or> entry_ok ref (case map_of ms ref of None \<Rightarrow> [] | Some x \<Rightarrow> x)"
    using assms by (simp add: col_inv_def split: option.split)
  then show ?thesis using assms by (simp add: col_inv_def addTo_def Let_def entry_ok_update)
qed

lemma set_flatten:
  assumes "wf_map ms"
  shows "e \<in> set (flatten ms) \<longleftrightarrow> (\<exists>ref m. map_of ms ref = Some m \<and> e \<in> keys m)"
proof -
  have "e \<in> set (flatten ms) \<longleftrightarrow> (\<exists>ref m. (ref, m) \<in> set ms \<and> e \<in> keys m)"
    by (force simp: flatten_def keys_def)
  then show ?thesis using assms by (simp add: map_of_eq_Some_iff)
qed

lemma set_flatten_addTo:
  assumes "col_inv ms"
  shows "set (flatten (addTo ref m ms)) = insert \<lparr>de_Ref = ref, de_Message = m\<rparr> (set (flatten ms))"
proof (rule set_eqI)
  fix e
  let ?inner = "case map_of ms ref of None \<Rightarrow> [] | Some x \<Rightarrow> x"
  let ?e = "\<lparr>de_Ref = ref, de_Message = m\<rparr>"
  have wf: "wf_map ms" "wf_map (addTo ref m ms)"
    using assms col_inv_addTo by (auto simp: col_inv_def)
  have "e \<in> set (flatten (addTo ref m ms)) \<longleftrightarrow>
      e \<in> insert ?e (keys ?inner) \<or> (\<exists>r x. r \<noteq> ref \<and> map_of ms r = Some x \<and> e \<in> keys x)"
    unfolding set_flatten [OF wf(2)] by (auto simp: addTo_def Let_def)
  also have "\<dots> \<longleftrightarrow> e = ?e \<or> (\<exists>r x. map_of ms r = Some x \<and> e \<in> keys x)"
    by (cases "map_of ms ref") (simp_all, metis option.distinct(1), metis option.inject)
  finally show "e \<in> set (flatten (addTo ref m ms)) \<longleftrightarrow> e \<in> insert ?e (set (flatten ms))"
    using set_flatten [OF wf(1)] by simp
qed

lemma distinct_flatten: "col_inv ms \<Longrightarrow> distinct (flatten ms)"
proof (induction ms)
  case (Cons p ms)
  obtain ref m where p: "p = (ref, m)" by fastforce
  have wf: "wf_map ms" "map_of ms ref = None"
    using Cons.prems p by (simp_all add: col_inv_def map_of_eq_None_iff)
  have m: "entry_ok ref m" using Cons.prems p by (simp add: col_inv_def)
  have rest: "map_of ms r = Some x \<Longrightarrow> entry_ok r x \<and> r \<noteq> ref" for r x
    using Cons.prems p wf(2) by (cases "r = ref") (simp_all add: col_inv_def)
  then have inv: "col_inv ms" using wf(1) by (simp add: col_inv_def)
  have "keys m \<inter> set (flatten ms) = {}"
  proof (rule ccontr)
    assume "\<not> ?thesis"
    then obtain e where e: "e \<in> keys m" "e \<in> set (flatten ms)" by blast
    then obtain r x where "map_of ms r = Some x" "e \<in> keys x" using set_flatten [OF wf(1)] by blast
    then show False using rest m e(1) unfolding entry_ok_def by metis
  qed
  then show ?case using Cons.IH [OF inv] m p by (auto simp: flatten_def entry_ok_def keys_def)
qed (simp add: flatten_def)

lemma marked_flatten:
  assumes "col_inv ms"
  shows "map_of ms ref \<noteq> None \<longleftrightarrow> ref \<in> de_Ref ` set (flatten ms)"
proof -
  have wf: "wf_map ms" using assms by (simp add: col_inv_def)
  have ok: "map_of ms r = Some m \<Longrightarrow> m \<noteq> [] \<and> (\<forall>e \<in> keys m. de_Ref e = r)" for r m
    using assms by (simp add: col_inv_def entry_ok_def)
  show ?thesis
  proof
    assume "map_of ms ref \<noteq> None"
    then obtain m where m: "map_of ms ref = Some m" by auto
    then have e: "fst (hd m) \<in> keys m" using ok by (simp add: keys_def)
    then have "de_Ref (fst (hd m)) = ref" "fst (hd m) \<in> set (flatten ms)"
      using ok m set_flatten [OF wf] by blast+
    then show "ref \<in> de_Ref ` set (flatten ms)" by (metis image_eqI)
  next
    assume "ref \<in> de_Ref ` set (flatten ms)"
    then obtain e r m where "de_Ref e = ref" "map_of ms r = Some m" "e \<in> keys m"
      using set_flatten [OF wf] by blast
    then show "map_of ms ref \<noteq> None" using ok [of r m] by fastforce
  qed
qed

definition dew_inv :: "DeploymentErrorsAndWarnings \<Rightarrow> bool" where
  "dew_inv d \<longleftrightarrow> col_inv (dew_errors d) \<and> col_inv (dew_warnings d)"

lemma dew_inv_Init: "dew_inv dew_Init"
  by (simp add: dew_inv_def dew_Init_def col_inv_def)

interpretation errs: collector dew_AddError GetErrorsList dew_HadError dew_inv
  by unfold_locales
    (simp_all add: dew_inv_def dew_AddError_def GetErrorsList_def dew_HadError_def col_inv_addTo set_flatten_addTo
      distinct_flatten flip: marked_flatten)

interpretation warns: collector dew_AddWarning GetWarningsList "\<lambda>d ref. map_of (dew_warnings d) ref \<noteq> None" dew_inv
  by unfold_locales
    (simp_all add: dew_inv_def dew_AddWarning_def GetWarningsList_def col_inv_addTo set_flatten_addTo
      distinct_flatten flip: marked_flatten)

lemma other_side [simp]:
  "GetErrorsList (dew_AddWarning ref w d) = GetErrorsList d"
  "GetWarningsList (dew_AddError ref e d) = GetWarningsList d"
  "dew_HadError (dew_AddWarning ref w d) r = dew_HadError d r"
  by (simp_all add: dew_AddWarning_def dew_AddError_def GetErrorsList_def GetWarningsList_def dew_HadError_def)

lemma dew_AddApiWarnings_eq:
  "dew_AddApiWarnings ref ws d = warns.add_all (map (\<lambda>w. (ref, SprintfNoArgs (warn_Text w))) ws) d"
  by (induction ws arbitrary: d) (auto simp: dew_AddApiWarnings_def)

lemma dew_AddApiWarnings_errors [simp]: "dew_errors (dew_AddApiWarnings ref ws d) = dew_errors d"
  by (induction ws arbitrary: d) (auto simp: dew_AddApiWarnings_def dew_AddWarning_def)

lemma dew_inv_ops [simp]:
  "dew_inv d \<Longrightarrow> dew_inv (dew_AddError ref e d)"
  "dew_inv d \<Longrightarrow> dew_inv (dew_AddWarning ref e d)"
  "dew_inv d \<Longrightarrow> dew_inv (dew_AddApiWarnings ref ws d)"
  by (simp_all add: errs.inv_add warns.inv_add warns.inv_add_all dew_AddApiWarnings_eq)

section \<open>Properties\<close>

datatype report = RError ObjectRef string | RWarning ObjectRef string | RApi ObjectRef "ApiWarning list"

fun do_report :: "DeploymentErrorsAndWarnings \<Rightarrow> report \<Rightarrow> DeploymentErrorsAndWarnings" where
  "do_report d (RError ref m) = dew_AddError ref m d"
| "do_report d (RWarning ref m) = dew_AddWarning ref m d"
| "do_report d (RApi ref ws) = dew_AddApiWarnings ref ws d"

lemma do_report_inv: "dew_inv d \<Longrightarrow> dew_inv (do_report d r)"
  by (cases r) simp_all

lemma GetErrorsList_do_report:
  "dew_inv d \<Longrightarrow> set (GetErrorsList (foldl do_report d rs)) =
     set (GetErrorsList d) \<union> {\<lparr>de_Ref = ref, de_Message = m\<rparr> | ref m. RError ref m \<in> set rs}"
proof (induction rs arbitrary: d)
  case (Cons r rs)
  then show ?case
    using Cons.IH [OF do_report_inv [OF Cons.prems, of r]]
    by (cases r) (auto simp: errs.listing_add GetErrorsList_def [of "dew_AddApiWarnings _ _ _"] GetErrorsList_def [symmetric])
qed simp

lemma foldl_do_report_inv: "dew_inv d \<Longrightarrow> dew_inv (foldl do_report d rs)"
  by (induction rs arbitrary: d) (simp_all add: do_report_inv)

text \<open>
  After any sequence of reports the list of errors holds exactly the reported errors, each once; an
  object is marked exactly when an error was reported for it; the command fails exactly when some error was
  reported, whatever warnings were.
\<close>

theorem error_report_spec:
  "set (GetErrorsList (foldl do_report dew_Init rs)) = {\<lparr>de_Ref = ref, de_Message = m\<rparr> | ref m. RError ref m \<in> set rs} \<and>
   distinct (GetErrorsList (foldl do_report dew_Init rs)) \<and>
   (dew_HadError (foldl do_report dew_Init rs) ref \<longleftrightarrow> (\<exists>m. RError ref m \<in> set rs)) \<and>
   (GetMultiError (foldl do_report dew_Init rs) = None \<longleftrightarrow> (\<nexists>ref m. RError ref m \<in> set rs))"
proof -
  let ?d = "foldl do_report dew_Init rs"
  have inv: "dew_inv ?d" by (rule foldl_do_report_inv [OF dew_inv_Init])
  have L: "set (GetErrorsList ?d) = {\<lparr>de_Ref = ref, de_Message = m\<rparr> | ref m. RError ref m \<in> set rs}"
    using GetErrorsList_do_report [OF dew_inv_Init, of rs] by (simp add: GetErrorsList_def dew_Init_def flatten_def)
  have H: "dew_HadError ?d ref \<longleftrightarrow> (\<exists>m. RError ref m \<in> set rs)"
    unfolding errs.marked_iff [OF inv] L by force
  have "GetMultiError ?d = None \<longleftrightarrow> set (GetErrorsList ?d) = {}"
    by (simp add: GetMultiError_def getPlainErrorsList_def Let_def)
  then have M: "GetMultiError ?d = None \<longleftrightarrow> (\<nexists>ref m. RError ref m \<in> set rs)" unfolding L by blast
  show ?thesis using L errs.listing_distinct [OF inv] H M by blast
qed

end
