(* ===== verification/Remote_Objects.thy ===== *)
theory Remote_Objects
  imports Errors_Holder
begin

text \<open>
  The snapshot of the cluster a command works with (\<^verbatim>\<open>remote_objects_utils.go\<close>). The requests run in
  parallel without limit; what each of them records is recorded under a lock, so a run is determined by the
  order in which they finish: the parameters \<open>sched\<close>.
\<close>

record RemoteObjectUtils =
  ru_remoteObjects :: "(ObjectRef, uo) gomap"
  ru_remoteNamespaces :: "(string, uo) gomap"

record rstate = kstate +
  rs_dew :: DeploymentErrorsAndWarnings
  rs_ru :: RemoteObjectUtils
  rs_errCount :: nat
  rs_permissionErrCount :: nat

type_synonym 'a reff = "(rstate, 'a) eff"

definition r_dew :: "(DeploymentErrorsAndWarnings \<Rightarrow> DeploymentErrorsAndWarnings) \<Rightarrow> unit reff" where
  "r_dew f = modify (\<lambda>s. s\<lparr>rs_dew := f (rs_dew s)\<rparr>)"

definition r_store :: "k8s_lib \<Rightarrow> uo \<Rightarrow> unit reff" where
  "r_store L ob =
     bindM (lift (GetK8sRef L ob)) (\<lambda>ref.
     modify (\<lambda>s. s\<lparr>rs_ru := (rs_ru s)\<lparr>ru_remoteObjects := AList.update ref ob (ru_remoteObjects (rs_ru s))\<rparr>\<rparr>))"

definition gvkRef :: "gvk \<Rightarrow> ObjectRef" where
  "gvkRef g = (case g of (gr, v, kd) \<Rightarrow> NewObjectRef gr v kd [] [])"

definition noRef :: ObjectRef where
  "noRef = NewObjectRef [] [] [] [] []"

definition permissionErr :: "api_err \<Rightarrow> bool" where
  "permissionErr e \<longleftrightarrow> IsForbidden e \<or> IsUnauthorized e"

definition listGVK :: "K8sCluster \<Rightarrow> (string, string) gomap \<Rightarrow> gvk \<Rightarrow> unit reff" where
  "listGVK k labels g =
     bindM (ListObjects k g [] labels) (\<lambda>(l, apiWarnings, err).
     seqM (r_dew (dew_AddApiWarnings (gvkRef g) apiWarnings))
     (case err of
        Some e \<Rightarrow>
          if IsNotFound e then ret ()
          else seqM (modify (\<lambda>s. s\<lparr>rs_errCount := rs_errCount s + 1\<rparr>))
               (if permissionErr e then modify (\<lambda>s. s\<lparr>rs_permissionErrCount := rs_permissionErrCount s + 1\<rparr>)
                else r_dew (dew_AddWarning (gvkRef g) (err_Msg e)))
      | None \<Rightarrow> forM (r_store (k_lib k)) l))"

definition resetCounts :: "unit reff" where
  "resetCounts = modify (\<lambda>s. s\<lparr>rs_errCount := 0, rs_permissionErrCount := 0\<rparr>)"

text \<open>The warning at the end needs an error that was counted and an error of permissions.\<close>

definition warnPermissions :: "string \<Rightarrow> unit reff" where
  "warnPermissions m =
     bindM (ask (\<lambda>s. rs_errCount s \<noteq> 0 \<and> rs_permissionErrCount s \<noteq> 0)) (\<lambda>b. whenM b (r_dew (dew_AddWarning noRef m)))"

definition getAllByDiscriminator :: "(gvk list \<Rightarrow> gvk list) \<Rightarrow> K8sCluster \<Rightarrow> string option \<Rightarrow>
    (string \<times> string) list option \<Rightarrow> api_err option reff" where
  "getAllByDiscriminator sched k discriminator onlyUsedGKs =
     (case discriminator of
        None \<Rightarrow> ret None
      | Some d \<Rightarrow>
          if d = [] then ret None
          else seqM resetCounts
            (bindM (GetFilteredPreferredGVKs k (\<lambda>ar.
               (case onlyUsedGKs of None \<Rightarrow> True | Some gks \<Rightarrow> (ar_Group ar, ar_Kind ar) \<in> set gks) \<and>
               FindStrInSlice (ar_Verbs ar) ''list'' \<noteq> - 1)) (\<lambda>r.
             case r of
               Inl e \<Rightarrow> ret (Some e)
             | Inr gvks \<Rightarrow>
                 seqM (forM (listGVK k [(''kluctl.io/discriminator'', d)]) (sched gvks))
                 (seqM (warnPermissions ''at least one permission error was encountered while gathering objects by discriminator labels. This might result in orphan object detection to not work properly'')
                  (ret None)))))"

definition getMissing :: "K8sCluster \<Rightarrow> ObjectRef \<Rightarrow> unit reff" where
  "getMissing k ref =
     bindM (GetSingleObject k ref) (\<lambda>(r, apiWarnings, err).
     seqM (r_dew (dew_AddApiWarnings ref apiWarnings))
     (case err of
        Some e \<Rightarrow>
          if IsNotFound e \<or> IsNoMatchError e then ret ()
          else if permissionErr e then modify (\<lambda>s. s\<lparr>rs_permissionErrCount := rs_permissionErrCount s + 1\<rparr>)
          else seqM (r_dew (dew_AddError ref (err_Msg e))) (modify (\<lambda>s. s\<lparr>rs_errCount := rs_errCount s + 1\<rparr>))
      | None \<Rightarrow> (case r of None \<Rightarrow> ret () | Some ob \<Rightarrow> r_store (k_lib k) ob)))"

definition missingText :: string where
  "missingText = ''at least one permission error was encountered while gathering known objects. This might result in orphan object detection and diffs to not work properly''"

definition getMissingObjects :: "(ObjectRef list \<Rightarrow> ObjectRef list) \<Rightarrow> K8sCluster \<Rightarrow> ObjectRef list \<Rightarrow> unit reff" where
  "getMissingObjects sched k refs =
     bindM (ask (\<lambda>s. remdups (filter (\<lambda>ref. map_of (ru_remoteObjects (rs_ru s)) ref = None) refs))) (\<lambda>missing.
     if missing = [] then ret ()
     else seqM resetCounts
       (seqM (forM (getMissing k) (sched missing))
        (warnPermissions missingText)))"

definition storeNamespaces :: "uo list \<Rightarrow> unit reff" where
  "storeNamespaces l =
     forM (\<lambda>ob. bindM (lift (GetK8sName ob)) (\<lambda>n.
        modify (\<lambda>s. s\<lparr>rs_ru := (rs_ru s)\<lparr>ru_remoteNamespaces := AList.update n ob (ru_remoteNamespaces (rs_ru s))\<rparr>\<rparr>))) l"

definition UpdateRemoteObjects :: "(gvk list \<Rightarrow> gvk list) \<Rightarrow> (ObjectRef list \<Rightarrow> ObjectRef list) \<Rightarrow> K8sCluster option \<Rightarrow>
    string option \<Rightarrow> ObjectRef list \<Rightarrow> bool \<Rightarrow> api_err option reff" where
  "UpdateRemoteObjects sched1 sched2 k discriminator refs onlyUsedGKs =
     (case k of
        None \<Rightarrow> ret None
      | Some k \<Rightarrow>
          bindM (getAllByDiscriminator sched1 k discriminator (if onlyUsedGKs then Some (map GroupKind refs) else None)) (\<lambda>err.
          case err of
            Some e \<Rightarrow> ret (Some e)
          | None \<Rightarrow>
              seqM (getMissingObjects sched2 k refs)
              (bindM (ListObjects k ([], ''v1'', ''Namespace'') [] []) (\<lambda>(r, _, err).
               case err of
                 Some e \<Rightarrow> ret (Some e)
               | None \<Rightarrow> seqM (storeNamespaces r) (ret None)))))"

section \<open>Reading the snapshot\<close>

definition GetRemoteObject :: "RemoteObjectUtils \<Rightarrow> ObjectRef \<Rightarrow> uo option" where
  "GetRemoteObject u ref = map_of (ru_remoteObjects u) ref"

definition GetRemoteNamespace :: "RemoteObjectUtils \<Rightarrow> string \<Rightarrow> uo option" where
  "GetRemoteNamespace u name = map_of (ru_remoteNamespaces u) name"

definition ForgetRemoteObject :: "ObjectRef \<Rightarrow> RemoteObjectUtils \<Rightarrow> RemoteObjectUtils" where
  "ForgetRemoteObject ref u = u\<lparr>ru_remoteObjects := AList.delete ref (ru_remoteObjects u)\<rparr>"

text \<open>The regular expression \<^verbatim>\<open>^kluctl.io/tag-\d+$\<close>.\<close>

definition tagLabel :: "string \<Rightarrow> bool" where
  "tagLabel s =
     (let p = map Some ''kluctl'' @ [None] @ map Some ''io/tag-''; r = drop (length p) s
      in matchPattern p s \<and> r \<noteq> [] \<and> list_all is_digit r)"

definition getInclusionEntries :: "uo \<Rightarrow> InclusionEntry list res" where
  "getInclusionEntries ob =
     bindE (GetK8sLabelsWithRegex tagLabel ob) (\<lambda>tags.
     bindE (GetK8sAnnotation ''kluctl.io/deployment-item-dir'' ob) (\<lambda>itemDir.
     Inr (map (\<lambda>(_, v). \<lparr>Type = ''tag'', Value = v\<rparr>) tags @
          (case itemDir of None \<Rightarrow> [] | Some d \<Rightarrow> [\<lparr>Type = ''deploymentItemDir'', Value = d\<rparr>]))))"

definition GetFilteredRemoteObjects :: "Inclusion option \<Rightarrow> RemoteObjectUtils \<Rightarrow> uo list res" where
  "GetFilteredRemoteObjects inclusion u =
     bindE (mapE (\<lambda>(_, ob). bindE (getInclusionEntries ob) (\<lambda>iv.
              Inr (if CheckIncluded inclusion iv False then [ob] else []))) (ru_remoteObjects u)) (\<lambda>l. Inr (concat l))"

section \<open>Laws\<close>

text \<open>Every object of the snapshot is stored under its own reference.\<close>

definition snapshot_ok :: "k8s_lib \<Rightarrow> RemoteObjectUtils \<Rightarrow> bool" where
  "snapshot_ok L u \<longleftrightarrow> (\<forall>ref ob. map_of (ru_remoteObjects u) ref = Some ob \<longrightarrow> GetK8sRef L ob = Inr ref)"

definition r_ok :: "k8s_lib \<Rightarrow> rstate \<Rightarrow> bool" where
  "r_ok L s \<longleftrightarrow> snapshot_ok L (rs_ru s) \<and> dew_inv (rs_dew s)"

lemma keeps_r_dew: "(\<And>d. dew_inv d \<Longrightarrow> dew_inv (f d)) \<Longrightarrow> always (keeps (r_ok L)) (r_dew f)"
  by (simp add: always_def keeps_def r_dew_def run_simps r_ok_def)

lemma keeps_r_store: "always (keeps (r_ok L)) (r_store L ob)"
  by (auto simp: always_def keeps_def r_store_def bindM_def run_simps r_ok_def snapshot_ok_def split: sum.splits)

text \<open>Operations of the cluster change the request log only.\<close>

definition same_but_log :: "'x kstate_scheme \<Rightarrow> 'x kstate_scheme \<Rightarrow> bool" where
  "same_but_log s s' \<longleftrightarrow> (\<exists>h. s' = s\<lparr>reqlog := h\<rparr>)"

interpretation same: step_rel same_but_log
proof
  show "same_but_log s s" for s :: "'a kstate_scheme" by (auto simp: same_but_log_def intro: exI [of _ "reqlog s"])
  show "same_but_log s s' \<Longrightarrow> same_but_log s' s'' \<Longrightarrow> same_but_log s s''" for s s' s'' :: "'a kstate_scheme"
    by (auto simp: same_but_log_def)
qed

lemma same_withClientFromPool: "always same_but_log (withClientFromPool k w req)"
  unfolding withClientFromPool_def Let_def
  by (intro same.always_intros) (auto simp: same_but_log_def)

lemma same_waitForDeletedObject: "always same_but_log (waitForDeletedObject k n ref)"
  by (induction n)
    (auto simp: GetSingleObject_def intro!: same.always_intros same_withClientFromPool split: option.splits)

lemma same_ops:
  "always same_but_log (ListObjects k g ns l)" "always same_but_log (GetSingleObject k ref)"
  "always same_but_log (DeleteSingleObject k ref opt)" "always same_but_log (k8s_ApplyObject k x popt)"
  "always same_but_log (k8s_UpdateObject k x uopt)" "always same_but_log (FixNamespaceInRef k ref)"
  "always same_but_log (GetFilteredGVKs k f)" "always same_but_log (GetFilteredPreferredGVKs k f)"
  "always same_but_log (ResetMapper k)"
  unfolding ListObjects_def doList_def GetSingleObject_def DeleteSingleObject_def k8s_ApplyObject_def doPatch_def
    k8s_UpdateObject_def FixNamespaceInRef_def IsNamespaced_def GetFilteredGVKs_def GetFilteredPreferredGVKs_def
    ResetMapper_def Let_def
  by (intro same.always_intros same_withClientFromPool same_waitForDeletedObject; auto simp: same_but_log_def)+

lemma keeps_from_same: "always same_but_log m \<Longrightarrow> (\<And>s h. I (s\<lparr>reqlog := h\<rparr>) = I s) \<Longrightarrow> always (keeps I) m"
  by (erule always_mono) (auto simp: same_but_log_def keeps_def)

lemma r_ok_log [simp]: "r_ok L (s\<lparr>reqlog := h\<rparr>) = r_ok L s"
  by (simp add: r_ok_def)

lemmas keeps_r_ops = same_ops [THEN keeps_from_same, of "r_ok L" for L, simplified]

lemma keeps_listGVK: "always (keeps (r_ok (k_lib k))) (listGVK k labels g)"
  unfolding listGVK_def
  by (intro keeps.always_intros keeps_r_ops keeps_r_dew keeps_r_store) (simp_all add: keeps_def r_ok_def)

lemma keeps_getMissing: "always (keeps (r_ok (k_lib k))) (getMissing k ref)"
  unfolding getMissing_def
  by (intro keeps.always_intros keeps_r_ops keeps_r_dew keeps_r_store) (simp_all add: keeps_def r_ok_def)

lemma keeps_counts: "always (keeps (r_ok L)) resetCounts" "always (keeps (r_ok L)) (warnPermissions m)"
  unfolding resetCounts_def warnPermissions_def
  by (intro keeps.always_intros keeps_r_dew; simp add: keeps_def r_ok_def)+

lemma keeps_UpdateRemoteObjects: "always (keeps (r_ok (k_lib k))) (UpdateRemoteObjects sched1 sched2 (Some k) d refs used)"
  unfolding UpdateRemoteObjects_def getAllByDiscriminator_def getMissingObjects_def storeNamespaces_def option.case
  by (intro keeps.always_intros keeps_r_ops keeps_counts keeps_listGVK keeps_getMissing)
    (auto simp: keeps_def r_ok_def snapshot_ok_def intro!: keeps.always_intros)

lemma logs_r_ops: "always (logs P) (r_dew f)" "always (logs P) (r_store L ob)" "always (logs P) resetCounts" "always (logs P) (warnPermissions m)"
  unfolding r_dew_def r_store_def resetCounts_def warnPermissions_def
  by (intro logs.always_intros; simp add: logs_def)+

lemma logs_UpdateRemoteObjects:
  assumes "\<And>r. read_only r \<Longrightarrow> P r"
  shows "always (logs P) (UpdateRemoteObjects sched1 sched2 k d refs used)"
  unfolding UpdateRemoteObjects_def getAllByDiscriminator_def getMissingObjects_def storeNamespaces_def listGVK_def getMissing_def
  by (intro logs.always_intros logs_intros logs_r_ops) (auto simp: logs_def read_only_def intro!: assms logs.always_intros)

text \<open>The request log and the snapshot only grow.\<close>

definition grows :: "rstate \<Rightarrow> rstate \<Rightarrow> bool" where
  "grows s s' \<longleftrightarrow> set (reqlog s) \<subseteq> set (reqlog s') \<and>
     dom (map_of (ru_remoteObjects (rs_ru s))) \<subseteq> dom (map_of (ru_remoteObjects (rs_ru s')))"

interpretation grows: step_rel grows
  by unfold_locales (simp_all add: grows_def, blast)

lemma grows_from: "always same_but_log m \<Longrightarrow> always (logs (\<lambda>_. True)) m \<Longrightarrow> always grows m"
proof (rule alwaysI)
  fix s
  assume "always same_but_log m" "always (logs (\<lambda>_. True)) m"
  then have "same_but_log s (snd (m s))" "logs (\<lambda>_. True) s (snd (m s))" by (auto dest: alwaysD)
  then show "grows s (snd (m s))" by (auto simp: same_but_log_def logs_def grows_def)
qed

lemma grows_r_ops:
  "always grows (r_dew f)" "always grows (r_store L ob)" "always grows resetCounts" "always grows (warnPermissions m)"
  "always grows (ListObjects k g ns l)" "always grows (GetSingleObject k ref)"
  unfolding r_dew_def r_store_def resetCounts_def warnPermissions_def
  by (intro grows.always_intros; auto simp: grows_def)+
    (intro grows_from same_ops logs_intros; simp)+

lemma grows_getMissing: "always grows (getMissing k ref)"
  unfolding getMissing_def by (intro grows.always_intros grows_r_ops) (simp_all add: grows_def)

lemma GetSingleObject_logged:
  assumes "GetSingleObject k ref s = (r, s')" "k_poolDone k (reqlog s) = None"
  shows "ReqGet (GroupVersionKind ref) (Name ref) (Namespace ref) \<in> set (reqlog s')"
  using assms by (auto simp: GetSingleObject_def withClientFromPool_def bindM_def seqM_def run_simps Let_def)

lemma getMissing_logged:
  assumes "getMissing k ref s = (Inr (), s')" "\<And>h. k_poolDone k h = None"
  shows "ReqGet (GroupVersionKind ref) (Name ref) (Namespace ref) \<in> set (reqlog s')"
proof -
  obtain x s1 where "GetSingleObject k ref s = (Inr x, s1)" "grows s1 s'"
    using assms(1) unfolding getMissing_def
    by (rule grows.after_bind) (intro grows.always_intros grows_r_ops; simp add: grows_def)+
  then show ?thesis using GetSingleObject_logged assms(2) by (fastforce simp: grows_def)
qed

lemma getMissingObjects_complete:
  assumes "getMissingObjects sched k refs s = (Inr (), s')" and "\<And>h. k_poolDone k h = None"
    and "\<And>l. set (sched l) = set l" and "ref \<in> set refs"
  shows "map_of (ru_remoteObjects (rs_ru s)) ref \<noteq> None \<or>
    ReqGet (GroupVersionKind ref) (Name ref) (Namespace ref) \<in> set (reqlog s')"
proof (cases "map_of (ru_remoteObjects (rs_ru s)) ref")
  case None
  let ?missing = "remdups (filter (\<lambda>ref. map_of (ru_remoteObjects (rs_ru s)) ref = None) refs)"
  let ?Q = "\<lambda>ref s. ReqGet (GroupVersionKind ref) (Name ref) (Namespace ref) \<in> set (reqlog s)"
  have m: "ref \<in> set ?missing" using None assms(4) by simp
  have ne: "?missing \<noteq> []" using m by (metis empty_iff list.set(1))
  have "getMissingObjects sched k refs s =
      seqM resetCounts (seqM (forM (getMissing k) (sched ?missing)) (warnPermissions missingText)) s"
    unfolding getMissingObjects_def bindM_def ask_def using ne by (simp only: prod.case sum.case if_False)
  then have "seqM resetCounts (seqM (forM (getMissing k) (sched ?missing)) (warnPermissions missingText)) s = (Inr (), s')"
    using assms(1) by (simp only:)
  then obtain s1 where 1: "seqM (forM (getMissing k) (sched ?missing)) (warnPermissions missingText) s1 = (Inr (), s')"
    unfolding seqM_def [of resetCounts] bindM_Inr_iff by blast
  obtain u s2 where 12: "forM (getMissing k) (sched ?missing) s1 = (Inr u, s2)" "grows s2 s'"
    using 1 by (rule grows.after_seq) (rule grows_r_ops)
  have "\<forall>x \<in> set (sched ?missing). ?Q x s2"
    by (rule grows.for_each [OF grows_getMissing]) (use 12(1) in \<open>auto intro: getMissing_logged assms(2) simp: grows_def\<close>)
  then show ?thesis using m assms(3) 12(2) by (auto simp: grows_def)
qed simp

lemma grows_UpdateRemoteObjects_end:
  "always grows (bindM (ListObjects k g ns l) (\<lambda>(r, _, err). case err of Some e \<Rightarrow> ret (Some e)
     | None \<Rightarrow> seqM (storeNamespaces r) (ret None)))"
  unfolding storeNamespaces_def
  by (intro grows.always_intros grows_r_ops) (simp add: grows_def)

section \<open>Properties\<close>


definition sample_ref :: ObjectRef where
  "sample_ref = NewObjectRef [] ''v1'' ''ConfigMap'' ''a'' ''default''"

definition start_state :: rstate where
  "start_state = \<lparr>reqlog = [], rs_dew = dew_Init, rs_ru = \<lparr>ru_remoteObjects = [], ru_remoteNamespaces = []\<rparr>,
     rs_errCount = 0, rs_permissionErrCount = 0\<rparr>"

definition not_found :: "request \<Rightarrow> reply" where
  "not_found r = (case r of ReqGet _ _ _ \<Rightarrow> plain_reply\<lparr>rp_Err := Some ((Errorf ''not found'')\<lparr>IsNotFound := True\<rparr>)\<rparr>
                  | _ \<Rightarrow> plain_reply)"


definition forbidden :: "request \<Rightarrow> reply" where
  "forbidden r = plain_reply\<lparr>rp_Err := Some ((Errorf ''forbidden'')\<lparr>IsForbidden := True\<rparr>)\<rparr>"

text \<open>
  When every known object is refused for lack of permissions, gathering them reports nothing at all: the
  warning about missing permissions is tied to the count of other errors.
\<close>

theorem getMissingObjects_permission_silent:
  "\<exists>s'. getMissingObjects id (sample_cluster True forbidden) [sample_ref] start_state = (Inr (), s') \<and>
     rs_permissionErrCount s' = 1 \<and> GetErrorsList (rs_dew s') = [] \<and> GetWarningsList (rs_dew s') = []"
proof -
  have "getMissingObjects id (sample_cluster True forbidden) [sample_ref] start_state =
      (Inr (), start_state\<lparr>reqlog := [ReqGet ([], ''v1'', ''ConfigMap'') ''a'' ''default''], rs_permissionErrCount := 1\<rparr>)"
    by code_simp
  then show ?thesis
    by (simp add: start_state_def dew_Init_def GetErrorsList_def GetWarningsList_def flatten_def)
qed

end
