(* ===== verification/Delete_Utils.thy ===== *)
theory Delete_Utils
  imports Remote_Objects
begin

text \<open>
  Which objects are deleted, in which order, and their deletion (\<^verbatim>\<open>delete_utils.go\<close>).
\<close>

section \<open>Selection\<close>

definition deleteOrder :: "string list list" where
  "deleteOrder =
     [[''Namespace''],
      [''monitoring.coreos.com'', ''kafka.strimzi.io'', ''zookeeper.pravega.io'', ''elasticsearch.k8s.elastic.co'',
       ''cert-manager.io'', ''bitnami.com'', ''acid.zalan.do''],
      [''Deployment'', ''StatefulSet'', ''DaemonSet'', ''Service'', ''Ingress''],
      []]"

definition objectRefForExclusion :: "K8sCluster \<Rightarrow> ObjectRef \<Rightarrow> ('x, ObjectRef) keff" where
  "objectRefForExclusion k ref = bindM (FixNamespaceInRef k ref) (\<lambda>r. ret (r\<lparr>Version := []\<rparr>))"

definition isSkipDelete :: "uo \<Rightarrow> bool res" where
  "isSkipDelete ob =
     bindE (GetK8sAnnotation ''kluctl.io/skip-delete'' ob) (\<lambda>a.
     if ParseBoolOrFalse a then Inr True
     else bindE (GetK8sAnnotation ''helm.sh/resource-policy'' ob) (\<lambda>p. Inr (p = Some ''keep'')))"

definition filterFunc :: "string list \<Rightarrow> APIResource \<Rightarrow> bool" where
  "filterFunc apiFilter ar \<longleftrightarrow>
     apiFilter = [] \<or> list_ex (\<lambda>f. ar_Name ar = f \<or> ar_Group ar = f \<or> ar_Kind ar = f) apiFilter"

definition managedByKluctl :: "uo \<Rightarrow> bool" where
  "managedByKluctl ob = list_ex (\<lambda>mf. strAt [KStr ''manager''] mf = ''kluctl'') (GetK8sManagedFields ob)"

text \<open>The body of the loop: the object itself when it is selected.\<close>

definition selectForDelete :: "K8sCluster \<Rightarrow> (string \<times> string) list \<Rightarrow> bool \<Rightarrow> ObjectRef list \<Rightarrow> uo \<Rightarrow> ('x, uo list) keff" where
  "selectForDelete k filteredResources inclusionHasTags excluded ob =
     bindM (lift (GetK8sRef (k_lib k) ob)) (\<lambda>ref.
     if GroupKind ref \<notin> set filteredResources then ret []
     else bindM (lift (isSkipDelete ob)) (\<lambda>skip.
       if skip then ret []
       else if GetK8sOwnerReferences ob \<noteq> [] then ret []
       else if GetK8sManagedFields ob = [] then ret []
       else if \<not> managedByKluctl ob then ret []
       else bindM (objectRefForExclusion k ref) (\<lambda>key.
         if key \<in> set excluded then ret []
         else if inclusionHasTags then
           bindM (lift (GetK8sAnnotation ''kluctl.io/skip-delete-if-tags'' ob)) (\<lambda>a.
           ret (if ParseBoolOrFalse a then [] else [ob]))
         else ret [ob])))"

definition filterObjectsForDelete :: "K8sCluster \<Rightarrow> uo list \<Rightarrow> string list \<Rightarrow> bool \<Rightarrow> ObjectRef list \<Rightarrow>
    ('x, api_err + uo list) keff" where
  "filterObjectsForDelete k objects apiFilter inclusionHasTags excluded =
     bindM (GetFilteredPreferredGVKs k (filterFunc apiFilter)) (\<lambda>r.
     case r of
       Inl e \<Rightarrow> ret (Inl e)
     | Inr gvks \<Rightarrow>
         bindM (mapM (selectForDelete k (map (\<lambda>(g, v, kd). (g, kd)) gvks) inclusionHasTags excluded) objects) (\<lambda>l.
         ret (Inr (concat l))))"

fun findRounds :: "K8sCluster \<Rightarrow> uo list \<Rightarrow> bool \<Rightarrow> string list list \<Rightarrow> ObjectRef list \<Rightarrow> ObjectRef list \<Rightarrow>
    ('x, api_err + ObjectRef list) keff" where
  "findRounds k objects tags [] excluded acc = ret (Inr acc)"
| "findRounds k objects tags (f # fs) excluded acc =
     bindM (filterObjectsForDelete k objects f tags excluded) (\<lambda>r.
     case r of
       Inl e \<Rightarrow> ret (Inl e)
     | Inr l \<Rightarrow>
         bindM (mapM (\<lambda>ob. lift (GetK8sRef (k_lib k) ob)) l) (\<lambda>refs.
         bindM (mapM (objectRefForExclusion k) refs) (\<lambda>ks.
         findRounds k objects tags fs (excluded @ ks) (acc @ refs))))"

definition FindObjectsForDelete :: "K8sCluster \<Rightarrow> uo list \<Rightarrow> bool \<Rightarrow> ObjectRef list \<Rightarrow> ('x, api_err + ObjectRef list) keff" where
  "FindObjectsForDelete k allClusterObjects inclusionHasTags excludedObjects =
     bindM (mapM (objectRefForExclusion k) excludedObjects) (\<lambda>excluded.
     findRounds k allClusterObjects inclusionHasTags deleteOrder excluded [])"

section \<open>Deletion\<close>

record dstate = kstate +
  ds_dew :: DeploymentErrorsAndWarnings
  ds_ret :: "ObjectRef list"

type_synonym 'a deff = "(dstate, 'a) eff"

definition isNamespace :: "k8s_lib \<Rightarrow> ObjectRef \<Rightarrow> bool" where
  "isNamespace L ref \<longleftrightarrow> GroupVersion_String L (GroupVersion ref) = ''v1'' \<and> Kind ref = ''Namespace''"

definition d_handleResult :: "ObjectRef \<Rightarrow> ApiWarning list \<Rightarrow> api_err option \<Rightarrow> unit deff" where
  "d_handleResult ref apiWarnings err =
     seqM (case err of
             None \<Rightarrow> modify (\<lambda>s. s\<lparr>ds_ret := ds_ret s @ [ref]\<rparr>)
           | Some e \<Rightarrow> modify (\<lambda>s. s\<lparr>ds_dew := dew_AddError ref (err_Msg e) (ds_dew s)\<rparr>))
          (modify (\<lambda>s. s\<lparr>ds_dew := dew_AddApiWarnings ref apiWarnings (ds_dew s)\<rparr>))"

text \<open>
  One worker. When the context is done before the semaphore is acquired, the worker does nothing; the error is
  kept in the helper, which nobody asks.
\<close>

definition deleteWorker :: "K8sCluster \<Rightarrow> bool \<Rightarrow> ObjectRef \<Rightarrow> unit deff" where
  "deleteWorker k doWait ref =
     bindM (ask reqlog) (\<lambda>h.
     if k_semDone k h ref then ret ()
     else bindM (DeleteSingleObject k ref \<lparr>del_ForceDryRun = False, del_NoWait = \<not> doWait, del_IgnoreNotFoundError = True\<rparr>)
            (\<lambda>(apiWarnings, err). d_handleResult ref apiWarnings err))"

definition namespacesOf :: "k8s_lib \<Rightarrow> ObjectRef list \<Rightarrow> ObjectRef list" where
  "namespacesOf L refs = filter (isNamespace L) refs"

definition othersOf :: "k8s_lib \<Rightarrow> ObjectRef list \<Rightarrow> ObjectRef list" where
  "othersOf L refs =
     filter (\<lambda>ref. \<not> isNamespace L ref \<and> Namespace ref \<notin> Name ` set (namespacesOf L refs)) refs"

definition DeleteObjects :: "(ObjectRef list \<Rightarrow> ObjectRef list) \<Rightarrow> K8sCluster \<Rightarrow> ObjectRef list \<Rightarrow> bool \<Rightarrow> ObjectRef list deff" where
  "DeleteObjects sched k refs doWait =
     seqM (modify (\<lambda>s. s\<lparr>ds_ret := []\<rparr>))
     (seqM (forM (deleteWorker k doWait) (sched (namespacesOf (k_lib k) refs)))
     (seqM (forM (deleteWorker k doWait) (sched (othersOf (k_lib k) refs)))
      (ask ds_ret)))"

section \<open>Laws of the selection\<close>

text \<open>The key by which an object is excluded: its reference with the namespace fixed and no version.\<close>

definition exclusionKey :: "K8sCluster \<Rightarrow> request list \<Rightarrow> ObjectRef \<Rightarrow> ObjectRef" where
  "exclusionKey k h ref =
     (case (if k_poolDone k h \<noteq> None then None else k_namespaced k h (GroupVersionKind ref)) of
        None \<Rightarrow> ref
      | Some n \<Rightarrow>
          if \<not> n \<and> Namespace ref \<noteq> [] then ref\<lparr>Namespace := []\<rparr>
          else if n \<and> Namespace ref = [] then ref\<lparr>Namespace := ''default''\<rparr>
          else ref)\<lparr>Version := []\<rparr>"

lemma objectRefForExclusion_run: "objectRefForExclusion k ref s = (Inr (exclusionKey k (reqlog s) ref), s)"
  by (auto simp: objectRefForExclusion_def FixNamespaceInRef_def IsNamespaced_def exclusionKey_def bindM_def run_simps
      split: option.splits)

lemma mapM_exclusion: "mapM (objectRefForExclusion k) refs s = (Inr (map (exclusionKey k (reqlog s)) refs), s)"
  by (induction refs) (simp_all add: run_simps bindM_def objectRefForExclusion_run)

text \<open>An object kluctl may delete, apart from the exclusions.\<close>

definition deletable :: "bool \<Rightarrow> uo \<Rightarrow> bool" where
  "deletable tags ob \<longleftrightarrow>
     isSkipDelete ob = Inr False \<and> GetK8sOwnerReferences ob = [] \<and> managedByKluctl ob \<and>
     (if tags then (case GetK8sAnnotation ''kluctl.io/skip-delete-if-tags'' ob of Inr a \<Rightarrow> \<not> ParseBoolOrFalse a | Inl _ \<Rightarrow> True)
      else True)"

definition selected :: "K8sCluster \<Rightarrow> request list \<Rightarrow> (string \<times> string) list \<Rightarrow> bool \<Rightarrow> ObjectRef list \<Rightarrow> uo \<Rightarrow> bool" where
  "selected k h gks tags excluded ob \<longleftrightarrow>
     (case GetK8sRef (k_lib k) ob of
        Inl _ \<Rightarrow> False
      | Inr ref \<Rightarrow> GroupKind ref \<in> set gks \<and> deletable tags ob \<and> exclusionKey k h ref \<notin> set excluded)"

lemma selected_iff:
  "selected k h gks tags excluded ob \<longleftrightarrow>
     (\<exists>ref. GetK8sRef (k_lib k) ob = Inr ref \<and> GroupKind ref \<in> set gks \<and> deletable tags ob \<and> exclusionKey k h ref \<notin> set excluded)"
  by (cases "GetK8sRef (k_lib k) ob") (auto simp: selected_def)

lemma selectForDelete_run:
  assumes "selectForDelete k gks tags excluded ob s = (Inr l, s')"
  shows "s' = s \<and> l = (if selected k (reqlog s) gks tags excluded ob then [ob] else [])"
  using assms
  by (auto simp: selectForDelete_def selected_def deletable_def managedByKluctl_def bindM_Inr_iff run_simps objectRefForExclusion_run
      split: if_splits sum.splits)

definition gksFor :: "K8sCluster \<Rightarrow> request list \<Rightarrow> string list \<Rightarrow> (string \<times> string) list" where
  "gksFor k h f =
     (case GetFilteredPreferredGVKs k (filterFunc f) \<lparr>reqlog = h\<rparr> of
        (Inr (Inr gvks), _) \<Rightarrow> map (\<lambda>(g, v, kd). (g, kd)) gvks | _ \<Rightarrow> [])"

lemma filterObjectsForDelete_run:
  assumes "filterObjectsForDelete k objects f tags excluded s = (Inr (Inr l), s')"
  shows "s' = s \<and> l = filter (selected k (reqlog s) (gksFor k (reqlog s) f) tags excluded) objects"
proof -
  obtain gvks ll where g: "GetFilteredPreferredGVKs k (filterFunc f) s = (Inr (Inr gvks), s)"
    and m: "mapM (selectForDelete k (map (\<lambda>(g, v, kd). (g, kd)) gvks) tags excluded) objects s = (Inr ll, s')" "l = concat ll"
    using assms
    by (auto simp: filterObjectsForDelete_def bindM_Inr_iff run_simps GetFilteredPreferredGVKs_def split: sum.splits)
  have gk: "map (\<lambda>(g, v, kd). (g, kd)) gvks = gksFor k (reqlog s) f"
    using g by (auto simp: gksFor_def GetFilteredPreferredGVKs_def run_simps)
  have "s' = s \<and> list_all2 (\<lambda>ob l. l = (if selected k (reqlog s) (gksFor k (reqlog s) f) tags excluded ob then [ob] else [])) objects ll"
    using m(1) unfolding gk
    by (rule mapM_pure [rotated, where P = "\<lambda>s' ob l. l = (if selected k (reqlog s') (gksFor k (reqlog s) f) tags excluded ob then [ob] else [])"])
      (rule selectForDelete_run)
  moreover have "list_all2 (\<lambda>ob l. l = (if P ob then [ob] else [])) objects ll \<Longrightarrow> concat ll = filter P objects" for P ll
    by (induction objects ll rule: list_all2_induct) auto
  ultimately show ?thesis using m(2) by simp
qed

lemma mapM_refs_run:
  assumes "mapM (\<lambda>ob. lift (GetK8sRef L ob)) l s = (Inr refs, s')"
  shows "s' = s \<and> list_all2 (\<lambda>ob ref. GetK8sRef L ob = Inr ref) l refs"
  using assms by (rule mapM_pure [rotated]) (auto simp: run_simps)

fun stageIn :: "K8sCluster \<Rightarrow> request list \<Rightarrow> string list list \<Rightarrow> ObjectRef \<Rightarrow> nat" where
  "stageIn k h [] ref = 0"
| "stageIn k h (f # fs) ref = (if GroupKind ref \<in> set (gksFor k h f) then 0 else Suc (stageIn k h fs ref))"

text \<open>What a run of the rounds adds: sound, complete and in the order of the filters.\<close>

definition rounds_ok :: "K8sCluster \<Rightarrow> request list \<Rightarrow> uo list \<Rightarrow> bool \<Rightarrow> string list list \<Rightarrow> ObjectRef list \<Rightarrow> ObjectRef list \<Rightarrow> bool" where
  "rounds_ok k h objects tags fs excluded new \<longleftrightarrow>
     (\<forall>ref \<in> set new. \<exists>ob \<in> set objects. GetK8sRef (k_lib k) ob = Inr ref \<and> deletable tags ob \<and> exclusionKey k h ref \<notin> set excluded) \<and>
     (\<forall>ob \<in> set objects. \<forall>ref. GetK8sRef (k_lib k) ob = Inr ref \<and> deletable tags ob \<and> exclusionKey k h ref \<notin> set excluded \<and>
        (\<exists>f \<in> set fs. GroupKind ref \<in> set (gksFor k h f)) \<longrightarrow> exclusionKey k h ref \<in> exclusionKey k h ` set new) \<and>
     sorted (map (stageIn k h fs) new)"

lemma rounds_ok_step:
  assumes refs: "list_all2 (\<lambda>ob ref. GetK8sRef (k_lib k) ob = Inr ref) (filter (selected k h (gksFor k h f) tags excluded) objects) refs"
    and new: "rounds_ok k h objects tags fs (excluded @ map (exclusionKey k h) refs) new"
  shows "rounds_ok k h objects tags (f # fs) excluded (refs @ new)"
proof -
  have R: "ref \<in> set refs \<longleftrightarrow> (\<exists>ob \<in> set objects. GetK8sRef (k_lib k) ob = Inr ref \<and> GroupKind ref \<in> set (gksFor k h f) \<and>
      deletable tags ob \<and> exclusionKey k h ref \<notin> set excluded)" for ref
  proof -
    have "ref \<in> set refs \<longleftrightarrow> (\<exists>ob \<in> set (filter (selected k h (gksFor k h f) tags excluded) objects). GetK8sRef (k_lib k) ob = Inr ref)"
      using refs by (induction rule: list_all2_induct) auto
    then show ?thesis by (auto simp: selected_iff)
  qed
  have later: "GroupKind ref \<notin> set (gksFor k h f)" if "ref \<in> set new" for ref
  proof
    assume "GroupKind ref \<in> set (gksFor k h f)"
    moreover have "\<exists>ob \<in> set objects. GetK8sRef (k_lib k) ob = Inr ref \<and> deletable tags ob \<and>
        exclusionKey k h ref \<notin> set (excluded @ map (exclusionKey k h) refs)"
      using new that unfolding rounds_ok_def by blast
    ultimately show False using R [of ref] by auto
  qed
  have "stageIn k h (f # fs) ref = 0" if "ref \<in> set refs" for ref
    using that R [of ref] by auto
  then have z: "map (stageIn k h (f # fs)) refs = replicate (length refs) 0" by (intro nth_equalityI) auto
  have "map (stageIn k h (f # fs)) new = map Suc (map (stageIn k h fs) new)" using later by simp
  moreover have "sorted (map (stageIn k h fs) new)" using new unfolding rounds_ok_def by blast
  then have "sorted (map Suc (map (stageIn k h fs) new))" by (simp add: sorted_wrt_map)
  ultimately have "sorted (map (stageIn k h (f # fs)) new)" by (simp only:)
  then have "sorted (map (stageIn k h (f # fs)) (refs @ new))"
    unfolding map_append z by (simp add: sorted_append del: stageIn.simps)
  moreover have "\<forall>ref \<in> set (refs @ new). \<exists>ob \<in> set objects. GetK8sRef (k_lib k) ob = Inr ref \<and> deletable tags ob \<and>
      exclusionKey k h ref \<notin> set excluded"
    using R new unfolding rounds_ok_def by auto
  moreover have "exclusionKey k h ref \<in> exclusionKey k h ` set (refs @ new)"
    if a: "ob \<in> set objects" "GetK8sRef (k_lib k) ob = Inr ref \<and> deletable tags ob \<and> exclusionKey k h ref \<notin> set excluded \<and>
        (\<exists>f' \<in> set (f # fs). GroupKind ref \<in> set (gksFor k h f'))" for ob ref
  proof (cases "exclusionKey k h ref \<in> exclusionKey k h ` set refs")
    case False
    then have "ref \<notin> set refs" by blast
    then have "\<exists>f' \<in> set fs. GroupKind ref \<in> set (gksFor k h f')" using a R by auto
    then have "exclusionKey k h ref \<in> exclusionKey k h ` set new"
      using a False new unfolding rounds_ok_def by simp
    then show ?thesis by (simp add: image_Un)
  qed (simp add: image_Un)
  ultimately show ?thesis unfolding rounds_ok_def by blast
qed

lemma findRounds_run:
  "findRounds k objects tags fs excluded acc s = (Inr (Inr refs), s') \<Longrightarrow>
     s' = s \<and> (\<exists>new. refs = acc @ new \<and> rounds_ok k (reqlog s) objects tags fs excluded new)"
proof (induction fs arbitrary: excluded acc s)
  case Nil
  then show ?case by (auto simp: run_simps rounds_ok_def)
next
  case (Cons f fs)
  obtain r s0 where r: "filterObjectsForDelete k objects f tags excluded s = (Inr r, s0)"
    "(case r of Inl e \<Rightarrow> ret (Inl e) | Inr l \<Rightarrow>
         bindM (mapM (\<lambda>ob. lift (GetK8sRef (k_lib k) ob)) l) (\<lambda>refs.
         bindM (mapM (objectRefForExclusion k) refs) (\<lambda>ks.
         findRounds k objects tags fs (excluded @ ks) (acc @ refs)))) s0 = (Inr (Inr refs), s')"
    using Cons.prems by (auto simp: bindM_Inr_iff)
  then obtain l s1 refs1 s2 s3 ks where
    1: "filterObjectsForDelete k objects f tags excluded s = (Inr (Inr l), s1)"
    and 2: "mapM (\<lambda>ob. lift (GetK8sRef (k_lib k) ob)) l s1 = (Inr refs1, s2)"
    and 3: "mapM (objectRefForExclusion k) refs1 s2 = (Inr ks, s3)"
    and 4: "findRounds k objects tags fs (excluded @ ks) (acc @ refs1) s3 = (Inr (Inr refs), s')"
    by (cases r) (auto simp: bindM_Inr_iff run_simps)
  have s: "s1 = s" "s2 = s" "s3 = s" "ks = map (exclusionKey k (reqlog s)) refs1"
    using filterObjectsForDelete_run [OF 1] mapM_refs_run [OF 2] 3 by (auto simp: mapM_exclusion)
  obtain new where "s' = s" "refs = (acc @ refs1) @ new"
    "rounds_ok k (reqlog s) objects tags fs (excluded @ map (exclusionKey k (reqlog s)) refs1) new"
    using Cons.IH [OF 4] s by blast
  then show ?case
    using rounds_ok_step [of k "reqlog s" f tags excluded objects refs1 fs new]
      filterObjectsForDelete_run [OF 1] mapM_refs_run [OF 2] s by auto
qed

lemma FindObjectsForDelete_run:
  assumes "FindObjectsForDelete k objects tags excludedObjects s = (Inr (Inr refs), s')"
  shows "s' = s \<and> rounds_ok k (reqlog s) objects tags deleteOrder (map (exclusionKey k (reqlog s)) excludedObjects) refs"
proof -
  have "findRounds k objects tags deleteOrder (map (exclusionKey k (reqlog s)) excludedObjects) [] s = (Inr (Inr refs), s')"
    using assms by (simp add: FindObjectsForDelete_def bindM_def mapM_exclusion)
  then show ?thesis using findRounds_run by fastforce
qed

section \<open>Laws of the deletion\<close>

definition deleteReq :: "K8sCluster \<Rightarrow> ObjectRef set \<Rightarrow> request \<Rightarrow> bool" where
  "deleteReq k refs r \<longleftrightarrow> read_only r \<or> (\<exists>ref \<in> refs. r = ReqDelete ref (k_DryRun k))"

lemma logs_deleteWorker: "ref \<in> refs \<Longrightarrow> always (logs (deleteReq k refs)) (deleteWorker k doWait ref)"
  unfolding deleteWorker_def d_handleResult_def
  by (intro logs.always_intros logs_intros) (auto simp: deleteReq_def logs_def intro!: logs.always_intros)

lemma logs_DeleteObjects:
  assumes "\<And>l. set (sched l) = set l"
  shows "always (logs (deleteReq k (set refs))) (DeleteObjects sched k refs doWait)"
  unfolding DeleteObjects_def using assms
  by (intro logs.always_intros) (auto simp: logs_def namespacesOf_def othersOf_def intro: logs_deleteWorker)

text \<open>What was deleted and what failed is never forgotten.\<close>

definition remembers :: "dstate \<Rightarrow> dstate \<Rightarrow> bool" where
  "remembers s s' \<longleftrightarrow> set (ds_ret s) \<subseteq> set (ds_ret s') \<and> (\<forall>ref. dew_HadError (ds_dew s) ref \<longrightarrow> dew_HadError (ds_dew s') ref)"

interpretation remembers: step_rel remembers
  by unfold_locales (auto simp: remembers_def)

lemma HadError_AddError: "dew_HadError (dew_AddError ref m d) r \<longleftrightarrow> r = ref \<or> dew_HadError d r"
  by (auto simp: dew_HadError_def dew_AddError_def addTo_def Let_def)

lemma HadError_AddApiWarnings [simp]: "dew_HadError (dew_AddApiWarnings ref ws d) r = dew_HadError d r"
  by (simp add: dew_HadError_def)

lemma remembers_deleteWorker: "always remembers (deleteWorker k doWait ref)"
proof -
  have "always remembers (DeleteSingleObject k ref opt)" for opt
    using same_ops(3) by (rule always_mono) (auto simp: same_but_log_def remembers_def)
  then show ?thesis
    unfolding deleteWorker_def d_handleResult_def
    by (intro remembers.always_intros) (auto simp: remembers_def HadError_AddError intro!: remembers.always_intros)
qed

lemma deleteWorker_accounts:
  assumes "deleteWorker k doWait ref s = (Inr (), s')" "\<And>h r. \<not> k_semDone k h r"
  shows "ref \<in> set (ds_ret s') \<or> dew_HadError (ds_dew s') ref"
  using assms
  by (auto simp: deleteWorker_def d_handleResult_def bindM_Inr_iff seqM_def run_simps HadError_AddError
      split: option.splits prod.splits)

lemma deleted_from:
  assumes "deleteWorker k doWait ref s = (r, s')" "ref \<in> refs" "set (ds_ret s) \<subseteq> refs"
  shows "set (ds_ret s') \<subseteq> refs"
proof -
  have "always (keeps (\<lambda>s. set (ds_ret s) \<subseteq> refs)) (DeleteSingleObject k ref opt)" for opt
    using same_ops(3) by (rule keeps_from_same) simp
  then have "always (keeps (\<lambda>s. set (ds_ret s) \<subseteq> refs)) (deleteWorker k doWait ref)"
    unfolding deleteWorker_def d_handleResult_def using assms(2)
    by (intro keeps.always_intros) (auto simp: keeps_def intro!: keeps.always_intros)
  then have "keeps (\<lambda>s. set (ds_ret s) \<subseteq> refs) s s'" using assms(1) by (metis alwaysD snd_conv)
  then show ?thesis using assms(3) by (simp add: keeps_def)
qed

section \<open>Properties\<close>

text \<open>
  C24: The objects selected for deletion. Every one of them is an object of the cluster that is managed by
  kluctl, has no owner, is not protected by an annotation and is not excluded (up to the API version and
  the default namespace); every such object of a kind the server offers is selected; and they come in the order
  of the deletion stages. Nothing is changed on the way.
\<close>

theorem FindObjectsForDelete_spec:
  assumes "FindObjectsForDelete k objects tags excludedObjects s = (Inr (Inr refs), s')"
  shows "s' = s \<and>
    (\<forall>ref \<in> set refs. \<exists>ob \<in> set objects. GetK8sRef (k_lib k) ob = Inr ref \<and> deletable tags ob \<and>
       exclusionKey k (reqlog s) ref \<notin> exclusionKey k (reqlog s) ` set excludedObjects) \<and>
    (\<forall>ob \<in> set objects. \<forall>ref. GetK8sRef (k_lib k) ob = Inr ref \<and> deletable tags ob \<and>
       exclusionKey k (reqlog s) ref \<notin> exclusionKey k (reqlog s) ` set excludedObjects \<and>
       GroupKind ref \<in> set (gksFor k (reqlog s) []) \<longrightarrow>
       exclusionKey k (reqlog s) ref \<in> exclusionKey k (reqlog s) ` set refs) \<and>
    sorted (map (stageIn k (reqlog s) deleteOrder) refs)"
  using FindObjectsForDelete_run [OF assms] unfolding rounds_ok_def by (simp add: deleteOrder_def)

text \<open>
  Deleting objects sends delete requests for the given objects only, first for all namespaces, then for
  the objects that are not inside one of these namespaces; each carries the dry-run flag of the cluster access.
\<close>

theorem DeleteObjects_requests:
  assumes "DeleteObjects sched k refs doWait s = (r, s')" and "\<And>l. set (sched l) = set l"
  shows "\<exists>new1 new2. reqlog s' = reqlog s @ new1 @ new2 \<and>
    (\<forall>q \<in> set new1. read_only q \<or> (\<exists>ref \<in> set refs. isNamespace (k_lib k) ref \<and> q = ReqDelete ref (k_DryRun k))) \<and>
    (\<forall>q \<in> set new2. read_only q \<or> (\<exists>ref \<in> set refs. \<not> isNamespace (k_lib k) ref \<and>
       \<not> (\<exists>n \<in> set refs. isNamespace (k_lib k) n \<and> Name n = Namespace ref) \<and> q = ReqDelete ref (k_DryRun k)))"
proof -
  let ?ns = "namespacesOf (k_lib k) refs" and ?os = "othersOf (k_lib k) refs"
  let ?f = "deleteWorker k doWait"
  have l: "always (logs (deleteReq k (set xs))) (forM ?f (sched xs))" for xs
    using assms(2) by (auto intro!: logs.always_for logs_deleteWorker)
  let ?s1 = "s\<lparr>ds_ret := []\<rparr>"
  obtain r1 s1 where 1: "forM ?f (sched ?ns) ?s1 = (r1, s1)" by fastforce
  have n1: "logs (deleteReq k (set ?ns)) ?s1 s1" using alwaysD [OF l [of ?ns], of ?s1] 1 by simp
  have "logs (deleteReq k (set ?os)) s1 s'"
  proof (cases r1)
    case (Inl e)
    then show ?thesis using assms(1) 1 by (simp add: DeleteObjects_def seqM_def bindM_def run_simps logs_same)
  next
    case (Inr u)
    have "s' = snd (forM ?f (sched ?os) s1)"
      using assms(1) 1 Inr by (auto simp: DeleteObjects_def seqM_def bindM_def run_simps split: prod.splits sum.splits)
    then show ?thesis using alwaysD [OF l [of ?os], of s1] by simp
  qed
  then obtain new1 new2 where new: "reqlog s1 = reqlog s @ new1" "list_all (deleteReq k (set ?ns)) new1"
    "reqlog s' = reqlog s1 @ new2" "list_all (deleteReq k (set ?os)) new2"
    using n1 by (auto simp: logs_def)
  have "reqlog s' = reqlog s @ new1 @ new2" using new by simp
  moreover have "\<forall>q \<in> set new1. read_only q \<or> (\<exists>ref \<in> set refs. isNamespace (k_lib k) ref \<and> q = ReqDelete ref (k_DryRun k))"
    using new(2) by (auto simp: list_all_iff deleteReq_def namespacesOf_def)
  moreover have "\<forall>q \<in> set new2. read_only q \<or> (\<exists>ref \<in> set refs. \<not> isNamespace (k_lib k) ref \<and>
       \<not> (\<exists>n \<in> set refs. isNamespace (k_lib k) n \<and> Name n = Namespace ref) \<and> q = ReqDelete ref (k_DryRun k))"
    using new(4) unfolding list_all_iff deleteReq_def by (force simp: namespacesOf_def othersOf_def)
  ultimately show ?thesis by blast
qed


subsection \<open>Concrete runs\<close>

definition sample_managed :: uo where
  "sample_managed =
     [(''apiVersion'', VStr ''v1''), (''kind'', VStr ''ConfigMap''),
      (''metadata'', VMap [(''name'', VStr ''a''), (''namespace'', VStr ''default''),
         (''managedFields'', VList [VMap [(''manager'', VStr ''kluctl'')]])])]"

definition sample_discovery :: "APIGroupResources list" where
  "sample_discovery = [\<lparr>agr_Name = [], agr_PreferredVersion = ''v1'', agr_VersionedResources =
     [(''v1'', [\<lparr>ar_Name = ''configmaps'', ar_Group = [], ar_Version = ''v1'', ar_Kind = ''ConfigMap'', ar_Verbs = []\<rparr>])]\<rparr>]"

definition sample_ns :: ObjectRef where
  "sample_ns = NewObjectRef [] ''v1'' ''Namespace'' ''prod'' []"

definition sample_in_ns :: ObjectRef where
  "sample_in_ns = NewObjectRef [] ''v1'' ''ConfigMap'' ''b'' ''prod''"

definition d_start :: dstate where
  "d_start = \<lparr>reqlog = [], ds_dew = dew_Init, ds_ret = []\<rparr>"

theorem FindObjectsForDelete_spec_witness:
  "FindObjectsForDelete ((sample_cluster False (\<lambda>_. plain_reply))\<lparr>k_discovery := \<lambda>_. Inr sample_discovery\<rparr>)
     [sample_managed] False [] \<lparr>reqlog = []\<rparr> = (Inr (Inr [sample_ref]), \<lparr>reqlog = []\<rparr>) \<and> deletable False sample_managed"
proof -
  have r: "FindObjectsForDelete ((sample_cluster False (\<lambda>_. plain_reply))\<lparr>k_discovery := \<lambda>_. Inr sample_discovery\<rparr>)
     [sample_managed] False [] \<lparr>reqlog = []\<rparr> = (Inr (Inr [sample_ref]), \<lparr>reqlog = []\<rparr>)" by code_simp
  show ?thesis using FindObjectsForDelete_spec [OF r] r by auto
qed

lemma sample_delete:
  "DeleteObjects id (sample_cluster False (\<lambda>_. plain_reply)) [sample_in_ns, sample_ref, sample_ns] False d_start =
     (Inr [sample_ns, sample_ref], d_start\<lparr>reqlog := [ReqDelete sample_ns False, ReqDelete sample_ref False],
        ds_ret := [sample_ns, sample_ref]\<rparr>)"
  by code_simp

theorem DeleteObjects_requests_witness:
  "\<exists>new1 new2. [ReqDelete sample_ns False, ReqDelete sample_ref False] = new1 @ new2 \<and>
     list_all (\<lambda>q. read_only q \<or> q = ReqDelete sample_ns False) new1"
proof -
  let ?k = "sample_cluster False (\<lambda>_. plain_reply)"
  obtain new1 new2 where n: "[ReqDelete sample_ns False, ReqDelete sample_ref False] = new1 @ new2"
    "\<forall>q \<in> set new1. read_only q \<or> (\<exists>ref \<in> set [sample_in_ns, sample_ref, sample_ns]. isNamespace (k_lib ?k) ref \<and> q = ReqDelete ref (k_DryRun ?k))"
    using DeleteObjects_requests [OF sample_delete] by (auto simp: d_start_def)
  have "\<not> isNamespace (k_lib ?k) sample_in_ns" "\<not> isNamespace (k_lib ?k) sample_ref" "k_DryRun ?k = False"
    by code_simp+
  then have "list_all (\<lambda>q. read_only q \<or> q = ReqDelete sample_ns False) new1" using n(2) by (auto simp: list_all_iff)
  then show ?thesis using n(1) by blast
qed


text \<open>
  When the context is done before the workers start, nothing is deleted and nothing is reported: the
  errors of the semaphore are dropped.
\<close>

theorem DeleteObjects_cancelled_silent:
  "DeleteObjects id ((sample_cluster False (\<lambda>_. plain_reply))\<lparr>k_semDone := \<lambda>_ _. True\<rparr>) [sample_ref, sample_ns] True d_start =
     (Inr [], d_start)"
  by code_simp

end
