(* ===== verification/Validation.thy ===== *)
theory Validation
  imports Errors_Holder
begin

text \<open>
  The readiness check of a single object (\<^verbatim>\<open>pkg/validation/validation.go\<close>). The function builds its
  result in place and leaves through a panic that it recovers itself; the panic value
  \<^verbatim>\<open>validationFailed\<close> is the outcome \<open>Error\<close> of the effect, every other panic is the outcome
  \<open>Panic\<close>.
\<close>

section \<open>Results and reactions\<close>

record ValidateResultEntry =
  vre_Ref :: ObjectRef
  vre_Annotation :: string
  vre_Message :: string

record ValidateResult =
  vr_Ready :: bool
  vr_Warnings :: "DeploymentError list"
  vr_Errors :: "DeploymentError list"
  vr_Results :: "ValidateResultEntry list"

record vstate = kstate +
  vres :: ValidateResult

type_synonym 'a veff = "(vstate, 'a) eff"

datatype errorReaction = reactIgnore | reactError | reactWarning | reactNotReady

record condition =
  cond_status :: string
  cond_reason :: string
  cond_message :: string

definition getMessage :: "condition \<Rightarrow> string \<Rightarrow> string" where
  "getMessage c def = (if cond_message c = [] then def else cond_message c)"

text \<open>The context of the closures: the reference of the object and the flag \<^verbatim>\<open>notReadyIsError\<close>.\<close>

type_synonym vctx = "ObjectRef \<times> bool"

definition v_addError :: "vctx \<Rightarrow> string \<Rightarrow> unit veff" where
  "v_addError c m = modify (\<lambda>s. s\<lparr>vres := (vres s)\<lparr>vr_Errors := vr_Errors (vres s) @ [\<lparr>de_Ref = fst c, de_Message = m\<rparr>],
     vr_Ready := False\<rparr>\<rparr>)"

definition v_addWarning :: "vctx \<Rightarrow> string \<Rightarrow> unit veff" where
  "v_addWarning c m = modify (\<lambda>s. s\<lparr>vres := (vres s)\<lparr>vr_Warnings := vr_Warnings (vres s) @ [\<lparr>de_Ref = fst c, de_Message = m\<rparr>]\<rparr>\<rparr>)"

definition v_notReady :: "unit veff" where
  "v_notReady = modify (\<lambda>s. s\<lparr>vres := (vres s)\<lparr>vr_Ready := False\<rparr>\<rparr>)"

definition v_addNotReady :: "vctx \<Rightarrow> string \<Rightarrow> unit veff" where
  "v_addNotReady c m = seqM (if snd c then v_addError c m else v_addWarning c m) v_notReady"

definition v_fail :: "unit veff" where
  "v_fail = throw (Error ''validation failed'')"

definition reactToError :: "vctx \<Rightarrow> string option \<Rightarrow> errorReaction \<Rightarrow> bool \<Rightarrow> unit veff" where
  "reactToError c err er doRaise =
     (case err of
        None \<Rightarrow> ret ()
      | Some m \<Rightarrow>
          seqM (case er of
                  reactIgnore \<Rightarrow> ret ()
                | reactError \<Rightarrow> v_addError c m
                | reactWarning \<Rightarrow> v_addWarning c m
                | reactNotReady \<Rightarrow> v_addNotReady c m)
               (whenM doRaise v_fail))"

section \<open>Reading the status\<close>

definition errText :: "'a res \<Rightarrow> string option" where
  "errText r = (case r of Inl (Error m) \<Rightarrow> Some m | _ \<Rightarrow> None)"

definition findConditions :: "vctx \<Rightarrow> uo \<Rightarrow> string \<Rightarrow> errorReaction \<Rightarrow> bool \<Rightarrow> condition list veff" where
  "findConditions c status typ er doRaise =
     (let l = (case noErr None (GetNestedObjectList [KStr ''conditions''] status) of None \<Rightarrow> [] | Some l \<Rightarrow> l);
          found = map (\<lambda>x. \<lparr>cond_status = strAt [KStr ''status''] x, cond_reason = strAt [KStr ''reason''] x,
                            cond_message = strAt [KStr ''message''] x\<rparr>)
                    (filter (\<lambda>x. strAt [KStr ''type''] x = typ) l)
      in seqM (whenM (found = []) (reactToError c (Some (typ @ '' condition not in status'')) er doRaise)) (ret found))"

definition getCondition :: "vctx \<Rightarrow> uo \<Rightarrow> string \<Rightarrow> errorReaction \<Rightarrow> bool \<Rightarrow> condition veff" where
  "getCondition c status typ er doRaise =
     bindM (findConditions c status typ er doRaise) (\<lambda>cs.
     case cs of
       [] \<Rightarrow> ret \<lparr>cond_status = [], cond_reason = [], cond_message = []\<rparr>
     | [x] \<Rightarrow> ret x
     | x # _ \<Rightarrow> seqM (v_addError c (typ @ '' condition found more then once'')) (seqM (whenM doRaise v_fail) (ret x)))"

definition getStatusField :: "vctx \<Rightarrow> uo \<Rightarrow> string \<Rightarrow> errorReaction \<Rightarrow> bool \<Rightarrow> val \<Rightarrow> val veff" where
  "getStatusField c status field er doRaise def =
     (case noErr None (GetNestedField [KStr field] status) of
        None \<Rightarrow> seqM (reactToError c (Some (field @ '' field not in status or empty'')) er doRaise) (ret def)
      | Some v \<Rightarrow> ret v)"

definition getStatusFieldStr :: "vctx \<Rightarrow> uo \<Rightarrow> string \<Rightarrow> errorReaction \<Rightarrow> bool \<Rightarrow> string \<Rightarrow> string veff" where
  "getStatusFieldStr c status field er doRaise def =
     bindM (getStatusField c status field er doRaise (VStr def)) (\<lambda>v.
     case v of
       VStr s \<Rightarrow> ret s
     | _ \<Rightarrow> seqM (v_addError c (field @ '' field is not a string'')) (seqM (whenM doRaise v_fail) (ret def)))"

definition getStatusFieldInt :: "vctx \<Rightarrow> uo \<Rightarrow> string \<Rightarrow> errorReaction \<Rightarrow> bool \<Rightarrow> 64 word \<Rightarrow> 64 word veff" where
  "getStatusFieldInt c status field er doRaise def =
     bindM (getStatusField c status field er doRaise (VInt def)) (\<lambda>v.
     case v of
       VInt i \<Rightarrow> ret i
     | VUint i \<Rightarrow> ret i
     | _ \<Rightarrow> seqM (reactToError c (Some (field @ '' field is not an int'')) er doRaise) (ret def))"

section \<open>Percentages\<close>

text \<open>
  Single precision: the nearest number with 24 significant bits, ties to the even one. The numbers here stay
  far from the limits of the exponent.
\<close>

fun bits :: "nat \<Rightarrow> nat" where
  "bits n = (if n = 0 then 0 else Suc (bits (n div 2)))"

declare bits.simps [simp del]

definition pow2 :: "int \<Rightarrow> rat" where
  "pow2 e = (if e \<ge> 0 then 2 ^ nat e else 1 / 2 ^ nat (- e))"

definition log2floor :: "rat \<Rightarrow> int" where
  "log2floor x = (let (p, q) = quotient_of x; e = int (bits (nat p)) - int (bits (nat q))
                  in if pow2 e \<le> x then e else e - 1)"

definition round_even :: "rat \<Rightarrow> int" where
  "round_even x = (let f = \<lfloor>x\<rfloor>; d = x - of_int f
                   in if d < 1 / 2 then f else if d > 1 / 2 then f + 1 else if even f then f else f + 1)"

definition f32 :: "rat \<Rightarrow> rat" where
  "f32 x = (if x = 0 then 0
            else let u = pow2 (log2floor \<bar>x\<bar> - 23) in of_int (round_even (x / u)) * u)"

definition parseIntOrPercent :: "val \<Rightarrow> (64 word \<times> bool) res" where
  "parseIntOrPercent v =
     (case v of
        VInt i \<Rightarrow> Inr (i, False)
      | VUint i \<Rightarrow> Inr (i, False)
      | VStr s \<Rightarrow> bindE (ParseInt 32 (filter (\<lambda>c. c \<noteq> CHR ''%'') s)) (\<lambda>i. Inr (word_of_int i, True))
      | _ \<Rightarrow> Inl (Error ''don't know how to parse''))"

definition valueFromIntOrPercent :: "(rat \<Rightarrow> 64 word) \<Rightarrow> val \<Rightarrow> 64 word \<Rightarrow> 64 word res" where
  "valueFromIntOrPercent f2i v tot =
     bindE (parseIntOrPercent v) (\<lambda>(i, isPercent).
     Inr (if isPercent then
            int64_of_float f2i (f32 (f32 (f32 (of_int (sint i)) * f32 (of_int (sint tot))) / 100))
          else i))"

section \<open>The kinds of objects\<close>

text \<open>One definition per case of the switch on the group and kind.\<close>

definition checkPod :: "vctx \<Rightarrow> uo \<Rightarrow> unit veff" where
  "checkPod c status =
     (let css = GetNestedObjectList [KStr ''containerStatuses''] status in
      seqM (reactToError c (errText css) reactError True)
      (seqM (forM (\<lambda>cs.
          let name = GetNestedString [KStr ''name''] cs;
              reason = GetNestedString [KStr ''state'', KStr ''terminated'', KStr ''reason''] cs in
          seqM (reactToError c (errText name) reactError True)
          (seqM (reactToError c (errText reason) reactError True)
                (whenM (noErr None reason = Some ''Error'')
                  (v_addError c (''container '' @ orEmpty (noErr None name) @ '' exited with error'')))))
         (case noErr None css of None \<Rightarrow> [] | Some l \<Rightarrow> l))
      (bindM (getCondition c status ''Ready'' reactNotReady False) (\<lambda>rc.
       if cond_status rc = ''False'' \<and> cond_reason rc = ''PodCompleted'' then ret ()
       else v_addNotReady c ''Not ready''))))"

definition checkJob :: "vctx \<Rightarrow> uo \<Rightarrow> unit veff" where
  "checkJob c status =
     bindM (getCondition c status ''Failed'' reactIgnore False) (\<lambda>f.
     if cond_status f = ''True'' then v_addError c (getMessage f ''Failed'')
     else bindM (getCondition c status ''Complete'' reactIgnore False) (\<lambda>d.
          whenM (cond_status d \<noteq> ''True'') (v_addNotReady c (getMessage d ''Not completed''))))"

definition lessReplicas :: "64 word \<Rightarrow> 64 word \<Rightarrow> string" where
  "lessReplicas a b = ''readyReplicas ('' @ show_int (sint a) @ '') is less then replicas ('' @ show_int (sint b) @ '')''"

definition checkDeployment :: "(rat \<Rightarrow> 64 word) \<Rightarrow> vctx \<Rightarrow> uo \<Rightarrow> uo \<Rightarrow> unit veff" where
  "checkDeployment f2i c ob status =
     (case noErr None (GetNestedInt f2i [KStr ''spec'', KStr ''replicas''] ob) of
        None \<Rightarrow> ret ()
      | Some specReplicas \<Rightarrow>
          whenM (specReplicas \<noteq> 0)
            (bindM (getStatusFieldInt c status ''readyReplicas'' reactNotReady True 0) (\<lambda>readyReplicas.
             bindM (getStatusFieldInt c status ''replicas'' reactNotReady True 0) (\<lambda>replicas.
             whenM (sint readyReplicas < sint replicas) (v_addNotReady c (lessReplicas readyReplicas replicas))))))"

definition checkPVC :: "vctx \<Rightarrow> uo \<Rightarrow> unit veff" where
  "checkPVC c status =
     bindM (getStatusFieldStr c status ''phase'' reactNotReady True []) (\<lambda>phase.
     whenM (phase \<noteq> ''Bound'') (v_addNotReady c ''Volume is not bound''))"

definition checkService :: "vctx \<Rightarrow> uo \<Rightarrow> uo \<Rightarrow> unit veff" where
  "checkService c ob status =
     (let svcType = strAt [KStr ''spec'', KStr ''type''] ob;
          clusterIP = strAt [KStr ''spec'', KStr ''clusterIP''] ob;
          listAt = (\<lambda>ks x. case noErr None (GetNestedList ks x) of None \<Rightarrow> [] | Some l \<Rightarrow> l)
      in whenM (svcType \<noteq> ''ExternalName'')
           (if clusterIP = [] then v_addError c ''Service does not have a cluster IP''
            else whenM (svcType = ''LoadBalancer'' \<and> listAt [KStr ''spec'', KStr ''externalIPs''] ob = [] \<and>
                        listAt [KStr ''loadBalancer'', KStr ''ingress''] status = [])
                   (v_addNotReady c ''Not ready'')))"

definition outOf :: "string \<Rightarrow> 64 word \<Rightarrow> 64 word \<Rightarrow> string \<Rightarrow> string" where
  "outOf what a b tail =
     what @ '' is not ready. '' @ show_int (sint a) @ '' out of '' @ show_int (sint b) @ '' expected pods '' @ tail"

definition checkDaemonSet :: "(rat \<Rightarrow> 64 word) \<Rightarrow> vctx \<Rightarrow> uo \<Rightarrow> uo \<Rightarrow> unit veff" where
  "checkDaemonSet f2i c ob status =
     whenM (strAt [KStr ''spec'', KStr ''updateStrategy'', KStr ''type''] ob = ''RollingUpdate'')
       (bindM (getStatusFieldInt c status ''updatedNumberScheduled'' reactNotReady True 0) (\<lambda>updated.
        bindM (getStatusFieldInt c status ''desiredNumberScheduled'' reactNotReady True 0) (\<lambda>desired.
        if updated \<noteq> desired then v_addNotReady c (outOf ''DaemonSet'' updated desired ''have been scheduled'')
        else
          let mu = (case noErr None (GetNestedField [KStr ''spec'', KStr ''updateStrategy'', KStr ''maxUnavailable''] ob) of
                      None \<Rightarrow> VInt 1 | Some VNil \<Rightarrow> VInt 1 | Some v \<Rightarrow> v);
              maxUnavailable = (case valueFromIntOrPercent f2i mu desired of Inl _ \<Rightarrow> desired | Inr m \<Rightarrow> m);
              expectedReady = desired - maxUnavailable
          in bindM (getStatusFieldInt c status ''numberReady'' reactNotReady True 0) (\<lambda>numberReady.
             whenM (sint numberReady < sint expectedReady)
               (v_addNotReady c (outOf ''DaemonSet'' numberReady expectedReady ''are ready''))))))"

definition checkCRD :: "vctx \<Rightarrow> uo \<Rightarrow> unit veff" where
  "checkCRD c status =
     bindM (getCondition c status ''Established'' reactIgnore False) (\<lambda>e.
     whenM (cond_status e \<noteq> ''True'')
       (bindM (getCondition c status ''NamesAccepted'' reactNotReady True) (\<lambda>n.
        whenM (cond_status n \<noteq> ''False'') (v_addNotReady c ''CRD is not ready''))))"

definition checkStatefulSet :: "(rat \<Rightarrow> 64 word) \<Rightarrow> vctx \<Rightarrow> uo \<Rightarrow> uo \<Rightarrow> unit veff" where
  "checkStatefulSet f2i c ob status =
     whenM (strAt [KStr ''spec'', KStr ''updateStrategy'', KStr ''type''] ob = ''RollingUpdate'')
       (let partition = (case noErr None (GetNestedInt f2i [KStr ''spec'', KStr ''updateStrategy'', KStr ''rollingUpdate'', KStr ''partition''] ob) of
                           None \<Rightarrow> 0 | Some p \<Rightarrow> p);
            replicas = (case noErr None (GetNestedInt f2i [KStr ''spec'', KStr ''replicas''] ob) of None \<Rightarrow> 1 | Some r \<Rightarrow> r);
            expectedReplicas = replicas - partition
        in bindM (getStatusFieldInt c status ''updatedReplicas'' reactNotReady True 0) (\<lambda>updatedReplicas.
           if updatedReplicas \<noteq> expectedReplicas then
             v_addNotReady c (outOf ''StatefulSet'' updatedReplicas expectedReplicas ''have been scheduled'')
           else bindM (getStatusFieldInt c status ''readyReplicas'' reactNotReady True 0) (\<lambda>readyReplicas.
                whenM (readyReplicas \<noteq> replicas)
                  (v_addNotReady c (outOf ''StatefulSet'' readyReplicas replicas ''are ready'')))))"

definition checkMachineDeployment :: "vctx \<Rightarrow> uo \<Rightarrow> unit veff" where
  "checkMachineDeployment c status =
     bindM (getCondition c status ''Ready'' reactNotReady True) (\<lambda>r.
     seqM (whenM (cond_status r \<noteq> ''True'') (v_addNotReady c (getMessage r ''Not ready'')))
     (bindM (getCondition c status ''Available'' reactNotReady True) (\<lambda>a.
      seqM (whenM (cond_status a \<noteq> ''True'') (v_addNotReady c (getMessage a ''Not ready'')))
      (bindM (getStatusFieldInt c status ''readyReplicas'' reactNotReady True 0) (\<lambda>readyReplicas.
       bindM (getStatusFieldInt c status ''replicas'' reactNotReady True 0) (\<lambda>replicas.
       bindM (getStatusFieldInt c status ''unavailableReplicas'' reactIgnore False 0) (\<lambda>unavailable.
       seqM (whenM (sint readyReplicas < sint replicas) (v_addNotReady c (lessReplicas readyReplicas replicas)))
            (whenM (unavailable \<noteq> 0)
              (v_addNotReady c (''unavailableReplicas ('' @ show_int (sint unavailable) @ '') != 0'')))))))))) "

definition checkKind :: "(rat \<Rightarrow> 64 word) \<Rightarrow> vctx \<Rightarrow> string \<times> string \<Rightarrow> uo \<Rightarrow> uo \<Rightarrow> unit veff" where
  "checkKind f2i c gk ob status =
     (if gk = ([], ''Pod'') then checkPod c status
      else if gk = (''batch'', ''Job'') then checkJob c status
      else if gk = (''apps'', ''Deployment'') then checkDeployment f2i c ob status
      else if gk = ([], ''PersistentVolumeClaim'') then checkPVC c status
      else if gk = ([], ''Service'') then checkService c ob status
      else if gk = (''apps'', ''DaemonSet'') then checkDaemonSet f2i c ob status
      else if gk = (''apiextensions.k8s.io'', ''CustomResourceDefinition'') then checkCRD c status
      else if gk = (''apps'', ''StatefulSet'') then checkStatefulSet f2i c ob status
      else if gk = (''cluster.x-k8s.io'', ''MachineDeployment'') then checkMachineDeployment c status
      else ret ())"

section \<open>The whole check\<close>

text \<open>The regular expression \<^verbatim>\<open>^validate-result.kluctl.io/.*\<close>.\<close>

definition resultAnnotation :: "string \<Rightarrow> bool" where
  "resultAnnotation =
     matchPattern (map Some ''validate-result'' @ [None] @ map Some ''kluctl'' @ [None] @ map Some ''io/'')"

definition noStatus :: "K8sCluster option \<Rightarrow> k8s_lib \<Rightarrow> vctx \<Rightarrow> uo \<Rightarrow> bool \<Rightarrow> unit veff" where
  "noStatus k L c ob forceStatusRequired =
     (if forceStatusRequired then v_addNotReady c ''no status available yet''
      else case k of
        None \<Rightarrow> ret ()
      | Some k \<Rightarrow>
          bindM (GetSchemaForGVK k (GroupVersionKind (fst c))) (\<lambda>r.
          case r of
            Inl e \<Rightarrow> whenM (\<not> IsNotFound e) (v_addError c (err_Msg e))
          | Inr None \<Rightarrow> ret ()
          | Inr (Some sc) \<Rightarrow>
              (case noErr None (GetNestedObject [KStr ''properties'', KStr ''status''] sc) of
                 None \<Rightarrow> ret ()
               | Some _ \<Rightarrow> bindM (ask reqlog) (\<lambda>h.
                   whenM (\<not> k_now k h - GetK8sCreationTime L ob > 15 * 10 ^ 9)
                     (v_addNotReady c ''no status available yet'')))))"

definition validateBody :: "K8sCluster option \<Rightarrow> k8s_lib \<Rightarrow> (rat \<Rightarrow> 64 word) \<Rightarrow> vctx \<Rightarrow> uo \<Rightarrow> bool \<Rightarrow> unit veff" where
  "validateBody k L f2i c ob forceStatusRequired =
     bindM (lift (GetK8sAnnotationsWithRegex resultAnnotation ob)) (\<lambda>anns.
     seqM (modify (\<lambda>s. s\<lparr>vres := (vres s)\<lparr>vr_Results := vr_Results (vres s) @
             map (\<lambda>(a, v). \<lparr>vre_Ref = fst c, vre_Annotation = a, vre_Message = v\<rparr>) anns\<rparr>\<rparr>))
     (case noErr None (GetNestedObject [KStr ''status''] ob) of
        Some (Some status) \<Rightarrow>
          bindM (getStatusFieldInt c status ''observedGeneration'' reactIgnore False (- 1)) (\<lambda>observed.
          if observed \<noteq> - 1 \<and> observed \<noteq> GetK8sGeneration f2i ob then v_addNotReady c ''Waiting for reconciliation''
          else bindM (lift (GetK8sGVK L ob)) (\<lambda>(g, v, kd). checkKind f2i c (g, kd) ob status))
      | _ \<Rightarrow> noStatus k L c ob forceStatusRequired))"

definition recovered :: "ObjectRef \<Rightarrow> unit res \<Rightarrow> ValidateResult \<Rightarrow> ValidateResult" where
  "recovered ref r v =
     (case r of
        Inr _ \<Rightarrow> v
      | Inl (Error _) \<Rightarrow> v\<lparr>vr_Ready := False\<rparr>
      | Inl e \<Rightarrow> v\<lparr>vr_Errors := vr_Errors v @ [\<lparr>de_Ref = ref, de_Message = ''panic in ValidateObject: '' @
                    (case e of Panic m \<Rightarrow> m | _ \<Rightarrow> [])\<rparr>], vr_Ready := False\<rparr>)"

definition allGood :: ValidateResult where
  "allGood = \<lparr>vr_Ready = True, vr_Warnings = [], vr_Errors = [], vr_Results = []\<rparr>"

definition ValidateObject :: "K8sCluster option \<Rightarrow> k8s_lib \<Rightarrow> (rat \<Rightarrow> 64 word) \<Rightarrow> uo \<Rightarrow> bool \<Rightarrow> bool \<Rightarrow>
    ('x, ValidateResult) keff" where
  "ValidateObject k L f2i ob notReadyIsError forceStatusRequired =
     bindM (lift (GetK8sRef L ob)) (\<lambda>ref.
     bindM (lift (GetK8sAnnotation ''kluctl.io/validate-ignore'' ob)) (\<lambda>ign.
     if ParseBoolOrFalse ign then ret allGood
     else (\<lambda>s. case validateBody k L f2i (ref, notReadyIsError) ob forceStatusRequired \<lparr>reqlog = reqlog s, vres = allGood\<rparr> of
            (r, v) \<Rightarrow> (Inr (recovered ref r (vres v)), s\<lparr>reqlog := reqlog v\<rparr>))))"

section \<open>Laws\<close>

text \<open>
  The verdict and the messages agree: an error means not ready, not ready is explained by an error or a
  warning, and by an error when that is demanded.
\<close>

definition explained :: "bool \<Rightarrow> ValidateResult \<Rightarrow> bool" where
  "explained nri v \<longleftrightarrow>
     (vr_Errors v \<noteq> [] \<longrightarrow> \<not> vr_Ready v) \<and>
     (\<not> vr_Ready v \<longrightarrow> vr_Errors v \<noteq> [] \<or> (\<not> nri \<and> vr_Warnings v \<noteq> []))"

definition vpost :: "bool \<Rightarrow> 'a res \<Rightarrow> vstate \<Rightarrow> bool" where
  "vpost nri r s \<longleftrightarrow> explained nri (vres s) \<and> (case r of Inl (Error _) \<Rightarrow> \<not> vr_Ready (vres s) | _ \<Rightarrow> True)"

definition vsound :: "bool \<Rightarrow> 'a veff \<Rightarrow> bool" where
  "vsound nri m \<longleftrightarrow> triple (\<lambda>s. explained nri (vres s)) m (vpost nri)"

lemma vsound_ret [simp]: "vsound nri (ret x)"
  by (simp add: vsound_def triple_ret vpost_def)

lemma vsound_bind:
  assumes "vsound nri m" "\<And>x. vsound nri (f x)"
  shows "vsound nri (bindM m f)"
  unfolding vsound_def
proof (rule triple_bind [where I = "\<lambda>_ s. explained nri (vres s)"])
  show "triple (\<lambda>s. explained nri (vres s)) m (\<lambda>r s. case r of Inl e \<Rightarrow> vpost nri (Inl e) s | Inr x \<Rightarrow> explained nri (vres s))"
    using assms(1) unfolding vsound_def triple_def
    by (simp add: vpost_def split: sum.splits)
  show "\<And>x. triple (\<lambda>s. explained nri (vres s)) (f x) (vpost nri)"
    using assms(2) by (simp add: vsound_def)
qed

lemma vsound_seq: "vsound nri m \<Longrightarrow> vsound nri n \<Longrightarrow> vsound nri (seqM m n)"
  by (simp add: seqM_def vsound_bind)

lemma vsound_when: "vsound nri m \<Longrightarrow> vsound nri (whenM b m)"
  by (simp add: whenM_def)

lemma vsound_for: "(\<And>x. x \<in> set xs \<Longrightarrow> vsound nri (f x)) \<Longrightarrow> vsound nri (forM f xs)"
  by (induction xs) (simp_all add: vsound_seq)

lemma vsound_reads: "vsound nri (ask g)" "vsound nri (lift (Inr x))"
  by (simp_all add: vsound_def triple_def vpost_def run_simps)

lemma vsound_lift: "(\<And>e m. r = Inl e \<Longrightarrow> e \<noteq> Error m) \<Longrightarrow> vsound nri (lift r)"
  by (auto simp: vsound_def triple_def vpost_def run_simps split: sum.splits go_error.splits)

lemma vsound_add:
  "vsound nri (v_addError c m)" "vsound nri (v_addWarning c m)" "vsound (snd c) (v_addNotReady c m)"
  by (auto simp: vsound_def triple_def vpost_def explained_def v_addError_def v_addWarning_def v_addNotReady_def
      v_notReady_def seqM_def bindM_def run_simps)

text \<open>Leaving through the panic is fine once something was reported.\<close>

lemma vsound_react:
  "er \<in> {reactError, reactNotReady} \<or> \<not> doRaise \<Longrightarrow> vsound (snd c) (reactToError c err er doRaise)"
  by (cases err; cases er)
    (auto simp: vsound_def triple_def vpost_def explained_def reactToError_def v_addError_def v_addWarning_def
      v_addNotReady_def v_notReady_def seqM_def bindM_def run_simps whenM_def v_fail_def)

lemma vsound_error_fail: "vsound nri (seqM (v_addError c m) (seqM (whenM b v_fail) (ret x)))"
  by (auto simp: vsound_def triple_def vpost_def explained_def v_addError_def seqM_def bindM_def run_simps
      whenM_def v_fail_def)

lemma vsound_getCondition:
  "er \<in> {reactError, reactNotReady} \<or> \<not> doRaise \<Longrightarrow> vsound (snd c) (getCondition c status typ er doRaise)"
  unfolding getCondition_def findConditions_def Let_def
  by (intro vsound_bind vsound_seq vsound_when vsound_react)
    (auto intro: vsound_error_fail split: list.split)

lemma vsound_getStatusField:
  "er \<in> {reactError, reactNotReady} \<or> \<not> doRaise \<Longrightarrow> vsound (snd c) (getStatusField c status f er doRaise d)"
  unfolding getStatusField_def by (auto intro!: vsound_seq vsound_react split: option.split)

lemma vsound_getStatusFieldInt:
  "er \<in> {reactError, reactNotReady} \<or> \<not> doRaise \<Longrightarrow> vsound (snd c) (getStatusFieldInt c status f er doRaise d)"
  unfolding getStatusFieldInt_def
  by (rule vsound_bind [OF vsound_getStatusField]) (auto intro!: vsound_seq vsound_react split: val.split)

lemma vsound_getStatusFieldStr:
  "er \<in> {reactError, reactNotReady} \<or> \<not> doRaise \<Longrightarrow> vsound (snd c) (getStatusFieldStr c status f er doRaise d)"
  unfolding getStatusFieldStr_def
  by (rule vsound_bind [OF vsound_getStatusField]) (auto intro!: vsound_error_fail split: val.split)

lemmas vsound_intros = vsound_bind vsound_seq vsound_when vsound_for vsound_add vsound_react
  vsound_getCondition vsound_getStatusFieldInt vsound_getStatusFieldStr vsound_reads

lemma vsound_checkPod: "vsound (snd c) (checkPod c status)"
  unfolding checkPod_def Let_def by (intro vsound_intros) (auto intro!: vsound_intros)

lemma vsound_checkJob: "vsound (snd c) (checkJob c status)"
  unfolding checkJob_def by (auto intro!: vsound_intros)

lemma vsound_checkDeployment: "vsound (snd c) (checkDeployment f2i c ob status)"
  unfolding checkDeployment_def by (auto intro!: vsound_intros split: option.split)

lemma vsound_checkPVC: "vsound (snd c) (checkPVC c status)"
  unfolding checkPVC_def by (auto intro!: vsound_intros)

lemma vsound_checkService: "vsound (snd c) (checkService c ob status)"
  unfolding checkService_def Let_def by (auto intro!: vsound_intros)

lemma vsound_checkDaemonSet: "vsound (snd c) (checkDaemonSet f2i c ob status)"
  unfolding checkDaemonSet_def Let_def by (auto intro!: vsound_intros)

lemma vsound_checkCRD: "vsound (snd c) (checkCRD c status)"
  unfolding checkCRD_def by (auto intro!: vsound_intros)

lemma vsound_checkStatefulSet: "vsound (snd c) (checkStatefulSet f2i c ob status)"
  unfolding checkStatefulSet_def Let_def by (auto intro!: vsound_intros)

lemma vsound_checkMachineDeployment: "vsound (snd c) (checkMachineDeployment c status)"
  unfolding checkMachineDeployment_def by (auto intro!: vsound_intros)

lemma vsound_checkKind: "vsound (snd c) (checkKind f2i c gk ob status)"
  unfolding checkKind_def
  by (simp add: vsound_checkPod vsound_checkJob vsound_checkDeployment vsound_checkPVC vsound_checkService
      vsound_checkDaemonSet vsound_checkCRD vsound_checkStatefulSet vsound_checkMachineDeployment)

lemma must_no_Error: "must r \<noteq> Inl (Error m)"
  by (auto simp: must_def split: sum.splits go_error.splits)

lemma vsound_must: "vsound nri (lift (must r))"
  by (rule vsound_lift) (auto simp: must_no_Error)

lemma vsound_withClientFromPool: "vsound nri (withClientFromPool k w req)"
  by (auto simp: vsound_def triple_def vpost_def withClientFromPool_def bindM_def seqM_def run_simps Let_def
      split: option.splits)

lemma vsound_liftErr: "vsound nri (liftErr r)"
  by (auto simp: vsound_def triple_def vpost_def liftErr_def run_simps split: sum.splits go_error.splits)

lemma vsound_schemaOfVersion: "vsound nri (schemaOfVersion v vs g)"
  by (induction v vs g rule: schemaOfVersion.induct)
    (auto simp: Let_def intro!: vsound_bind vsound_liftErr)

lemma vsound_GetSchemaForGVK: "vsound nri (GetSchemaForGVK k g)"
  unfolding GetSchemaForGVK_def GetSingleObject_def
  by (intro vsound_bind vsound_reads)
    (auto intro!: vsound_bind vsound_withClientFromPool vsound_liftErr vsound_schemaOfVersion
      split: sum.split option.split prod.split)

lemma vsound_noStatus: "vsound (snd c) (noStatus k L c ob fsr)"
  unfolding noStatus_def
  by (auto intro!: vsound_intros vsound_GetSchemaForGVK split: option.split sum.split)

lemma GetK8sGVK_no_Error: "GetK8sGVK L ob \<noteq> Inl (Error m)"
  by (auto simp: GetK8sGVK_def bindE_Inl_iff must_no_Error split: prod.splits)

lemma vsound_validateBody: "vsound (snd c) (validateBody k L f2i c ob fsr)"
  unfolding validateBody_def
proof (intro vsound_bind vsound_seq)
  show "vsound (snd c) (lift (GetK8sAnnotationsWithRegex resultAnnotation ob))"
    by (rule vsound_lift) (auto simp: GetK8sAnnotationsWithRegex_def GetK8sAnnotations_def bindE_Inl_iff must_no_Error)
  show "vsound (snd c) (modify (\<lambda>s. s\<lparr>vres := vres s\<lparr>vr_Results := vr_Results (vres s) @ xs\<rparr>\<rparr>))" for xs
    by (simp add: vsound_def triple_def vpost_def explained_def run_simps)
  have "vsound (snd c) (lift (GetK8sGVK L ob))" by (rule vsound_lift) (auto simp: GetK8sGVK_no_Error)
  then show "vsound (snd c)
      (case noErr None (GetNestedObject [KStr ''status''] ob) of
        Some (Some status) \<Rightarrow>
          bindM (getStatusFieldInt c status ''observedGeneration'' reactIgnore False (- 1)) (\<lambda>observed.
          if observed \<noteq> - 1 \<and> observed \<noteq> GetK8sGeneration f2i ob then v_addNotReady c ''Waiting for reconciliation''
          else bindM (lift (GetK8sGVK L ob)) (\<lambda>(g, v, kd). checkKind f2i c (g, kd) ob status))
      | _ \<Rightarrow> noStatus k L c ob fsr)"
    by (auto intro!: vsound_intros vsound_noStatus vsound_checkKind split: option.split prod.split)
qed

lemma explained_allGood: "explained nri allGood"
  by (simp add: explained_def allGood_def)

lemma explained_recovered: "vpost nri r s \<Longrightarrow> explained nri (recovered ref r (vres s))"
  by (auto simp: vpost_def explained_def recovered_def split: sum.splits go_error.splits)

lemma logs_v_add: "always (logs P) (v_addError c m)" "always (logs P) (v_addWarning c m)" "always (logs P) (v_addNotReady c m)" "always (logs P) v_fail"
  by (auto simp: always_def logs_def v_addError_def v_addWarning_def v_addNotReady_def v_notReady_def v_fail_def
      seqM_def bindM_def run_simps)

lemma logs_reactToError: "always (logs P) (reactToError c err er doRaise)"
  unfolding reactToError_def
  by (cases er; intro logs.always_intros logs_v_add) (simp_all add: logs.always_intros logs_v_add)

lemma logs_getCondition: "always (logs P) (getCondition c st typ er doRaise)"
  unfolding getCondition_def findConditions_def Let_def
  by (intro logs.always_intros logs_reactToError)
    (auto intro!: logs.always_intros logs_v_add split: list.split)

lemma logs_getStatusField: "always (logs P) (getStatusField c st f er doRaise d)"
  unfolding getStatusField_def by (intro logs.always_intros logs_reactToError)

lemma logs_getStatusFieldInt: "always (logs P) (getStatusFieldInt c st f er doRaise d)"
  unfolding getStatusFieldInt_def
  by (intro logs.always_intros logs_getStatusField)
    (auto intro!: logs.always_intros logs_reactToError split: val.split)

lemma logs_getStatusFieldStr: "always (logs P) (getStatusFieldStr c st f er doRaise d)"
  unfolding getStatusFieldStr_def
  by (intro logs.always_intros logs_getStatusField)
    (auto intro!: logs.always_intros logs_v_add split: val.split)

lemmas logs_v = logs_v_add logs_reactToError logs_getCondition logs_getStatusFieldInt logs_getStatusFieldStr

lemma logs_checkKind: "always (logs P) (checkKind f2i c gk ob st)"
  unfolding checkKind_def checkPod_def checkJob_def checkDeployment_def checkPVC_def checkService_def
    checkDaemonSet_def checkCRD_def checkStatefulSet_def checkMachineDeployment_def Let_def
  by (intro logs.always_intros logs_v)

lemma logs_validateBody:
  assumes "\<And>r. read_only r \<Longrightarrow> P r"
  shows "always (logs P) (validateBody k L f2i c ob fsr)"
proof -
  have n: "always (logs P) (noStatus k L c ob fsr)"
    unfolding noStatus_def using assms by (intro logs.always_intros logs_v logs_intros)
  show ?thesis
    unfolding validateBody_def
    by (intro logs.always_intros logs_v logs_checkKind n) (simp add: logs_def)
qed

lemma logs_ValidateObject [logs_intros]:
  assumes "\<And>r. read_only r \<Longrightarrow> P r"
  shows "always (logs P) (ValidateObject k L f2i ob nri fsr)"
proof -
  have "always (logs P) (\<lambda>s. case validateBody k L f2i (ref, nri) ob fsr \<lparr>reqlog = reqlog s, vres = allGood\<rparr> of
            (r, v) \<Rightarrow> (Inr (recovered ref r (vres v)), s\<lparr>reqlog := reqlog v\<rparr>))" for ref
  proof (rule alwaysI)
    fix s :: "'b kstate_scheme"
    have "always (logs P) (validateBody k L f2i (ref, nri) ob fsr)" by (rule logs_validateBody) (rule assms)
    then have "logs P \<lparr>reqlog = reqlog s, vres = allGood\<rparr>
        (snd (validateBody k L f2i (ref, nri) ob fsr \<lparr>reqlog = reqlog s, vres = allGood\<rparr>))" by (rule alwaysD)
    then show "logs P s (snd (case validateBody k L f2i (ref, nri) ob fsr \<lparr>reqlog = reqlog s, vres = allGood\<rparr> of
            (r, v) \<Rightarrow> (Inr (recovered ref r (vres v)), s\<lparr>reqlog := reqlog v\<rparr>)))"
      by (auto simp: logs_def split: prod.split)
  qed
  then show ?thesis unfolding ValidateObject_def by (intro logs.always_intros)
qed

lemma ValidateObject_explained:
  assumes "ValidateObject k L f2i ob notReadyIsError fsr s = (Inr v, s')"
  shows "explained notReadyIsError v"
proof -
  obtain ref where "v = allGood \<or> (\<exists>b. v = recovered ref (fst b) (vres (snd b)) \<and>
      b = validateBody k L f2i (ref, notReadyIsError) ob fsr \<lparr>reqlog = reqlog s, vres = allGood\<rparr>)"
    using assms
    by (auto simp: ValidateObject_def bindM_Inr_iff run_simps split: if_splits prod.splits) (metis fst_conv snd_conv)+
  moreover have "vpost notReadyIsError (fst b) (snd b)"
    if "b = validateBody k L f2i (ref, notReadyIsError) ob fsr \<lparr>reqlog = reqlog s, vres = allGood\<rparr>" for b
    using vsound_validateBody [of "(ref, notReadyIsError)" k L f2i ob fsr] that
    unfolding vsound_def triple_def by (simp add: explained_allGood)
  ultimately show ?thesis
    using explained_allGood explained_recovered by metis
qed

section \<open>Properties\<close>


lemma GetNestedField_single: "GetNestedField [KStr f] m = Inr (map_of m f)"
  by (simp add: GetNestedField_def GetChild_def split: option.split)

lemma getStatusFieldInt_VInt:
  "map_of st f = Some (VInt i) \<Longrightarrow> getStatusFieldInt c st f er b d = ret i"
  by (simp add: getStatusFieldInt_def getStatusField_def GetNestedField_single noErr_def)

text \<open>
  A Deployment whose controller has seen the current generation is ready exactly when it wants no
  replicas or at least as many replicas are ready as there are; the comparison is signed, and the check of
  such an object never fails.
\<close>

theorem ValidateObject_Deployment:
  assumes ref: "GetK8sRef L ob = Inr ref" and gvk: "GetK8sGVK L ob = Inr (''apps'', ver, ''Deployment'')"
    and ign: "GetK8sAnnotation ''kluctl.io/validate-ignore'' ob = Inr None"
    and anns: "GetK8sAnnotations ob = Inr anns"
    and st: "GetNestedObject [KStr ''status''] ob = Inr (Some (Some st))"
    and gen: "map_of st ''observedGeneration'' = Some (VInt (GetK8sGeneration f2i ob))"
    and want: "GetNestedInt f2i [KStr ''spec'', KStr ''replicas''] ob = Inr (Some want)"
    and ready: "map_of st ''readyReplicas'' = Some (VInt ready)" and n: "map_of st ''replicas'' = Some (VInt n)"
  shows "\<exists>v. ValidateObject k L f2i ob False fsr s = (Inr v, s) \<and> vr_Errors v = [] \<and>
    (vr_Ready v \<longleftrightarrow> want = 0 \<or> sint n \<le> sint ready)"
proof -
  let ?c = "(ref, False)"
  have "checkKind f2i ?c (''apps'', ''Deployment'') ob st =
      whenM (want \<noteq> 0) (whenM (sint ready < sint n) (v_addNotReady ?c (lessReplicas ready n)))"
    by (simp add: checkKind_def checkDeployment_def want noErr_def getStatusFieldInt_VInt [OF ready] getStatusFieldInt_VInt [OF n])
  then show ?thesis
    unfolding ValidateObject_def validateBody_def
    by (auto simp: ref gvk ign st noErr_def GetK8sAnnotationsWithRegex_def anns getStatusFieldInt_VInt [OF gen]
        ParseBoolOrFalse_def bindM_def seqM_def run_simps whenM_def recovered_def allGood_def v_addNotReady_def
        v_addWarning_def v_notReady_def)
qed

definition sample_deployment :: uo where
  "sample_deployment =
     [(''apiVersion'', VStr ''apps/v1''), (''kind'', VStr ''Deployment''),
      (''metadata'', VMap [(''name'', VStr ''web''), (''generation'', VInt 2)]),
      (''spec'', VMap [(''replicas'', VInt 3)]),
      (''status'', VMap [(''observedGeneration'', VInt 2), (''readyReplicas'', VInt 2), (''replicas'', VInt 3)])]"

theorem ValidateObject_Deployment_witness:
  "\<exists>v. ValidateObject None sample_lib (\<lambda>_. 0) sample_deployment False False \<lparr>reqlog = []\<rparr> = (Inr v, \<lparr>reqlog = []\<rparr>) \<and>
     vr_Errors v = [] \<and> (vr_Ready v \<longleftrightarrow> (3 :: 64 word) = 0 \<or> sint (3 :: 64 word) \<le> sint (2 :: 64 word))"
  by (rule ValidateObject_Deployment [of sample_lib sample_deployment
        "\<lparr>Group = ''apps'', Version = ''v1'', Kind = ''Deployment'', Name = ''web'', Namespace = []\<rparr>" "''v1''" "[]"
        "[(''observedGeneration'', VInt 2), (''readyReplicas'', VInt 2), (''replicas'', VInt 3)]"])
    code_simp+


end
