(* ===== verification/Managed_Fields.thy ===== *)
theory Managed_Fields
  imports Errors_Holder
begin

text \<open>
  Resolution of field manager conflicts of a server-side apply (\<^verbatim>\<open>pkg/diff/managed_fields.go\<close>,
  \<^verbatim>\<open>fieldpath_utils.go\<close>). The types of \<^verbatim>\<open>structured-merge-diff\<close> are modelled as data; its functions
  are the fields of \<open>fp_lib\<close>.
\<close>

section \<open>Deep equality\<close>

text \<open>\<^verbatim>\<open>reflect.DeepEqual\<close>: maps are compared by their keys, not by their order.\<close>

lemma map_of_size [termination_simp]:
  "map_of m k = Some v \<Longrightarrow> size v < Suc (size_list (size_prod (\<lambda>_. 0) size) m)"
  by (induction m) (auto split: if_splits)

lemma size_in_map [termination_simp]:
  "(k, v) \<in> set m \<Longrightarrow> size v < Suc (size_list (size_prod (\<lambda>_. 0) size) m)"
  by (induction m) auto

lemma size_in_zip [termination_simp]:
  "(v, w) \<in> set (zip l l') \<Longrightarrow> size v < Suc (size_list size l)"
  by (auto dest!: set_zip_leftD simp: size_list_estimation less_Suc_eq_le intro: size_list_estimation')

fun deepEq :: "val \<Rightarrow> val \<Rightarrow> bool" where
  "deepEq (VMap a) (VMap b) \<longleftrightarrow>
     length a = length b \<and> (\<forall>(k, v) \<in> set a. case map_of b k of None \<Rightarrow> False | Some w \<Rightarrow> deepEq v w)"
| "deepEq (VList l) (VList l') \<longleftrightarrow> length l = length l' \<and> (\<forall>(v, w) \<in> set (zip l l'). deepEq v w)"
| "deepEq a b \<longleftrightarrow> a = b"

section \<open>Field paths\<close>

datatype PathElement =
  PEFieldName string
| PEKey "(string \<times> val) list"
| PEValue val
| PEIndex int
| PENone

type_synonym fpath = "PathElement list"

text \<open>
  A \<^verbatim>\<open>fieldpath.Set\<close> is the list of its member paths. \<open>fp_Deserialize\<close> gives \<open>None\<close> for an unknown
  type of path element; \<open>fp_Iterate\<close> is the order in which the members are visited.
\<close>

record fp_lib =
  fp_Deserialize :: "string \<Rightarrow> PathElement option res"
  fp_String :: "fpath \<Rightarrow> string"
  fp_Compare :: "val \<Rightarrow> val \<Rightarrow> int"
  fp_Iterate :: "fpath list \<Rightarrow> fpath list"

definition fp_Insert :: "PathElement \<Rightarrow> fpath list option \<Rightarrow> fpath list option" where
  "fp_Insert pe children = Some ([pe] # filter (\<lambda>p. p \<noteq> [pe]) (case children of None \<Rightarrow> [] | Some c \<Rightarrow> c))"

definition fp_SetChild :: "PathElement \<Rightarrow> fpath list \<Rightarrow> fpath list option \<Rightarrow> fpath list option" where
  "fp_SetChild pe grandchildren children =
     Some (map (\<lambda>p. pe # p) grandchildren @
           filter (\<lambda>p. \<not> (length p \<ge> 2 \<and> hd p = pe)) (case children of None \<Rightarrow> [] | Some c \<Rightarrow> c))"

function convertManagedFields :: "fp_lib \<Rightarrow> uo \<Rightarrow> (fpath list option \<times> bool) res"
  and convertEntries :: "fp_lib \<Rightarrow> uo \<Rightarrow> fpath list option \<Rightarrow> bool \<Rightarrow> (fpath list option \<times> bool) res"
where
  "convertManagedFields F m =
     bindE (convertEntries F m None False) (\<lambda>(children, isMember).
     Inr (children, if children = None then True else isMember))"
| "convertEntries F [] children isMember = Inr (children, isMember)"
| "convertEntries F ((key, v) # m) children isMember =
     (if key = ''.'' then convertEntries F m children True
      else case fp_Deserialize F key of
        Inl e \<Rightarrow> Inl (Error ''parsing key as path element'')
      | Inr None \<Rightarrow> convertEntries F m children isMember
      | Inr (Some pe) \<Rightarrow>
          (case v of
             VMap m2 \<Rightarrow>
               (case convertManagedFields F m2 of
                  Inl e \<Rightarrow> Inl e
                | Inr (grandchildren, childIsMember) \<Rightarrow>
                    (let children = (if childIsMember then fp_Insert pe children else children);
                         children = (case grandchildren of None \<Rightarrow> children | Some g \<Rightarrow> fp_SetChild pe g children)
                     in convertEntries F m children isMember))
           | _ \<Rightarrow> Inl (Error ''value is not a map'')))"
  by pat_completeness auto
termination
  by (relation "measures [\<lambda>x. case x of Inl (F, m) \<Rightarrow> size_list (size_prod (\<lambda>_. 0) size) m
                                 | Inr (F, m, c, i) \<Rightarrow> size_list (size_prod (\<lambda>_. 0) size) m,
                         \<lambda>x. case x of Inl _ \<Rightarrow> 1 | Inr _ \<Rightarrow> 0]") auto

section \<open>Paths of conflicts\<close>

definition checkListItemMatch :: "fp_lib \<Rightarrow> val \<Rightarrow> PathElement \<Rightarrow> int \<Rightarrow> bool res" where
  "checkListItemMatch F v pe index =
     (case pe of
        PEKey fs \<Rightarrow>
          (case v of
             VMap m \<Rightarrow> Inr (list_all (\<lambda>(n, fv). case map_of m n of None \<Rightarrow> False | Some c \<Rightarrow> fp_Compare F c fv = 0) fs)
           | _ \<Rightarrow> Inl (Error ''object is not a map''))
      | PEValue w \<Rightarrow> Inr (fp_Compare F v w = 0)
      | PEIndex i \<Rightarrow> Inr (i = index)
      | _ \<Rightarrow> Inl (Error ''unexpected path element''))"

fun findListItem :: "fp_lib \<Rightarrow> PathElement \<Rightarrow> nat \<Rightarrow> val list \<Rightarrow> (nat \<times> val) option res" where
  "findListItem F pe i [] = Inr None"
| "findListItem F pe i (x # l) =
     bindE (checkListItemMatch F x pe (int i)) (\<lambda>match.
     if match then Inr (Some (i, x)) else findListItem F pe (Suc i) l)"

fun keyListFrom :: "fp_lib \<Rightarrow> val \<Rightarrow> fpath \<Rightarrow> keypath \<Rightarrow> (keypath \<times> bool) res" where
  "keyListFrom F v [] acc = Inr (acc, True)"
| "keyListFrom F v (PEFieldName f # p) acc =
     bindE (GetChild v (KStr f)) (\<lambda>r.
     case r of None \<Rightarrow> Inr (acc @ [KStr f], False) | Some x \<Rightarrow> keyListFrom F x p (acc @ [KStr f]))"
| "keyListFrom F v (pe # p) acc =
     (case v of
        VList l \<Rightarrow>
          bindE (findListItem F pe 0 l) (\<lambda>r.
          case r of None \<Rightarrow> Inr (acc, False) | Some (i, x) \<Rightarrow> keyListFrom F x p (acc @ [KInt (int i)]))
      | _ \<Rightarrow> Inl (Error ''object is not a list''))"

definition convertToKeyList :: "fp_lib \<Rightarrow> uo \<Rightarrow> fpath \<Rightarrow> (keypath \<times> bool) res" where
  "convertToKeyList F remote path = keyListFrom F (VMap remote) path []"

section \<open>Resolution\<close>

record managersByField =
  mbf_pathes :: "fpath list"
  mbf_managers :: "string list"

definition addManager :: "fp_lib \<Rightarrow> string \<Rightarrow> fpath \<Rightarrow> (string, managersByField) gomap \<Rightarrow> (string, managersByField) gomap" where
  "addManager F mgr path ms =
     (let s = fp_String F path;
          m = (case map_of ms s of None \<Rightarrow> \<lparr>mbf_pathes = [], mbf_managers = []\<rparr> | Some m \<Rightarrow> m)
      in AList.update s \<lparr>mbf_pathes = (if path \<in> set (mbf_pathes m) then mbf_pathes m else mbf_pathes m @ [path]),
                         mbf_managers = mbf_managers m @ [mgr]\<rparr> ms)"

text \<open>
  An entry whose \<^verbatim>\<open>fieldsV1\<close> is null or has no members dereferences a nil pointer.
\<close>

definition collectManagers :: "fp_lib \<Rightarrow> uo \<Rightarrow> (string, managersByField) gomap \<Rightarrow> (string, managersByField) gomap res" where
  "collectManagers F mf ms =
     bindE (GetNestedObject [KStr ''fieldsV1''] mf) (\<lambda>fields.
     case fields of
       None \<Rightarrow> Inr ms
     | Some None \<Rightarrow> Inl (Panic ''nil pointer dereference'')
     | Some (Some m) \<Rightarrow>
         bindE (convertManagedFields F m) (\<lambda>(fieldSet, _).
         bindE (GetNestedString [KStr ''manager''] mf) (\<lambda>mgr.
         case mgr of
           None \<Rightarrow> Inl (Error ''manager field is missing'')
         | Some mgr \<Rightarrow>
             (case fieldSet of
                None \<Rightarrow> Inl (Panic ''nil pointer dereference'')
              | Some ps \<Rightarrow> Inr (foldl (\<lambda>ms p. addManager F mgr p ms) ms (fp_Iterate F ps))))))"

definition forceApplyFieldAnnotationRegex :: "string \<Rightarrow> bool" where
  "forceApplyFieldAnnotationRegex = kluctlAnnotation ''force-apply-field''"

definition ignoreConflictsFieldAnnotationRegex :: "string \<Rightarrow> bool" where
  "ignoreConflictsFieldAnnotationRegex = kluctlAnnotation ''ignore-conflicts-field''"

definition overwriteAllowed :: "string \<Rightarrow> bool" where
  "overwriteAllowed mgr \<longleftrightarrow>
     mgr \<in> {''kluctl'', ''kubectl'', ''rancher'', ''k9s''} \<or> (HasPrefix mgr ''kubectl-'' \<and> CHR 0x0A \<notin> set mgr)"

definition collectFields :: "jp_lib \<Rightarrow> uo \<Rightarrow> (string \<Rightarrow> bool) \<Rightarrow> string list res" where
  "collectFields J ob regex =
     bindE (GetK8sAnnotationsWithRegex regex ob) (\<lambda>anns.
     bindE (mapE (\<lambda>(_, v). bindE (NewMyJsonPath J v) (\<lambda>j. ListMatchingFields J j ob)) anns) (\<lambda>fields.
     Inr (map ToJsonPath (concat fields))))"

record LostOwnership =
  lo_Field :: string
  lo_Message :: string

text \<open>What decides about a conflict: all or some fields are forced or left alone.\<close>

record conflict_rules =
  cr_forceApplyAll :: bool
  cr_ignoreConflictsAll :: bool
  cr_forceApplyFields :: "string list"
  cr_ignoreConflictFields :: "string list"

definition conflictRules :: "jp_lib \<Rightarrow> uo \<Rightarrow> conflict_rules res" where
  "conflictRules J local =
     bindE (GetK8sAnnotation ''kluctl.io/force-apply'' local) (\<lambda>fa.
     bindE (GetK8sAnnotation ''kluctl.io/ignore-conflicts'' local) (\<lambda>ic.
     bindE (collectFields J local forceApplyFieldAnnotationRegex) (\<lambda>ff.
     bindE (collectFields J local ignoreConflictsFieldAnnotationRegex) (\<lambda>fi.
     Inr \<lparr>cr_forceApplyAll = ParseBoolOrFalse fa, cr_ignoreConflictsAll = ParseBoolOrFalse ic,
          cr_forceApplyFields = ff, cr_ignoreConflictFields = fi\<rparr>))))"

definition ignoreConflict :: "conflict_rules \<Rightarrow> keypath \<Rightarrow> keypath \<Rightarrow> bool" where
  "ignoreConflict R localKeyPath remoteKeyPath \<longleftrightarrow>
     cr_ignoreConflictsAll R \<or> ToJsonPath localKeyPath \<in> set (cr_ignoreConflictFields R) \<or>
     ToJsonPath remoteKeyPath \<in> set (cr_ignoreConflictFields R)"

definition overwriteConflict :: "conflict_rules \<Rightarrow> string list \<Rightarrow> keypath \<Rightarrow> keypath \<Rightarrow> bool" where
  "overwriteConflict R managers localKeyPath remoteKeyPath \<longleftrightarrow>
     \<not> ignoreConflict R localKeyPath remoteKeyPath \<and>
     (cr_forceApplyAll R \<or> ToJsonPath localKeyPath \<in> set (cr_forceApplyFields R) \<or>
      ToJsonPath remoteKeyPath \<in> set (cr_forceApplyFields R) \<or> list_ex overwriteAllowed managers)"

definition resolveCause :: "fp_lib \<Rightarrow> jp_lib \<Rightarrow> conflict_rules \<Rightarrow> (string, managersByField) gomap \<Rightarrow> uo \<Rightarrow> uo \<Rightarrow>
    StatusCause \<Rightarrow> uo \<times> LostOwnership list \<Rightarrow> (uo \<times> LostOwnership list) res" where
  "resolveCause F J R ms local remote cause acc =
     (if cause_Type cause \<noteq> ''FieldManagerConflict'' then Inl (Error (''unknown type '' @ cause_Type cause))
      else case map_of ms (cause_Field cause) of
        None \<Rightarrow> Inl (Error (cause_Message cause @ ''. Could not find matching field for path''))
      | Some mf \<Rightarrow>
          (case mbf_pathes mf of
             [path] \<Rightarrow>
               bindE (convertToKeyList F local path) (\<lambda>(localKeyPath, found).
               if \<not> found then Inl (Error (cause_Message cause @ ''. Field not found in local object''))
               else bindE (convertToKeyList F remote path) (\<lambda>(remoteKeyPath, found).
               if \<not> found then Inl (Error (cause_Message cause @ ''. Field not found in remote object''))
               else case GetNestedField localKeyPath local of
                 Inr (Some localValue) \<Rightarrow>
                   (case GetNestedField remoteKeyPath remote of
                      Inr (Some remoteValue) \<Rightarrow>
                        if overwriteConflict R (mbf_managers mf) localKeyPath remoteKeyPath then Inr acc
                        else bindE (NewMyJsonPath J (ToJsonPath localKeyPath)) (\<lambda>j.
                          case jp_Del J j (fst acc) of
                            (_, Some e) \<Rightarrow> Inl e
                          | (ob', None) \<Rightarrow>
                              Inr (ob', if \<not> deepEq localValue remoteValue \<and> \<not> ignoreConflict R localKeyPath remoteKeyPath
                                        then snd acc @ [\<lparr>lo_Field = cause_Field cause, lo_Message = cause_Message cause\<rparr>]
                                        else snd acc))
                    | _ \<Rightarrow> Inl (Panic ''field not found in remote object...which can't be!''))
               | _ \<Rightarrow> Inl (Panic ''field not found in local object...which can't be!'')))
           | _ \<Rightarrow> Inl (Error (cause_Message cause @ ''. Field path is ambiguous''))))"

text \<open>The causes of a status without details are a nil dereference.\<close>

definition ResolveFieldManagerConflicts :: "fp_lib \<Rightarrow> jp_lib \<Rightarrow> uo \<Rightarrow> uo \<Rightarrow> StatusCause list option \<Rightarrow>
    (uo \<times> LostOwnership list) res" where
  "ResolveFieldManagerConflicts F J local remote details =
     bindE (foldE (collectManagers F) (GetK8sManagedFields remote) []) (\<lambda>ms.
     bindE (conflictRules J local) (\<lambda>R.
     case details of
       None \<Rightarrow> Inl (Panic ''nil pointer dereference'')
     | Some causes \<Rightarrow> foldE (resolveCause F J R ms local remote) causes (Clone local, [])))"

section \<open>Laws\<close>

lemma findListItem_Some:
  "findListItem F pe i l = Inr (Some (j, x)) \<Longrightarrow> \<exists>n < length l. j = i + n \<and> l ! n = x"
proof (induction l arbitrary: i)
  case (Cons y l)
  then obtain b where b: "checkListItemMatch F y pe (int i) = Inr b"
    "(if b then Inr (Some (i, y)) else findListItem F pe (Suc i) l) = Inr (Some (j, x))"
    by (auto simp: bindE_Inr_iff)
  show ?case
  proof (cases b)
    case False
    then have "\<exists>n < length l. j = Suc i + n \<and> l ! n = x" using b(2) Cons.IH [of "Suc i"] by simp
    then obtain n where "n < length l" "j = Suc i + n" "l ! n = x" by blast
    then show ?thesis by (intro exI [of _ "Suc n"]) simp
  qed (use b in auto)
qed simp

lemma keyListFrom_sound:
  "keyListFrom F v p acc = Inr (ks, True) \<Longrightarrow> \<exists>rest x. ks = acc @ rest \<and> getPath rest v = Inr (Some x)"
proof (induction F v p acc arbitrary: ks rule: keyListFrom.induct)
  case (2 F v f p acc)
  then obtain x where x: "GetChild v (KStr f) = Inr (Some x)" "keyListFrom F x p (acc @ [KStr f]) = Inr (ks, True)"
    by (auto simp: bindE_Inr_iff split: option.splits)
  then obtain rest y where "ks = (acc @ [KStr f]) @ rest" "getPath rest x = Inr (Some y)"
    using 2(1) by blast
  then show ?case using x(1) by (intro exI [of _ "KStr f # rest"] exI [of _ y]) simp
qed (fastforce simp: bindE_Inr_iff GetChild_def split: option.splits val.splits dest: findListItem_Some)+

text \<open>A field path that was found leads to a value, so the checks behind it cannot fail.\<close>

lemma convertToKeyList_found:
  "convertToKeyList F ob path = Inr (ks, True) \<Longrightarrow> \<exists>v. GetNestedField ks ob = Inr (Some v)"
  using keyListFrom_sound [of F "VMap ob" path "[]" ks] by (auto simp: convertToKeyList_def GetNestedField_def)

lemma checkListItemMatch_no_panic: "checkListItemMatch F x pe i \<noteq> Inl (Panic m)"
  by (auto simp: checkListItemMatch_def split: PathElement.splits val.splits)

lemma findListItem_no_panic: "findListItem F pe i l \<noteq> Inl (Panic m)"
  by (induction l arbitrary: i) (auto simp: bindE_Inl_iff checkListItemMatch_no_panic split: if_splits)

lemma convertToKeyList_no_panic: "convertToKeyList F ob p \<noteq> Inl (Panic m)"
proof -
  have "keyListFrom F v p acc \<noteq> Inl (Panic m)" for v acc
    by (induction F v p acc rule: keyListFrom.induct)
      (auto simp: bindE_Inl_iff GetChild_def findListItem_no_panic split: option.splits val.splits if_splits)
  then show ?thesis by (simp add: convertToKeyList_def)
qed

text \<open>
  The location of a contested field in an object, and the locations the resolution gives up: the ones
  kluctl may not overwrite.
\<close>

definition conflictPath :: "fp_lib \<Rightarrow> (string, managersByField) gomap \<Rightarrow> uo \<Rightarrow> StatusCause \<Rightarrow> keypath option" where
  "conflictPath F ms ob cause =
     (case map_of ms (cause_Field cause) of
        None \<Rightarrow> None
      | Some mf \<Rightarrow>
          (case mbf_pathes mf of
             [path] \<Rightarrow> (case convertToKeyList F ob path of Inr (ks, True) \<Rightarrow> Some ks | _ \<Rightarrow> None)
           | _ \<Rightarrow> None))"

definition managersOf :: "(string, managersByField) gomap \<Rightarrow> StatusCause \<Rightarrow> string list" where
  "managersOf ms cause = (case map_of ms (cause_Field cause) of None \<Rightarrow> [] | Some mf \<Rightarrow> mbf_managers mf)"

definition yielded :: "fp_lib \<Rightarrow> conflict_rules \<Rightarrow> (string, managersByField) gomap \<Rightarrow> uo \<Rightarrow> uo \<Rightarrow> StatusCause \<Rightarrow> keypath list" where
  "yielded F R ms local remote cause =
     (case (conflictPath F ms local cause, conflictPath F ms remote cause) of
        (Some l, Some r) \<Rightarrow> if overwriteConflict R (managersOf ms cause) l r then [] else [l]
      | _ \<Rightarrow> [])"

definition lostHere :: "fp_lib \<Rightarrow> conflict_rules \<Rightarrow> (string, managersByField) gomap \<Rightarrow> uo \<Rightarrow> uo \<Rightarrow> StatusCause \<Rightarrow> LostOwnership list" where
  "lostHere F R ms local remote cause =
     (case (conflictPath F ms local cause, conflictPath F ms remote cause) of
        (Some l, Some r) \<Rightarrow>
          (case (GetNestedField l local, GetNestedField r remote) of
             (Inr (Some lv), Inr (Some rv)) \<Rightarrow>
               if overwriteConflict R (managersOf ms cause) l r \<or> deepEq lv rv \<or> ignoreConflict R l r then []
               else [\<lparr>lo_Field = cause_Field cause, lo_Message = cause_Message cause\<rparr>]
           | _ \<Rightarrow> [])
      | _ \<Rightarrow> [])"

lemma resolveCause_Inr:
  assumes "resolveCause F J R ms local remote cause acc = Inr acc'"
  shows "snd acc' = snd acc @ lostHere F R ms local remote cause \<and>
    (yielded F R ms local remote cause = [] \<and> fst acc' = fst acc \<or>
     (\<exists>p. yielded F R ms local remote cause = [p] \<and> jp_Del J (ToJsonPath p) (fst acc) = (fst acc', None)))"
proof -
  obtain mf where mf: "map_of ms (cause_Field cause) = Some mf"
    using assms by (auto simp: resolveCause_def split: if_splits option.splits)
  obtain path where path: "mbf_pathes mf = [path]"
    using assms mf by (auto simp: resolveCause_def split: if_splits list.splits)
  obtain l r where l: "convertToKeyList F local path = Inr (l, True)" and r: "convertToKeyList F remote path = Inr (r, True)"
    using assms mf path by (auto simp: resolveCause_def bindE_Inr_iff split: if_splits prod.splits)
  obtain lv rv where v: "GetNestedField l local = Inr (Some lv)" "GetNestedField r remote = Inr (Some rv)"
    using convertToKeyList_found [OF l] convertToKeyList_found [OF r] by blast
  have c: "conflictPath F ms local cause = Some l" "conflictPath F ms remote cause = Some r" "managersOf ms cause = mbf_managers mf"
    using mf path l r by (simp_all add: conflictPath_def managersOf_def)
  obtain o1 e1 where d: "jp_Del J (ToJsonPath l) (fst acc) = (o1, e1)" by fastforce
  show ?thesis
    using assms
    by (cases e1; cases "jp_ParseErr J (ToJsonPath l)")
      (auto simp: resolveCause_def yielded_def lostHere_def NewMyJsonPath_def mf path l r v c d split: if_splits)
qed

lemma resolveCauses_Inr:
  assumes "foldE (resolveCause F J R ms local remote) causes acc = Inr (rt, lost)"
    and "\<And>cause p ob. cause \<in> set causes \<Longrightarrow> p \<in> set (yielded F R ms local remote cause) \<Longrightarrow>
           jp_Del J (ToJsonPath p) ob = RemoveNestedField p ob"
  shows "removeAll (concat (map (yielded F R ms local remote) causes)) (fst acc) = (rt, None) \<and>
    lost = snd acc @ concat (map (lostHere F R ms local remote) causes)"
  using assms
proof (induction causes arbitrary: acc)
  case (Cons cause causes)
  obtain acc1 where 1: "resolveCause F J R ms local remote cause acc = Inr acc1"
    "foldE (resolveCause F J R ms local remote) causes acc1 = Inr (rt, lost)"
    using Cons.prems(1) by (auto simp: bindE_Inr_iff)
  have IH: "removeAll (concat (map (yielded F R ms local remote) causes)) (fst acc1) = (rt, None) \<and>
    lost = snd acc1 @ concat (map (lostHere F R ms local remote) causes)"
    by (rule Cons.IH [OF 1(2)]) (use Cons.prems(2) in auto)
  show ?case using resolveCause_Inr [OF 1(1)] IH Cons.prems(2) [of cause] by auto
qed auto

lemma resolveCause_no_panic:
  assumes del: "\<And>p ob e. snd (jp_Del J p ob) = Some e \<Longrightarrow> \<not> is_panic e"
  shows "resolveCause F J R ms local remote cause acc \<noteq> Inl (Panic m)"
proof
  assume a: "resolveCause F J R ms local remote cause acc = Inl (Panic m)"
  obtain mf where mf: "map_of ms (cause_Field cause) = Some mf"
    using a by (auto simp: resolveCause_def split: if_splits option.splits)
  obtain path where path: "mbf_pathes mf = [path]"
    using a mf by (auto simp: resolveCause_def split: if_splits list.splits)
  obtain l r where l: "convertToKeyList F local path = Inr (l, True)" and r: "convertToKeyList F remote path = Inr (r, True)"
    using a mf path convertToKeyList_no_panic
    by (auto simp: resolveCause_def bindE_Inl_iff split: if_splits prod.splits)
  obtain lv rv where v: "GetNestedField l local = Inr (Some lv)" "GetNestedField r remote = Inr (Some rv)"
    using convertToKeyList_found [OF l] convertToKeyList_found [OF r] by blast
  obtain o1 e1 where d: "jp_Del J (ToJsonPath l) (fst acc) = (o1, e1)" by fastforce
  then have "e1 \<noteq> Some (Panic m)" using del [of "ToJsonPath l" "fst acc" "Panic m"] by auto
  then show False using a
    by (cases e1; cases "jp_ParseErr J (ToJsonPath l)")
      (auto simp: resolveCause_def NewMyJsonPath_def mf path l r v d split: if_splits)
qed

section \<open>Properties\<close>


text \<open>
  C21: The two panics of the resolution on a field that was just found are unreachable: with readable managed
  fields and annotations, and a JSON path library that does not panic, the resolution ends with a result or an
  error.
\<close>

theorem ResolveFieldManagerConflicts_no_panic:
  assumes "foldE (collectManagers F) (GetK8sManagedFields remote) [] = Inr ms" and "conflictRules J local = Inr R"
    and "\<And>p ob e. snd (jp_Del J p ob) = Some e \<Longrightarrow> \<not> is_panic e"
  shows "ResolveFieldManagerConflicts F J local remote (Some causes) \<noteq> Inl (Panic m)"
proof -
  have "resolveCause F J R ms local remote cause acc \<noteq> Inl (Panic m)" for cause acc
    by (rule resolveCause_no_panic) (rule assms(3))
  then have "foldE (resolveCause F J R ms local remote) causes acc \<noteq> Inl (Panic m)" for acc
    by (induction causes arbitrary: acc) (auto simp: bindE_Inl_iff)
  then show ?thesis using assms by (simp add: ResolveFieldManagerConflicts_def)
qed

definition sample_fp :: fp_lib where
  "sample_fp = \<lparr>
     fp_Deserialize = (\<lambda>s. if HasPrefix s ''f:'' then Inr (Some (PEFieldName (drop 2 s))) else Inr None),
     fp_String = (\<lambda>p. concat (map (\<lambda>e. case e of PEFieldName f \<Rightarrow> ''.'' @ f | _ \<Rightarrow> ''[]'') p)),
     fp_Compare = (\<lambda>v w. if v = w then 0 else 1),
     fp_Iterate = (\<lambda>ps. ps)\<rparr>"

definition sample_jp :: jp_lib where
  "sample_jp = \<lparr>
     jp_ParseErr = (\<lambda>_. None),
     jp_Locate = (\<lambda>_ _. []),
     jp_Del = (\<lambda>p ob. if p = ''spec.replicas'' then RemoveNestedField [KStr ''spec'', KStr ''replicas''] ob else (ob, None)),
     jp_Set = (\<lambda>_ _ ob. (ob, None))\<rparr>"

definition sample_local :: uo where
  "sample_local =
     [(''metadata'', VMap [(''name'', VStr ''web'')]),
      (''spec'', VMap [(''replicas'', VInt 3), (''paused'', VBool False)])]"

definition sample_remote :: uo where
  "sample_remote =
     [(''metadata'', VMap [(''name'', VStr ''web''),
         (''managedFields'', VList [VMap [(''manager'', VStr ''hpa''),
            (''fieldsV1'', VMap [(''f:spec'', VMap [(''f:replicas'', VMap [])])])]])]),
      (''spec'', VMap [(''replicas'', VInt 7), (''paused'', VBool False)])]"

definition sample_cause :: StatusCause where
  "sample_cause = \<lparr>cause_Type = ''FieldManagerConflict'', cause_Message = ''conflict with hpa'', cause_Field = ''.spec.replicas''\<rparr>"

lemma sample_managers:
  "foldE (collectManagers sample_fp) (GetK8sManagedFields sample_remote) [] =
     Inr [(''.spec.replicas'', \<lparr>mbf_pathes = [[PEFieldName ''spec'', PEFieldName ''replicas'']], mbf_managers = [''hpa'']\<rparr>)]"
  by code_simp

lemma sample_rules:
  "conflictRules sample_jp sample_local = Inr \<lparr>cr_forceApplyAll = False, cr_ignoreConflictsAll = False,
     cr_forceApplyFields = [], cr_ignoreConflictFields = []\<rparr>"
  by code_simp


theorem ResolveFieldManagerConflicts_no_panic_witness:
  "ResolveFieldManagerConflicts sample_fp sample_jp sample_local sample_remote (Some [sample_cause]) \<noteq> Inl (Panic ''x'')"
proof (rule ResolveFieldManagerConflicts_no_panic [OF sample_managers sample_rules])
  fix p ob e
  assume "snd (jp_Del sample_jp p ob) = Some e"
  then show "\<not> is_panic e"
    by (auto simp: sample_jp_def RemoveNestedField_def GetChild_def split: if_splits sum.splits option.splits val.splits key.splits prod.splits)
qed

end
