(* ===== verification/Apply_Utils.thy ===== *)
theory Apply_Utils
  imports Delete_Utils Validation Managed_Fields
begin

text \<open>
  Applying objects to the cluster (\<^verbatim>\<open>apply_utils.go\<close>): the state of one \<^verbatim>\<open>ApplyUtil\<close> with the parts it
  shares with its siblings (error collector, abort signal, observed namespaces and CRDs), and its operations on a
  single object. Status output is not modelled.
\<close>

section \<open>State and environment\<close>

record ApplyUtilOptions =
  o_ForceApply :: bool
  o_ReplaceOnError :: bool
  o_ForceReplaceOnError :: bool
  o_DryRun :: bool
  o_AbortOnError :: bool
  o_ReadinessTimeout :: int
  o_NoWait :: bool

record ApplyUtil = kstate +
  dew :: DeploymentErrorsAndWarnings
  errorCount :: nat
  warningCount :: nat
  newObjects :: "(ObjectRef, uo) gomap"
  appliedObjects :: "(ObjectRef, uo) gomap"
  appliedHookObjects :: "(ObjectRef, uo) gomap"
  deletedObjects :: "(ObjectRef, bool) gomap"
  deletedHookObjects :: "(ObjectRef, bool) gomap"
  abortSignal :: bool
  allNamespaces :: "(string, uo) gomap"
  allCRDs :: "(gvk, bool) gomap"

type_synonym 'a aeff = "(ApplyUtil, 'a) eff"

text \<open>
  What an \<^verbatim>\<open>ApplyUtil\<close> reads: the cluster, the snapshot, the options and, as parameters, random names, the
  versions of a CRD as decoded by the API machinery, the readiness timer, the parser of durations and the order in
  which Go iterates over a map of references.
\<close>

record ApplyEnv =
  ae_k :: K8sCluster
  ae_ru :: RemoteObjectUtils
  ae_o :: ApplyUtilOptions
  ae_fp :: fp_lib
  ae_f2i :: "rat \<Rightarrow> 64 word"
  ae_RandomString :: "request list \<Rightarrow> string"
  ae_crdVersions :: "uo \<Rightarrow> gvk list option"
  ae_timerFired :: "request list \<Rightarrow> int \<Rightarrow> bool"
  ae_ParseDuration :: "string \<Rightarrow> int res"
  ae_order :: "ObjectRef list \<Rightarrow> ObjectRef list"

abbreviation ae_L :: "ApplyEnv \<Rightarrow> k8s_lib" where
  "ae_L E \<equiv> k_lib (ae_k E)"

definition NewApplyUtil :: "DeploymentErrorsAndWarnings \<Rightarrow> bool \<Rightarrow> (string, uo) gomap \<Rightarrow> (gvk, bool) gomap \<Rightarrow> request list \<Rightarrow> ApplyUtil" where
  "NewApplyUtil d abort nss crds h = \<lparr>reqlog = h, dew = d, errorCount = 0, warningCount = 0, newObjects = [],
     appliedObjects = [], appliedHookObjects = [], deletedObjects = [], deletedHookObjects = [], abortSignal = abort,
     allNamespaces = nss, allCRDs = crds\<rparr>"

section \<open>Results, warnings and errors\<close>

definition handleResult :: "ApplyEnv \<Rightarrow> uo option \<Rightarrow> bool \<Rightarrow> unit aeff" where
  "handleResult E appliedObject hook =
     (case appliedObject of
        None \<Rightarrow> throw (Panic ''nil pointer dereference'')
      | Some ob \<Rightarrow>
          bindM (lift (GetK8sRef (ae_L E) ob)) (\<lambda>ref.
          seqM (whenM hook (modify (\<lambda>s. s\<lparr>appliedHookObjects := AList.update ref ob (appliedHookObjects s)\<rparr>)))
          (seqM (modify (\<lambda>s. s\<lparr>appliedObjects := AList.update ref ob (appliedObjects s)\<rparr>))
                (whenM (\<not> hook \<and> GetRemoteObject (ae_ru E) ref = None)
                   (modify (\<lambda>s. s\<lparr>newObjects := AList.update ref ob (newObjects s)\<rparr>))))))"

definition handleApiWarnings :: "ObjectRef \<Rightarrow> ApiWarning list \<Rightarrow> unit aeff" where
  "handleApiWarnings ref ws =
     modify (\<lambda>s. s\<lparr>dew := dew_AddApiWarnings ref ws (dew s), warningCount := warningCount s + length ws\<rparr>)"

definition HandleWarning :: "ObjectRef \<Rightarrow> string \<Rightarrow> unit aeff" where
  "HandleWarning ref w = modify (\<lambda>s. s\<lparr>dew := dew_AddWarning ref w (dew s), warningCount := warningCount s + 1\<rparr>)"

definition HandleError :: "ApplyEnv \<Rightarrow> ObjectRef \<Rightarrow> api_err \<Rightarrow> unit aeff" where
  "HandleError E ref e =
     modify (\<lambda>s. s\<lparr>abortSignal := abortSignal s \<or> IsContextErr e \<or> o_AbortOnError (ae_o E),
                   dew := dew_AddError ref (err_Msg e) (dew s), errorCount := errorCount s + 1\<rparr>)"

definition HadError :: "ObjectRef \<Rightarrow> bool aeff" where
  "HadError ref = ask (\<lambda>s. dew_HadError (dew s) ref)"

section \<open>Deleting one object\<close>

definition markDeleted :: "ObjectRef \<Rightarrow> bool \<Rightarrow> unit aeff" where
  "markDeleted ref hook =
     modify (\<lambda>s. if hook then s\<lparr>deletedHookObjects := AList.update ref True (deletedHookObjects s)\<rparr>
                 else s\<lparr>deletedObjects := AList.update ref True (deletedObjects s)\<rparr>)"

text \<open>The maps that decide the simulated deletion are the ones of the other kind: hooks look at the applied objects.\<close>

definition DeleteObject :: "ApplyEnv \<Rightarrow> ObjectRef \<Rightarrow> bool \<Rightarrow> bool aeff" where
  "DeleteObject E ref hook =
     bindM (DeleteSingleObject (ae_k E) ref \<lparr>del_ForceDryRun = o_DryRun (ae_o E), del_NoWait = False, del_IgnoreNotFoundError = False\<rparr>)
       (\<lambda>(apiWarnings, err).
     seqM (handleApiWarnings ref apiWarnings)
     (case err of
        None \<Rightarrow> seqM (markDeleted ref hook) (ret True)
      | Some e \<Rightarrow>
          if \<not> IsNotFound e then seqM (HandleError E ref e) (ret False)
          else if \<not> o_DryRun (ae_o E) then ret False
          else bindM (ask (\<lambda>s. map_of (if hook then appliedObjects s else appliedHookObjects s) ref \<noteq> None)) (\<lambda>wasApplied.
            if \<not> wasApplied then ret False
            else seqM (markDeleted ref hook) (ret True))))"

section \<open>Retries\<close>

definition patchOptions :: "ApplyEnv \<Rightarrow> bool \<Rightarrow> PatchOptions" where
  "patchOptions E force = \<lparr>patch_ForceDryRun = o_DryRun (ae_o E), patch_ForceApply = force\<rparr>"

definition retryApplyForceReplace :: "ApplyEnv \<Rightarrow> uo \<Rightarrow> bool \<Rightarrow> uo option \<Rightarrow> api_err \<Rightarrow> unit aeff" where
  "retryApplyForceReplace E x hook remoteObject applyError =
     bindM (lift (GetK8sRef (ae_L E) x)) (\<lambda>ref.
     if \<not> o_ForceReplaceOnError (ae_o E) then HandleError E ref applyError
     else bindM (lift (isSkipDelete x)) (\<lambda>skip1.
       bindM (case remoteObject of None \<Rightarrow> ret skip1
              | Some r \<Rightarrow> if skip1 then ret True else lift (isSkipDelete r)) (\<lambda>skipDelete.
       if skipDelete then HandleError E ref applyError
       else seqM (HandleWarning ref (''patching '' @ ObjectRef_String ref @ '' failed, retrying by deleting and re-applying''))
         (bindM (DeleteObject E ref hook) (\<lambda>deleted.
          if \<not> deleted then ret ()
          else if \<not> o_DryRun (ae_o E) then
            bindM (k8s_ApplyObject (ae_k E) x (patchOptions E False)) (\<lambda>(r, apiWarnings, err).
            seqM (handleApiWarnings ref apiWarnings)
            (case err of Some e \<Rightarrow> HandleError E ref e | None \<Rightarrow> handleResult E r hook))
          else handleResult E (Some x) hook)))))"

text \<open>The copy \<^verbatim>\<open>x2\<close> with the resource version is built, and not used.\<close>

definition retryApplyWithReplace :: "ApplyEnv \<Rightarrow> uo \<Rightarrow> bool \<Rightarrow> uo option \<Rightarrow> api_err \<Rightarrow> unit aeff" where
  "retryApplyWithReplace E x hook remoteObject applyError =
     bindM (lift (GetK8sRef (ae_L E) x)) (\<lambda>ref.
     case remoteObject of
       None \<Rightarrow> HandleError E ref applyError
     | Some remote \<Rightarrow>
         if \<not> o_ReplaceOnError (ae_o E) \<and> \<not> o_ForceReplaceOnError (ae_o E) then HandleError E ref applyError
         else seqM (HandleWarning ref (''patching '' @ ObjectRef_String ref @ '' failed, retrying with replace instead of patch''))
           (bindM (lift (SetK8sResourceVersion (GetK8sResourceVersion remote) (Clone x))) (\<lambda>x2.
            bindM (k8s_UpdateObject (ae_k E) x \<lparr>upd_ForceDryRun = o_DryRun (ae_o E)\<rparr>) (\<lambda>(r, apiWarnings, err).
            seqM (handleApiWarnings ref apiWarnings)
            (case err of Some e \<Rightarrow> retryApplyForceReplace E x hook remoteObject e | None \<Rightarrow> handleResult E r hook)))))"

definition applyResolved :: "ApplyEnv \<Rightarrow> ObjectRef \<Rightarrow> uo \<Rightarrow> bool \<Rightarrow> unit aeff" where
  "applyResolved E ref x2 hook =
     bindM (k8s_ApplyObject (ae_k E) x2 (patchOptions E True)) (\<lambda>(r, apiWarnings, err).
     seqM (handleApiWarnings ref apiWarnings)
     (case err of Some e \<Rightarrow> HandleError E ref e | None \<Rightarrow> handleResult E r hook))"

definition retryApplyWithConflicts :: "ApplyEnv \<Rightarrow> uo \<Rightarrow> bool \<Rightarrow> uo option \<Rightarrow> api_err \<Rightarrow> unit aeff" where
  "retryApplyWithConflicts E x hook remoteObject applyError =
     bindM (lift (GetK8sRef (ae_L E) x)) (\<lambda>ref.
     case remoteObject of
       None \<Rightarrow> HandleError E ref applyError
     | Some remote \<Rightarrow>
         if o_ForceApply (ae_o E) then applyResolved E ref x hook
         else (case AsStatus applyError of
             None \<Rightarrow> HandleError E ref applyError
           | Some details \<Rightarrow>
               bindM (liftErr (ResolveFieldManagerConflicts (ae_fp E) (k_jp (ae_k E)) x remote details)) (\<lambda>res.
               case res of
                 Inl e \<Rightarrow> HandleError E ref e
               | Inr (x3, lostOwnership) \<Rightarrow>
                   seqM (forM (\<lambda>lo. modify (\<lambda>s. s\<lparr>dew := dew_AddWarning ref (lo_Message lo @ ''. Not updating field '' @ lo_Field lo @
                            '' as we lost field ownership'') (dew s)\<rparr>)) lostOwnership)
                        (applyResolved E ref x3 hook))))"

section \<open>Applying one object\<close>

definition handleObservedCRD :: "ApplyEnv \<Rightarrow> uo \<Rightarrow> unit aeff" where
  "handleObservedCRD E r =
     (case ae_crdVersions E r of
        None \<Rightarrow> ret ()
      | Some gvks \<Rightarrow> modify (\<lambda>s. s\<lparr>allCRDs := foldl (\<lambda>m g. AList.update g True m) (allCRDs s) gvks\<rparr>))"

text \<open>
  In a dry run a replaced object, or an object of a namespace that would have been created before, is patched
  under a dummy name. The result says whether a dummy name is used.
\<close>

definition dummyName :: "ApplyEnv \<Rightarrow> ObjectRef \<Rightarrow> string aeff" where
  "dummyName E ref = ask (\<lambda>s. Name ref @ ''-'' @ ae_RandomString E (reqlog s))"

definition prepareDryRun :: "ApplyEnv \<Rightarrow> ObjectRef \<Rightarrow> uo \<Rightarrow> bool \<Rightarrow> (uo \<times> bool) aeff" where
  "prepareDryRun E ref x replaced =
     (let remoteObject = GetRemoteObject (ae_ru E) ref;
          remoteNamespace = (if Namespace ref \<noteq> [] then GetRemoteNamespace (ae_ru E) (Namespace ref) else None)
      in if o_DryRun (ae_o E) \<and> replaced \<and> remoteObject \<noteq> None then
           bindM (dummyName E ref) (\<lambda>n. bindM (lift (SetK8sName n (Clone x))) (\<lambda>x. ret (x, True)))
         else if o_DryRun (ae_o E) \<and> remoteNamespace = None \<and> Namespace ref \<noteq> [] then
           bindM (ask (\<lambda>s. map_of (allNamespaces s) (Namespace ref) \<noteq> None)) (\<lambda>known.
           if known then
             bindM (dummyName E ref) (\<lambda>n.
             bindM (lift (SetK8sName n (Clone x))) (\<lambda>x.
             bindM (lift (SetK8sNamespace ''default'' x)) (\<lambda>x. ret (x, True))))
           else ret (x, False))
         else ret (x, False))"

definition undoDummyName :: "ObjectRef \<Rightarrow> uo \<Rightarrow> uo res" where
  "undoDummyName ref r =
     bindE (GetK8sName r) (\<lambda>tmpName.
     SetK8sNamespace (Namespace ref) (ReplaceValues (VStr tmpName) (VStr (Name ref)) (ReplaceKeys tmpName (Name ref) r)))"

definition observe :: "ApplyEnv \<Rightarrow> ObjectRef \<Rightarrow> uo option \<Rightarrow> unit aeff" where
  "observe E ref r =
     (case r of
        None \<Rightarrow> ret ()
      | Some ob \<Rightarrow>
          (let gk = GroupKind_String (ae_L E) (GroupKind ref) in
           seqM (whenM (gk = ''Namespace'') (modify (\<lambda>s. s\<lparr>allNamespaces := AList.update (Name ref) ob (allNamespaces s)\<rparr>)))
                (whenM (gk = ''CustomResourceDefinition.apiextensions.k8s.io'') (handleObservedCRD E ob))))"

definition crdDryRunText :: "ObjectRef \<Rightarrow> string" where
  "crdDryRunText ref = ''the underyling custom resource definition for '' @ ObjectRef_String ref @
     '' has not been applied yet as Kluctl is running in dry-run mode. It is not guaranteed that the object will actually sucessfully apply''"

text \<open>What follows the first patch and its repetition with a fresh REST mapper.\<close>

definition finishApply :: "ApplyEnv \<Rightarrow> ObjectRef \<Rightarrow> uo \<Rightarrow> bool \<Rightarrow> uo option \<times> ApiWarning list \<times> api_err option \<Rightarrow> unit aeff" where
  "finishApply E ref x hook res =
     (case res of (r, apiWarnings, err) \<Rightarrow>
      let remoteObject = GetRemoteObject (ae_ru E) ref in
      seqM (observe E ref r)
      (seqM (handleApiWarnings ref apiWarnings)
       (case err of
          None \<Rightarrow> handleResult E r hook
        | Some e \<Rightarrow>
            if IsNoMatchError e then HandleError E ref e
            else if IsConflict e then retryApplyWithConflicts E x hook remoteObject e
            else retryApplyWithReplace E x hook remoteObject e)))"

definition ApplyObject :: "ApplyEnv \<Rightarrow> uo \<Rightarrow> bool \<Rightarrow> bool \<Rightarrow> unit aeff" where
  "ApplyObject E x replaced hook =
     bindM (lift (GetK8sRef (ae_L E) x)) (\<lambda>ref.
     bindM (lift (FixObjectForPatch (ae_k E) x)) (\<lambda>x.
     bindM (prepareDryRun E ref x replaced) (\<lambda>(x, usesDummyName).
     bindM (k8s_ApplyObject (ae_k E) x (patchOptions E False)) (\<lambda>(r, apiWarnings, err).
     case (r, usesDummyName) of
       (Some ob, True) \<Rightarrow> bindM (lift (undoDummyName ref ob)) (\<lambda>ob. finishApply E ref x hook (Some ob, apiWarnings, err))
     | _ \<Rightarrow>
         if (case err of Some e \<Rightarrow> IsNoMatchError e | None \<Rightarrow> False) then
           bindM (lift (GetK8sGVK (ae_L E) x)) (\<lambda>g.
           bindM (ask (\<lambda>s. map_of (allCRDs s) g \<noteq> None)) (\<lambda>known.
           if \<not> known then finishApply E ref x hook (r, apiWarnings, err)
           else if o_DryRun (ae_o E) then
             seqM (handleResult E (Some x) hook)
             (bindM (lift (GetK8sRef (ae_L E) x)) (\<lambda>xref. HandleWarning xref (crdDryRunText xref)))
           else
             seqM (ResetMapper (ae_k E))
             (bindM (k8s_ApplyObject (ae_k E) x (patchOptions E False)) (finishApply E ref x hook))))
         else finishApply E ref x hook (r, apiWarnings, err)))))"

section \<open>Waiting for readiness\<close>

fun waitLoop :: "ApplyEnv \<Rightarrow> nat \<Rightarrow> ObjectRef \<Rightarrow> int \<Rightarrow> bool aeff" where
  "waitLoop E 0 ref timeout = throw OutOfFuel"
| "waitLoop E (Suc n) ref timeout =
     bindM (GetSingleObject (ae_k E) ref) (\<lambda>(ob, apiWarnings, err).
     seqM (handleApiWarnings ref apiWarnings)
     (case err of
        Some e \<Rightarrow>
          seqM (HandleError E ref (if IsNotFound e then Errorf (ObjectRef_String ref @ '' disappeared while waiting for it to become ready'') else e))
               (ret False)
      | None \<Rightarrow>
          bindM (ValidateObject (Some (ae_k E)) (ae_L E) (ae_f2i E) (case ob of Some x \<Rightarrow> x | None \<Rightarrow> []) False False) (\<lambda>v.
          if vr_Ready v then ret True
          else if vr_Errors v \<noteq> [] then
            seqM (forM (\<lambda>e. HandleError E ref (Errorf (SprintfNoArgs (de_Message e)))) (vr_Errors v)) (ret False)
          else bindM (ask reqlog) (\<lambda>h.
            if k_ctxDone (ae_k E) h \<noteq> None then
              seqM (HandleError E ref (Errorf (''context cancelled while waiting for readiness of '' @ ObjectRef_String ref))) (ret False)
            else if ae_timerFired E h timeout then
              seqM (HandleError E ref (Errorf (''timed out while waiting for readiness of '' @ ObjectRef_String ref))) (ret False)
            else waitLoop E n ref timeout))))"

definition WaitReadiness :: "ApplyEnv \<Rightarrow> ObjectRef \<Rightarrow> int \<Rightarrow> bool aeff" where
  "WaitReadiness E ref timeout =
     (if o_DryRun (ae_o E) then ret True
      else waitLoop E (k_polls (ae_k E)) ref (if timeout = 0 then o_ReadinessTimeout (ae_o E) else timeout))"

section \<open>Replacing an object\<close>

text \<open>
  The loop ends when the context is done, on an error, or when the update went through; a conflict starts over.
\<close>

fun replaceLoop :: "ApplyEnv \<Rightarrow> nat \<Rightarrow> ObjectRef \<Rightarrow> uo option \<Rightarrow> (uo \<Rightarrow> api_err + uo) \<Rightarrow> unit aeff" where
  "replaceLoop E 0 ref firstVersion callback = throw OutOfFuel"
| "replaceLoop E (Suc n) ref firstVersion callback =
     bindM (ask reqlog) (\<lambda>h.
     case k_ctxDone (ae_k E) h of
       Some c \<Rightarrow> HandleError E ref (ctxErr (''failed replacing '' @ ObjectRef_String ref) c)
     | None \<Rightarrow>
         bindM (case firstVersion of
                  Some ob \<Rightarrow> ret (Inr (Some ob))
                | None \<Rightarrow>
                    bindM (GetSingleObject (ae_k E) ref) (\<lambda>(o2, apiWarnings, err).
                    seqM (modify (\<lambda>s. s\<lparr>dew := dew_AddApiWarnings ref apiWarnings (dew s)\<rparr>))
                    (ret (case err of Some e \<Rightarrow> if IsNotFound e then Inr None else Inl e | None \<Rightarrow> Inr o2)))) (\<lambda>remote.
         case remote of
           Inl e \<Rightarrow> HandleError E ref e
         | Inr None \<Rightarrow> handleResult E None False
         | Inr (Some ob) \<Rightarrow>
             (case callback (Clone ob) of
                Inl e \<Rightarrow> HandleError E ref e
              | Inr modified \<Rightarrow>
                  if deepEq (VMap ob) (VMap modified) then handleResult E (Some ob) False
                  else bindM (k8s_UpdateObject (ae_k E) modified \<lparr>upd_ForceDryRun = False\<rparr>) (\<lambda>(result, apiWarnings, err).
                    seqM (modify (\<lambda>s. s\<lparr>dew := dew_AddApiWarnings ref apiWarnings (dew s)\<rparr>))
                    (case err of
                       Some e \<Rightarrow> if IsConflict e then replaceLoop E n ref None callback else HandleError E ref e
                     | None \<Rightarrow> handleResult E result False)))))"

definition ReplaceObject :: "ApplyEnv \<Rightarrow> ObjectRef \<Rightarrow> uo option \<Rightarrow> (uo \<Rightarrow> api_err + uo) \<Rightarrow> unit aeff" where
  "ReplaceObject E ref firstVersion callback = replaceLoop E (k_polls (ae_k E)) ref firstVersion callback"

section \<open>Requests\<close>

lemma logs_bookkeeping [logs_intros]:
  "always (logs P) (handleResult E r hook)" "always (logs P) (handleApiWarnings ref ws)" "always (logs P) (HandleWarning ref w)"
  "always (logs P) (HandleError E ref e)" "always (logs P) (HadError ref)" "always (logs P) (markDeleted ref hook)"
  "always (logs P) (observe E ref r)" "always (logs P) (dummyName E ref)"
  unfolding handleResult_def handleApiWarnings_def HandleWarning_def HandleError_def HadError_def markDeleted_def
    observe_def handleObservedCRD_def dummyName_def Let_def
  by (intro logs.always_intros; simp add: logs_def)+

lemma logs_liftErr [logs_intros]: "always (logs P) (liftErr r)"
  by (auto simp: liftErr_def intro!: logs.always_intros split: sum.split go_error.split)

lemma logs_prepareDryRun [logs_intros]: "always (logs P) (prepareDryRun E ref x replaced)"
  unfolding prepareDryRun_def Let_def by (intro logs.always_intros logs_intros)

text \<open>The kinds of requests the program sends while it applies an object; \<open>dry\<close> is the flag they carry.\<close>

definition dryFlag :: "ApplyEnv \<Rightarrow> bool" where
  "dryFlag E \<longleftrightarrow> k_DryRun (ae_k E) \<or> o_DryRun (ae_o E)"

lemma logs_DeleteObject [logs_intros]:
  "(\<And>r. read_only r \<Longrightarrow> P r) \<Longrightarrow> P (ReqDelete ref (dryFlag E)) \<Longrightarrow> always (logs P) (DeleteObject E ref hook)"
  unfolding DeleteObject_def by (intro logs.always_intros logs_intros) (simp_all add: dryFlag_def)

lemma logs_apply [logs_intros]:
  "P (ReqPatch x force (dryFlag E)) \<Longrightarrow> always (logs P) (k8s_ApplyObject (ae_k E) x (patchOptions E force))"
  by (rule logs_intros) (simp add: patchOptions_def dryFlag_def)

lemma logs_applyResolved [logs_intros]:
  "P (ReqPatch x True (dryFlag E)) \<Longrightarrow> always (logs P) (applyResolved E ref x hook)"
  unfolding applyResolved_def by (intro logs.always_intros logs_intros)

lemma logs_retryApplyWithConflicts [logs_intros]:
  "(\<And>x. P (ReqPatch x True (dryFlag E))) \<Longrightarrow> always (logs P) (retryApplyWithConflicts E x hook remote e)"
  unfolding retryApplyWithConflicts_def by (intro logs.always_intros logs_intros) (simp_all add: logs_def)

lemma res_bool_cases: "(\<exists>e. r = Inl e) \<or> r = Inr True \<or> r = Inr False"
  by (cases r) auto

lemma logs_retryApplyForceReplace [logs_intros]:
  assumes "\<And>r. read_only r \<Longrightarrow> P r" "\<And>x. P (ReqPatch x False (dryFlag E))"
    and "\<And>ref. o_ForceReplaceOnError (ae_o E) \<Longrightarrow> isSkipDelete x = Inr False \<Longrightarrow>
           (case remote of None \<Rightarrow> True | Some r \<Rightarrow> isSkipDelete r = Inr False) \<Longrightarrow> P (ReqDelete ref (dryFlag E))"
  shows "always (logs P) (retryApplyForceReplace E x hook remote e)"
proof -
  consider (no) "\<not> o_ForceReplaceOnError (ae_o E)" | (panic) er where "isSkipDelete x = Inl er"
    | (skip) "isSkipDelete x = Inr True"
    | (rpanic) r er where "isSkipDelete x = Inr False" "remote = Some r" "isSkipDelete r = Inl er"
    | (rskip) r where "isSkipDelete x = Inr False" "remote = Some r" "isSkipDelete r = Inr True"
    | (go) "o_ForceReplaceOnError (ae_o E)" "isSkipDelete x = Inr False" "case remote of None \<Rightarrow> True | Some r \<Rightarrow> isSkipDelete r = Inr False"
    using res_bool_cases [of "isSkipDelete x"] res_bool_cases [of "isSkipDelete (the remote)"] by (cases remote) auto
  then show ?thesis
  proof cases
    case go
    then have "\<And>ref. P (ReqDelete ref (dryFlag E))" using assms(3) by simp
    then show ?thesis unfolding retryApplyForceReplace_def using assms(1,2)
      by (intro logs.always_intros logs_intros)
  next
    case skip
    then show ?thesis unfolding retryApplyForceReplace_def
      by (cases "o_ForceReplaceOnError (ae_o E)"; cases remote; simp only: bindM_lift bindM_ret_left option.case simp_thms if_True if_False)
        (intro logs.always_intros logs_intros)+
  qed (cases "o_ForceReplaceOnError (ae_o E)"; simp add: retryApplyForceReplace_def; intro logs.always_intros logs_intros)+
qed

end
