(* ===== verification/Apply_Safety.thy ===== *)
theory Apply_Safety
  imports Apply_Utils
begin

text \<open>
  What applying one object can do to the cluster, and what it leaves in the books: the requests of every path
  of \<^verbatim>\<open>ApplyObject\<close>, the outcome it records, the invariant of the state, and the end of waiting for readiness.
\<close>

section \<open>Requests\<close>

definition apply_request :: "ApplyEnv \<Rightarrow> ObjectRef \<Rightarrow> request \<Rightarrow> bool" where
  "apply_request E ref q =
     (case q of
        ReqPatch x force dry \<Rightarrow> dry = dryFlag E
      | ReqUpdate x dry \<Rightarrow> dry = dryFlag E \<and> (o_ReplaceOnError (ae_o E) \<or> o_ForceReplaceOnError (ae_o E)) \<and>
          GetRemoteObject (ae_ru E) ref \<noteq> None
      | ReqDelete ref' dry \<Rightarrow> dry = dryFlag E \<and> o_ForceReplaceOnError (ae_o E) \<and>
          (case GetRemoteObject (ae_ru E) ref of None \<Rightarrow> False | Some r \<Rightarrow> isSkipDelete r = Inr False)
      | ReqResetMapper \<Rightarrow> \<not> o_DryRun (ae_o E)
      | _ \<Rightarrow> True)"

lemma apply_request_simps:
  "read_only r \<Longrightarrow> apply_request E ref r"
  "apply_request E ref (ReqPatch x force (dryFlag E))"
  "apply_request E ref ReqResetMapper \<longleftrightarrow> \<not> o_DryRun (ae_o E)"
  by (auto simp: apply_request_def read_only_def split: request.splits)

lemma logs_retryApplyWithReplace:
  "always (logs (apply_request E ref)) (retryApplyWithReplace E x hook (GetRemoteObject (ae_ru E) ref) e)"
proof (cases "GetRemoteObject (ae_ru E) ref")
  case (Some r)
  show ?thesis
    unfolding retryApplyWithReplace_def Some
    by (intro logs.always_intros logs_intros)
      (auto simp: apply_request_simps Some, auto simp: apply_request_def dryFlag_def Some)
qed (auto simp: retryApplyWithReplace_def intro!: logs.always_intros logs_intros)

lemma logs_finishApply: "always (logs (apply_request E ref)) (finishApply E ref x hook res)"
  unfolding finishApply_def Let_def
  by (intro logs.always_intros logs_intros logs_retryApplyWithReplace) (simp add: apply_request_simps)

lemma logs_ResetMapper [logs_intros]: "P ReqResetMapper \<Longrightarrow> always (logs P) (ResetMapper k)"
  unfolding ResetMapper_def by (intro logs.always_intros) (simp add: logs_def)

lemma logs_ApplyObject:
  assumes "GetK8sRef (ae_L E) x = Inr ref"
  shows "always (logs (apply_request E ref)) (ApplyObject E x replaced hook)"
  unfolding ApplyObject_def assms bindM_lift(1)
  by (intro logs.always_intros logs_intros logs_finishApply)
    (auto simp: apply_request_simps intro!: logs.always_intros logs_intros logs_finishApply split: option.splits bool.splits)

lemma logs_E:
  assumes "always (logs P) m" "m s = (r, s')"
  obtains new where "reqlog s' = reqlog s @ new" "\<forall>q \<in> set new. P q"
  using alwaysD [OF assms(1), of s] assms(2) that by (auto simp: logs_def list_all_iff)

text \<open>
  C8: The requests of \<^verbatim>\<open>ApplyObject\<close>, on every path of retries. Every writing request carries the dry-run flag,
  so in a dry run nothing is changed; an object is only updated (replaced) when replacing was allowed and the
  object exists; it is only deleted when forced replacing was allowed and the existing object is not protected
  from deletion.
\<close>

theorem ApplyObject_requests:
  assumes "ApplyObject E x replaced hook s = (r, s')" and "GetK8sRef (ae_L E) x = Inr ref"
  shows "\<exists>new. reqlog s' = reqlog s @ new \<and> (\<forall>q \<in> set new. apply_request E ref q \<and> (dryFlag E \<longrightarrow> harmless q))"
proof -
  obtain new where "reqlog s' = reqlog s @ new" "\<forall>q \<in> set new. apply_request E ref q"
    using logs_E [OF logs_ApplyObject [OF assms(2)] assms(1)] by blast
  moreover have "apply_request E ref q \<Longrightarrow> dryFlag E \<Longrightarrow> harmless q" for q
    by (cases q) (simp_all add: apply_request_def)
  ultimately show ?thesis by blast
qed

text \<open>
  After a conflict with another field manager the object is patched at most once more, forced, and never
  replaced or deleted, whatever the options are.
\<close>

theorem finishApply_conflict:
  assumes "finishApply E ref x hook (res, ws, Some e) s = (r, s')" and "IsConflict e" and "\<not> IsNoMatchError e"
  shows "\<exists>new. reqlog s' = reqlog s @ new \<and> (\<forall>q \<in> set new. \<exists>x2. q = ReqPatch x2 True (dryFlag E))"
proof -
  let ?P = "\<lambda>q. \<exists>x2. q = ReqPatch x2 True (dryFlag E)"
  have "always (logs ?P) (finishApply E ref x hook (res, ws, Some e))"
    using assms(2,3) unfolding finishApply_def Let_def
    by simp (intro logs.always_intros logs_intros, blast)
  then show ?thesis using assms(1) by (elim logs_E) blast+
qed

section \<open>Exactly one outcome\<close>

text \<open>
  An applied object is recorded, or an error is, never both. \<open>unseen\<close> is the one way to end without either: the
  object was to be replaced by force, and the server answered the deletion with \<open>not found\<close>.
\<close>

definition same_books :: "ApplyUtil \<Rightarrow> ApplyUtil \<Rightarrow> bool" where
  "same_books s s' \<longleftrightarrow> errorCount s' = errorCount s \<and> appliedObjects s' = appliedObjects s"

definition recorded :: "ApplyEnv \<Rightarrow> ApplyUtil \<Rightarrow> ApplyUtil \<Rightarrow> bool" where
  "recorded E s s' \<longleftrightarrow> errorCount s' = errorCount s \<and>
     (\<exists>ref ob. GetK8sRef (ae_L E) ob = Inr ref \<and> appliedObjects s' = AList.update ref ob (appliedObjects s))"

definition failed :: "ApplyUtil \<Rightarrow> ApplyUtil \<Rightarrow> bool" where
  "failed s s' \<longleftrightarrow> errorCount s' = Suc (errorCount s) \<and> appliedObjects s' = appliedObjects s \<and> (\<exists>ref. dew_HadError (dew s') ref)"

definition unseen :: "ApplyEnv \<Rightarrow> ApplyUtil \<Rightarrow> ApplyUtil \<Rightarrow> bool" where
  "unseen E s s' \<longleftrightarrow> same_books s s' \<and> o_ForceReplaceOnError (ae_o E) \<and>
     (\<exists>h ref dry e. reqlog s' = h @ [ReqDelete ref dry] \<and> rp_Err (k_client (ae_k E) h (ReqDelete ref dry)) = Some e \<and> IsNotFound e)"

definition applyOutcome :: "ApplyEnv \<Rightarrow> unit \<Rightarrow> ApplyUtil \<Rightarrow> ApplyUtil \<Rightarrow> bool" where
  "applyOutcome E u s s' \<longleftrightarrow> recorded E s s' \<or> failed s s' \<or> unseen E s s'"

interpretation outcome: outcome_rel same_books "applyOutcome E" for E
  by unfold_locales (auto simp: same_books_def applyOutcome_def recorded_def failed_def unseen_def)

lemma same_books_ops:
  "always same_books (handleApiWarnings ref ws)" "always same_books (HandleWarning ref w)"
  "always same_books (observe E ref r)" "always same_books (markDeleted ref hook)"
  "always same_books (prepareDryRun E ref x replaced)" "always same_books (liftErr z)"
  unfolding handleApiWarnings_def HandleWarning_def observe_def handleObservedCRD_def markDeleted_def prepareDryRun_def
    dummyName_def Let_def liftErr_def
  by (intro outcome.always_intros; auto simp: same_books_def intro: outcome.always_intros split: sum.split go_error.split)+

lemma same_books_from: "always same_but_log m \<Longrightarrow> always same_books m"
  by (erule always_mono) (auto simp: same_but_log_def same_books_def)

lemmas same_books_k = same_ops [THEN same_books_from]

lemma ends_HandleError: "ends (applyOutcome E) (HandleError E ref e)"
  by (auto simp: ends_def HandleError_def run_simps applyOutcome_def failed_def HadError_AddError)

lemma ends_handleResult: "ends (applyOutcome E) (handleResult E r hook)"
proof (cases r)
  case (Some ob)
  show ?thesis
    by (cases "GetK8sRef (ae_L E) ob")
      (auto simp: Some ends_def handleResult_def seqM_def whenM_def bindM_def run_simps applyOutcome_def recorded_def)
qed (simp add: handleResult_def outcome.ends_intros)

lemma DeleteSingleObject_notFound:
  assumes "DeleteSingleObject k ref opt s = (Inr (ws, Some e), s')" "IsNotFound e"
  shows "\<exists>h dry. reqlog s' = h @ [ReqDelete ref dry] \<and> rp_Err (k_client k h (ReqDelete ref dry)) = Some e"
proof -
  have wait: "waitForDeletedObject k n ref s1 = (Inr (Some e), s2) \<Longrightarrow> \<not> IsNotFound e" for n s1 s2
    by (induction n arbitrary: s1)
      (auto simp: bindM_Inr_iff run_simps ctxErr_def Errorf_def split: option.splits if_splits)
  obtain r s1 where r: "withClientFromPool k id (ReqDelete ref (k_DryRun k \<or> del_ForceDryRun opt)) s = (Inr r, s1)"
    and rest: "(case rp_Err r of
        Some e \<Rightarrow> ret (rp_Warnings r, if del_IgnoreNotFoundError opt \<and> IsNotFound e then None else Some e)
      | None \<Rightarrow> if \<not> (k_DryRun k \<or> del_ForceDryRun opt) \<and> \<not> del_NoWait opt then
            bindM (waitForDeletedObject k (k_polls k) ref) (\<lambda>err. ret (rp_Warnings r, err))
          else ret (rp_Warnings r, None)) s1 = (Inr (ws, Some e), s')"
    using assms(1) by (auto simp: DeleteSingleObject_def Let_def bindM_Inr_iff)
  have "rp_Err r = Some e \<and> s' = s1"
    using rest wait assms(2) by (auto simp: bindM_Inr_iff run_simps split: option.splits if_splits)
  then show ?thesis using r assms(2)
    by (auto simp: withClientFromPool_def bindM_def seqM_def run_simps Let_def ctxErr_def Errorf_def option.map_id
        split: option.splits)
qed

lemma DeleteObject_outcome:
  assumes "DeleteObject E ref hook s = (Inr b, s')" "o_ForceReplaceOnError (ae_o E)"
  shows "if b then same_books s s' else applyOutcome E () s s'"
proof -
  obtain ws err s1 where d: "DeleteSingleObject (ae_k E) ref
      \<lparr>del_ForceDryRun = o_DryRun (ae_o E), del_NoWait = False, del_IgnoreNotFoundError = False\<rparr> s = (Inr (ws, err), s1)"
    using assms(1) by (auto simp: DeleteObject_def bindM_Inr_iff)
  have s1: "same_books s s1" using alwaysD [OF same_books_k(3), of s] d by (metis snd_conv)
  have gone: "err = Some e \<Longrightarrow> IsNotFound e \<Longrightarrow> reqlog s2 = reqlog s1 \<Longrightarrow> same_books s1 s2 \<Longrightarrow> unseen E s1 s2" for e s2
    using d DeleteSingleObject_notFound assms(2) unfolding unseen_def by metis
  show ?thesis
  proof (cases err)
    case None
    then have "b \<and> same_books s1 s'"
      using assms(1) d by (auto simp: DeleteObject_def handleApiWarnings_def markDeleted_def seqM_def bindM_def run_simps same_books_def split: if_splits)
    then show ?thesis using s1 by (auto intro: outcome.trans)
  next
    case (Some e)
    have "if b then same_books s1 s' else applyOutcome E () s1 s'"
      using assms(1) d gone [of e s'] Some
      by (auto simp: DeleteObject_def handleApiWarnings_def markDeleted_def HandleError_def seqM_def bindM_def run_simps
          same_books_def applyOutcome_def failed_def HadError_AddError split: if_splits)
    then show ?thesis using s1 by (auto intro: outcome.trans outcome.before split: if_splits)
  qed
qed

lemma ends_retryApplyForceReplace: "ends (applyOutcome E) (retryApplyForceReplace E x hook remote e)"
proof -
  have del: "ends (applyOutcome E) (bindM (DeleteObject E ref hook) (\<lambda>b. if \<not> b then ret () else m))"
    if "o_ForceReplaceOnError (ae_o E)" "ends (applyOutcome E) m" for ref m
  proof (rule endsI)
    fix s y s'
    assume "bindM (DeleteObject E ref hook) (\<lambda>b. if \<not> b then ret () else m) s = (Inr y, s')"
    then obtain b s1 where b: "DeleteObject E ref hook s = (Inr b, s1)" "(if \<not> b then ret () else m) s1 = (Inr y, s')"
      by (auto simp: bindM_Inr_iff)
    then show "applyOutcome E y s s'"
      using DeleteObject_outcome [OF b(1) that(1)] endsD [OF that(2), of s1 y s']
      by (auto simp: run_simps intro: outcome.before split: if_splits)
  qed
  show ?thesis
    unfolding retryApplyForceReplace_def
    by (intro outcome.ends_intros outcome.always_intros same_books_ops same_books_k ends_HandleError ends_handleResult del) simp_all
qed

lemma ends_finishApply: "ends (applyOutcome E) (finishApply E ref x hook res)"
  unfolding finishApply_def retryApplyWithConflicts_def applyResolved_def retryApplyWithReplace_def Let_def
  by (intro outcome.ends_intros outcome.always_intros same_books_ops same_books_k ends_HandleError ends_handleResult
      ends_retryApplyForceReplace) (simp_all add: same_books_def)

lemma ends_recorded:
  assumes "ends (\<lambda>_. recorded E) m" "always same_books n"
  shows "ends (applyOutcome E) (seqM m n)"
proof (rule endsI)
  fix s y s'
  assume "seqM m n s = (Inr y, s')"
  then obtain u s1 where "m s = (Inr u, s1)" "n s1 = (Inr y, s')" by (auto simp: seqM_def bindM_Inr_iff)
  then have "recorded E s s1" "same_books s1 s'"
    using endsD [OF assms(1)] alwaysD [OF assms(2), of s1] by simp_all
  then show "applyOutcome E y s s'" by (auto simp: applyOutcome_def recorded_def same_books_def)
qed

lemma recorded_handleResult: "ends (\<lambda>_. recorded E) (handleResult E r hook)"
proof (cases r)
  case (Some ob)
  show ?thesis
    by (cases "GetK8sRef (ae_L E) ob")
      (auto simp: Some ends_def handleResult_def seqM_def whenM_def bindM_def run_simps recorded_def)
qed (simp add: handleResult_def ends_def run_simps)

lemma ends_ApplyObject: "ends (applyOutcome E) (ApplyObject E x replaced hook)"
proof -
  have crd: "ends (applyOutcome E) (seqM (handleResult E r hook) (bindM (lift z) (\<lambda>xref. HandleWarning xref (f xref))))" for r z f
    by (intro ends_recorded recorded_handleResult outcome.always_intros same_books_ops)
  have retry: "ends (applyOutcome E) (seqM (ResetMapper (ae_k E)) (bindM (k8s_ApplyObject (ae_k E) y po) (finishApply E ref y hook)))" for y po ref
    by (intro outcome.ends_intros same_books_k ends_finishApply)
  note rules = outcome.ends_bind outcome.ends_throw outcome.ends_if outcome.ends_case_option outcome.ends_case_prod
    outcome.always_intros same_books_ops same_books_k ends_finishApply crd retry
  show ?thesis
    unfolding ApplyObject_def by (intro rules) (auto intro!: rules split: option.split bool.split)
qed


section \<open>The invariant of the state\<close>

text \<open>
  Applied objects are stored under their own references, hooks and new objects are among them, new objects are
  not in the snapshot of the cluster, the error reports are consistent, and with \<^verbatim>\<open>AbortOnError\<close> an error has
  raised the abort signal.
\<close>

definition stored_ok :: "ApplyEnv \<Rightarrow> (ObjectRef, uo) gomap \<Rightarrow> bool" where
  "stored_ok E m \<longleftrightarrow> wf_map m \<and> (\<forall>ref ob. map_of m ref = Some ob \<longrightarrow> GetK8sRef (ae_L E) ob = Inr ref)"

definition apply_inv :: "ApplyEnv \<Rightarrow> ApplyUtil \<Rightarrow> bool" where
  "apply_inv E s \<longleftrightarrow>
     stored_ok E (appliedObjects s) \<and> stored_ok E (appliedHookObjects s) \<and> stored_ok E (newObjects s) \<and>
     dom (map_of (appliedHookObjects s)) \<subseteq> dom (map_of (appliedObjects s)) \<and>
     dom (map_of (newObjects s)) \<subseteq> dom (map_of (appliedObjects s)) \<and>
     (\<forall>ref \<in> dom (map_of (newObjects s)). GetRemoteObject (ae_ru E) ref = None) \<and>
     dew_inv (dew s) \<and> (o_AbortOnError (ae_o E) \<and> 0 < errorCount s \<longrightarrow> abortSignal s)"

lemma stored_ok_update [simp]:
  "stored_ok E m \<Longrightarrow> GetK8sRef (ae_L E) ob = Inr ref \<Longrightarrow> stored_ok E (AList.update ref ob m)"
  by (simp add: stored_ok_def)

lemma dom_map_of_update [simp]: "dom (map_of (AList.update k v m)) = insert k (dom (map_of m))"
  by (auto simp: dom_def)

lemma apply_inv_log [simp]: "apply_inv E (s\<lparr>reqlog := h\<rparr>) = apply_inv E s"
  by (simp add: apply_inv_def)

named_theorems inv_intros

lemmas inv_k [inv_intros] = same_ops [THEN keeps_from_same, of "apply_inv E" for E, simplified]

lemma inv_handleResult [inv_intros]: "always (keeps (apply_inv E)) (handleResult E r hook)"
proof (cases r)
  case (Some ob)
  show ?thesis
  proof (cases "GetK8sRef (ae_L E) ob")
    case (Inr ref)
    show ?thesis
      by (rule alwaysI)
        (auto simp: Some Inr keeps_def handleResult_def seqM_def whenM_def bindM_def run_simps apply_inv_def)
  qed (simp add: Some handleResult_def keeps.always_pure)
qed (simp add: handleResult_def keeps.always_pure)

lemma inv_bookkeeping [inv_intros]:
  "always (keeps (apply_inv E)) (handleApiWarnings ref ws)" "always (keeps (apply_inv E)) (HandleWarning ref w)"
  "always (keeps (apply_inv E)) (HandleError E ref e)" "always (keeps (apply_inv E)) (observe E' ref r)"
  "always (keeps (apply_inv E)) (markDeleted ref hook)" "always (keeps (apply_inv E)) (prepareDryRun E' ref x replaced)"
  "always (keeps (apply_inv E)) (liftErr z)"
  unfolding handleApiWarnings_def HandleWarning_def HandleError_def observe_def handleObservedCRD_def markDeleted_def
    prepareDryRun_def dummyName_def Let_def liftErr_def
  by (intro keeps.always_intros; auto simp: keeps_def apply_inv_def intro: keeps.always_intros split: sum.split go_error.split)+

lemma inv_DeleteObject [inv_intros]: "always (keeps (apply_inv E)) (DeleteObject E ref hook)"
  unfolding DeleteObject_def by (intro keeps.always_intros inv_intros)

lemma inv_finishApply [inv_intros]: "always (keeps (apply_inv E)) (finishApply E ref x hook res)"
  unfolding finishApply_def retryApplyWithConflicts_def applyResolved_def retryApplyWithReplace_def
    retryApplyForceReplace_def Let_def
  by (intro keeps.always_intros inv_intros) (simp_all add: keeps_def apply_inv_def)

lemma inv_ApplyObject [inv_intros]: "always (keeps (apply_inv E)) (ApplyObject E x replaced hook)"
  unfolding ApplyObject_def
  by (intro keeps.always_intros inv_intros) (auto intro!: keeps.always_intros inv_intros split: option.split bool.split)

section \<open>Waiting for readiness\<close>

lemma GetSingleObject_run:
  "\<exists>r ws e s1. GetSingleObject k ref s = (Inr (r, ws, e), s1) \<and> same_but_log s s1 \<and> logs read_only s s1 \<and>
     (e = None \<longrightarrow> length (reqlog s1) = Suc (length (reqlog s)) \<and> (\<exists>h q. r = Some (rp_Obj (k_client k h q))))"
proof -
  obtain r s1 where "GetSingleObject k ref s = (r, s1)" by fastforce
  moreover have "same_but_log s s1" "logs read_only s s1"
    using calculation alwaysD [OF same_ops(2), of s k ref] alwaysD [OF logs_GetSingleObject, of read_only s k ref] by simp_all
  ultimately show ?thesis
    by (auto simp: GetSingleObject_def withClientFromPool_def bindM_def seqM_def run_simps Let_def
        split: option.splits) metis
qed

lemma same_ValidateObject: "always same_but_log (ValidateObject k L f2i ob nri fsr)"
  unfolding ValidateObject_def
  by (intro same.always_intros) (auto simp: always_def same_but_log_def split: prod.split)

lemma ValidateObject_run:
  assumes "GetK8sRef L ob = Inr ref" "GetK8sAnnotation ''kluctl.io/validate-ignore'' ob = Inr a"
  shows "\<exists>v s1. ValidateObject k L f2i ob nri fsr s = (Inr v, s1) \<and> same_but_log s s1 \<and> logs read_only s s1"
proof -
  obtain r s1 where r: "ValidateObject k L f2i ob nri fsr s = (r, s1)" by fastforce
  have "same_but_log s s1" "logs read_only s s1"
    using r alwaysD [OF same_ValidateObject, of s k L f2i ob nri fsr]
      alwaysD [OF logs_ValidateObject, of read_only s k L f2i ob nri fsr] by simp_all
  then show ?thesis using r assms
    by (auto simp: ValidateObject_def bindM_def run_simps split: if_splits prod.splits)
qed

text \<open>How a wait ends: with success and no error, or with an error for the object.\<close>

definition waitOutcome :: "ObjectRef \<Rightarrow> bool \<Rightarrow> ApplyUtil \<Rightarrow> ApplyUtil \<Rightarrow> bool" where
  "waitOutcome ref b s s' \<longleftrightarrow> logs read_only s s' \<and>
     (if b then errorCount s' = errorCount s else errorCount s < errorCount s' \<and> dew_HadError (dew s') ref)"

lemma waitOutcome_before:
  assumes "same_but_log s s1" "logs read_only s s1" "waitOutcome ref b (s1\<lparr>dew := d, warningCount := n\<rparr>) s'"
  shows "waitOutcome ref b s s'"
  using assms logs.trans [of read_only s "s1\<lparr>dew := d, warningCount := n\<rparr>" s']
  by (auto simp: waitOutcome_def same_but_log_def logs_def)

lemma waitOutcome_trans:
  "same_but_log s s1 \<Longrightarrow> logs read_only s s1 \<Longrightarrow> waitOutcome ref b s1 s' \<Longrightarrow> waitOutcome ref b s s'"
  using logs.trans [of read_only s s1 s'] by (auto simp: waitOutcome_def same_but_log_def)

lemma HandleErrors_run:
  "es \<noteq> [] \<Longrightarrow> \<exists>s'. forM (\<lambda>e. HandleError E ref (f e)) es s = (Inr (), s') \<and> waitOutcome ref False s s'"
proof (induction es arbitrary: s)
  case (Cons e es)
  obtain s1 where 1: "HandleError E ref (f e) s = (Inr (), s1)" and o: "waitOutcome ref False s s1"
    by (auto simp: HandleError_def run_simps waitOutcome_def logs_same HadError_AddError)
  show ?case
  proof (cases "es = []")
    case True
    then show ?thesis using 1 o by (auto simp: seqM_def run_bindM(1) run_simps)
  next
    case False
    then obtain s' where "forM (\<lambda>e. HandleError E ref (f e)) es s1 = (Inr (), s')" "waitOutcome ref False s1 s'"
      using Cons.IH by blast
    then have "forM (\<lambda>e. HandleError E ref (f e)) (e # es) s = (Inr (), s') \<and> waitOutcome ref False s s'"
      using 1 o by (auto simp: seqM_def run_bindM(1) waitOutcome_def intro: logs.trans)
    then show ?thesis by blast
  qed
qed simp

lemma HandleError_False:
  "\<exists>s'. seqM (HandleError E ref e) (ret False) s = (Inr False, s') \<and> waitOutcome ref False s s'"
  by (auto simp: seqM_def bindM_def HandleError_def run_simps waitOutcome_def logs_same HadError_AddError)

lemma HandleError_any: "\<exists>b s'. seqM (HandleError E ref e) (ret False) s = (Inr b, s') \<and> waitOutcome ref b s s'"
  using HandleError_False by blast

lemma waitLoop_returns:
  assumes readable: "\<And>h q. \<exists>r a. GetK8sRef (ae_L E) (rp_Obj (k_client (ae_k E) h q)) = Inr r \<and>
      GetK8sAnnotation ''kluctl.io/validate-ignore'' (rp_Obj (k_client (ae_k E) h q)) = Inr a"
    and timer: "\<And>h. N \<le> length h \<Longrightarrow> ae_timerFired E h t"
  shows "N < n + length (reqlog s) \<Longrightarrow> 0 < n \<Longrightarrow> \<exists>b s'. waitLoop E n ref t s = (Inr b, s') \<and> waitOutcome ref b s s'"
proof (induction n arbitrary: s)
  case (Suc n)
  obtain r ws e s1 where get: "GetSingleObject (ae_k E) ref s = (Inr (r, ws, e), s1)"
    and s1: "same_but_log s s1" "logs read_only s s1"
    and ok: "e = None \<Longrightarrow> length (reqlog s1) = Suc (length (reqlog s)) \<and> (\<exists>h q. r = Some (rp_Obj (k_client (ae_k E) h q)))"
    using GetSingleObject_run [of "ae_k E" ref s] by blast
  let ?s2 = "s1\<lparr>dew := dew_AddApiWarnings ref ws (dew s1), warningCount := warningCount s1 + length ws\<rparr>"
  have warn: "handleApiWarnings ref ws s1 = (Inr (), ?s2)" by (simp add: handleApiWarnings_def run_simps)
  note run = waitLoop.simps(2) [of E n ref t] seqM_def run_bindM(1) [where m = "GetSingleObject (ae_k E) ref" and s = s, OF get]
    run_bindM(1) [where m = "handleApiWarnings ref ws" and s = s1, OF warn]
  show ?case
  proof (cases e)
    case (Some x)
    let ?e = "if IsNotFound x then Errorf (ObjectRef_String ref @ '' disappeared while waiting for it to become ready'') else x"
    obtain s' where "seqM (HandleError E ref ?e) (ret False) ?s2 = (Inr False, s')" "waitOutcome ref False ?s2 s'"
      using HandleError_False by blast
    moreover have "waitOutcome ref False s s'" by (rule waitOutcome_before [OF s1]) fact
    moreover have "waitLoop E (Suc n) ref t s = seqM (HandleError E ref ?e) (ret False) ?s2"
      using Some by (simp add: run)
    ultimately show ?thesis by auto
  next
    case None
    then obtain ob where r: "r = Some ob" "\<exists>rf. GetK8sRef (ae_L E) ob = Inr rf" "\<exists>a. GetK8sAnnotation ''kluctl.io/validate-ignore'' ob = Inr a"
      using ok readable by blast
    then obtain v s3 where v: "ValidateObject (Some (ae_k E)) (ae_L E) (ae_f2i E) ob False False ?s2 = (Inr v, s3)"
      and s3: "same_but_log ?s2 s3" "logs read_only ?s2 s3"
      using ValidateObject_run by blast
    have len: "Suc (length (reqlog s)) \<le> length (reqlog s3)"
      using ok [OF None] s3(2) by (auto simp: logs_def)
    note run' = run None r(1) run_bindM(1) [where m = "ValidateObject (Some (ae_k E)) (ae_L E) (ae_f2i E) ob False False" and s = ?s2, OF v]
    have "\<exists>b s'. (if vr_Ready v then ret True
          else if vr_Errors v \<noteq> [] then
            seqM (forM (\<lambda>e. HandleError E ref (Errorf (SprintfNoArgs (de_Message e)))) (vr_Errors v)) (ret False)
          else bindM (ask reqlog) (\<lambda>h.
            if k_ctxDone (ae_k E) h \<noteq> None then
              seqM (HandleError E ref (Errorf (''context cancelled while waiting for readiness of '' @ ObjectRef_String ref))) (ret False)
            else if ae_timerFired E h t then
              seqM (HandleError E ref (Errorf (''timed out while waiting for readiness of '' @ ObjectRef_String ref))) (ret False)
            else waitLoop E n ref t)) s3 = (Inr b, s') \<and> waitOutcome ref b s3 s'" (is "\<exists>b s'. ?rest s3 = _ \<and> _")
    proof -
      consider (ready) "vr_Ready v" | (errors) "\<not> vr_Ready v" "vr_Errors v \<noteq> []"
        | (ctx) "\<not> vr_Ready v" "vr_Errors v = []" "k_ctxDone (ae_k E) (reqlog s3) \<noteq> None"
        | (timeout) "\<not> vr_Ready v" "vr_Errors v = []" "k_ctxDone (ae_k E) (reqlog s3) = None" "ae_timerFired E (reqlog s3) t"
        | (again) "\<not> vr_Ready v" "vr_Errors v = []" "k_ctxDone (ae_k E) (reqlog s3) = None" "\<not> ae_timerFired E (reqlog s3) t"
        by blast
      then show ?thesis
      proof cases
        case ready
        then show ?thesis by (auto simp: run_simps waitOutcome_def logs.refl)
      next
        case errors
        then show ?thesis using HandleErrors_run [of "vr_Errors v" E ref "\<lambda>e. Errorf (SprintfNoArgs (de_Message e))" s3]
          by (auto simp: seqM_def run_bindM(1) run_simps)
      next
        case again
        then have "length (reqlog s3) < N" using timer by (meson not_le)
        then show ?thesis using again Suc.IH [of s3] Suc.prems len by (cases n) (simp_all add: bindM_def run_simps)
      qed (use HandleError_any in \<open>simp_all add: bindM_def [of "ask _"] run_simps\<close>)
    qed
    then obtain b s' where "?rest s3 = (Inr b, s')" "waitOutcome ref b s3 s'" by blast
    moreover have "waitOutcome ref b s s'"
      by (rule waitOutcome_before [OF s1 waitOutcome_trans [OF s3]]) fact
    ultimately show ?thesis by (simp add: run')
  qed
qed simp

text \<open>
  C14: Waiting for readiness ends. If the server only returns objects with a readable reference and readable
  annotations, and the timer has fired by the time \<open>N\<close> requests were made, then less than \<open>N\<close> rounds are enough: the wait
  returns, has only read from the cluster, and returns false exactly when it reported an error for the object.
\<close>

theorem WaitReadiness_returns:
  assumes "\<And>h q. \<exists>r a. GetK8sRef (ae_L E) (rp_Obj (k_client (ae_k E) h q)) = Inr r \<and>
      GetK8sAnnotation ''kluctl.io/validate-ignore'' (rp_Obj (k_client (ae_k E) h q)) = Inr a"
    and "\<And>h. N \<le> length h \<Longrightarrow> ae_timerFired E h (if timeout = 0 then o_ReadinessTimeout (ae_o E) else timeout)"
    and "N < k_polls (ae_k E)"
  shows "\<exists>b s'. WaitReadiness E ref timeout s = (Inr b, s') \<and> (\<exists>new. reqlog s' = reqlog s @ new \<and> list_all read_only new) \<and>
    (if b then errorCount s' = errorCount s else errorCount s < errorCount s' \<and> dew_HadError (dew s') ref)"
proof (cases "o_DryRun (ae_o E)")
  case False
  obtain b s' where "waitLoop E (k_polls (ae_k E)) ref (if timeout = 0 then o_ReadinessTimeout (ae_o E) else timeout) s = (Inr b, s')"
    "waitOutcome ref b s s'"
    using waitLoop_returns [where N = N and n = "k_polls (ae_k E)" and s = s and ref = ref, OF assms(1) assms(2)] assms(3) by auto
  then show ?thesis using False by (auto simp: WaitReadiness_def waitOutcome_def logs_def split: if_splits)
qed (auto simp: WaitReadiness_def run_simps intro: exI [of _ True])

section \<open>Examples\<close>

definition sample_options :: "bool \<Rightarrow> bool \<Rightarrow> ApplyUtilOptions" where
  "sample_options dry force = \<lparr>o_ForceApply = True, o_ReplaceOnError = False, o_ForceReplaceOnError = force, o_DryRun = dry,
     o_AbortOnError = False, o_ReadinessTimeout = 300, o_NoWait = False\<rparr>"

definition sample_env :: "ApplyUtilOptions \<Rightarrow> (request \<Rightarrow> reply) \<Rightarrow> (ObjectRef, uo) gomap \<Rightarrow> ApplyEnv" where
  "sample_env opts answer remote = \<lparr>ae_k = sample_cluster False answer,
     ae_ru = \<lparr>ru_remoteObjects = remote, ru_remoteNamespaces = []\<rparr>, ae_o = opts, ae_fp = sample_fp, ae_f2i = (\<lambda>_. 0),
     ae_RandomString = (\<lambda>_. ''x''), ae_crdVersions = (\<lambda>_. None), ae_timerFired = (\<lambda>h _. 2 \<le> length h),
     ae_ParseDuration = (\<lambda>_. Inr 0), ae_order = id\<rparr>"

definition sample_apply :: ApplyUtil where
  "sample_apply = NewApplyUtil dew_Init False [] [] []"

text \<open>A server that returns the same object for every request, and one that refuses every write.\<close>

definition accepts :: "request \<Rightarrow> reply" where
  "accepts r = plain_reply\<lparr>rp_Obj := sample_managed\<rparr>"

definition refuses :: "request \<Rightarrow> reply" where
  "refuses r = plain_reply\<lparr>rp_Err := Some ((Errorf ''refused'')\<lparr>IsNotFound := (case r of ReqDelete _ _ \<Rightarrow> True | _ \<Rightarrow> False)\<rparr>)\<rparr>"

theorem ApplyObject_requests_witness:
  "\<exists>new. reqlog (snd (ApplyObject (sample_env (sample_options True True) refuses [(sample_ref, sample_managed)]) sample_managed False False sample_apply)) =
     new \<and> length new = 3 \<and> list_all harmless new"
proof -
  let ?E = "sample_env (sample_options True True) refuses [(sample_ref, sample_managed)]"
  have r: "GetK8sRef (ae_L ?E) sample_managed = Inr sample_ref" by code_simp
  have d: "dryFlag ?E" by code_simp
  have "length (reqlog (snd (ApplyObject ?E sample_managed False False sample_apply))) = 3" by code_simp
  then show ?thesis using ApplyObject_requests [OF surjective_pairing r, of False False sample_apply] d
    by (auto simp: sample_apply_def NewApplyUtil_def list_all_iff)
qed

theorem finishApply_conflict_witness:
  "\<exists>new. reqlog (snd (finishApply (sample_env (sample_options False True) accepts [(sample_ref, sample_managed)]) sample_ref
       sample_managed False (None, [], Some ((Errorf ''conflict'')\<lparr>IsConflict := True\<rparr>)) sample_apply)) = new \<and>
     length new = 1 \<and> list_all (\<lambda>q. case q of ReqPatch _ force dry \<Rightarrow> force \<and> \<not> dry | _ \<Rightarrow> False) new"
proof -
  let ?E = "sample_env (sample_options False True) accepts [(sample_ref, sample_managed)]"
  let ?e = "(Errorf ''conflict'')\<lparr>IsConflict := True\<rparr>"
  have d: "\<not> dryFlag ?E" by code_simp
  have "length (reqlog (snd (finishApply ?E sample_ref sample_managed False (None, [], Some ?e) sample_apply))) = 1" by code_simp
  then show ?thesis
    using finishApply_conflict [OF surjective_pairing, of ?e ?E sample_ref sample_managed False None "[]" sample_apply] d
    by (auto simp: sample_apply_def NewApplyUtil_def list_all_iff Errorf_def)
qed


theorem WaitReadiness_returns_witness:
  "\<exists>b s'. WaitReadiness (sample_env (sample_options False False) accepts []) sample_ref 0 sample_apply = (Inr b, s') \<and>
     (\<exists>new. reqlog s' = new \<and> list_all read_only new)"
proof -
  let ?E = "sample_env (sample_options False False) accepts []"
  have ob: "rp_Obj (k_client (ae_k ?E) h q) = sample_managed" "ae_L ?E = sample_lib" for h q
    by (simp_all add: sample_env_def sample_cluster_def accepts_def)
  have "GetK8sRef sample_lib sample_managed = Inr sample_ref" "GetK8sAnnotation ''kluctl.io/validate-ignore'' sample_managed = Inr None"
    by code_simp+
  then have "\<exists>r a. GetK8sRef (ae_L ?E) (rp_Obj (k_client (ae_k ?E) h q)) = Inr r \<and>
      GetK8sAnnotation ''kluctl.io/validate-ignore'' (rp_Obj (k_client (ae_k ?E) h q)) = Inr a" for h q
    by (simp only: ob) blast
  then show ?thesis
    using WaitReadiness_returns [of ?E 2 0 sample_ref sample_apply]
    by (auto simp: sample_env_def sample_cluster_def sample_apply_def NewApplyUtil_def)
qed

end
