(* ===== verification/Git_Types.thy ===== *)
theory Git_Types
  imports Go_Strings
begin

text \<open>
  Git references, Git URLs and the keys by which repositories are identified (\<^verbatim>\<open>pkg/types/git_project.go\<close>,
  \<^verbatim>\<open>pkg/types/git_url.go\<close>). A URL is what \<^verbatim>\<open>net/url\<close> makes of it, reduced to the parts the code reads; splitting
  the host into name and port follows the standard library. The (de)serialisation from YAML is not modelled.
\<close>

section \<open>References\<close>

record GitRef =
  ref_Branch :: string
  ref_Tag :: string
  ref_Ref :: string
  ref_Commit :: string

definition noGitRef :: GitRef where
  "noGitRef = \<lparr>ref_Branch = [], ref_Tag = [], ref_Ref = [], ref_Commit = []\<rparr>"

text \<open>The checks of \<^verbatim>\<open>UnmarshalJSON\<close> on a reference that was read as an object.\<close>

definition checkGitRef :: "GitRef \<Rightarrow> unit res" where
  "checkGitRef ref =
     (let cnt = length (filter (\<lambda>x. x \<noteq> []) [ref_Tag ref, ref_Branch ref, ref_Commit ref]) in
      if cnt = 0 then Inl (Error ''either branch, tag or commit must be set'')
      else if cnt \<noteq> 1 then Inl (Error ''only one of the ref fields can be set'')
      else Inr ())"

definition GitRef_String :: "GitRef option \<Rightarrow> string" where
  "GitRef_String r =
     (case r of
        None \<Rightarrow> []
      | Some ref \<Rightarrow>
          if ref_Tag ref \<noteq> [] then ''refs/tags/'' @ ref_Tag ref
          else if ref_Branch ref \<noteq> [] then ''refs/heads/'' @ ref_Branch ref
          else if ref_Ref ref \<noteq> [] then ref_Ref ref
          else [])"

text \<open>\<^verbatim>\<open>strings.SplitN\<close> with a single character as separator and a positive count.\<close>

fun SplitN :: "string \<Rightarrow> char \<Rightarrow> nat \<Rightarrow> string list" where
  "SplitN s c 0 = []"
| "SplitN s c (Suc 0) = [s]"
| "SplitN s c (Suc (Suc n)) =
     (if c \<in> set s then takeWhile (\<lambda>x. x \<noteq> c) s # SplitN (tl (dropWhile (\<lambda>x. x \<noteq> c) s)) c (Suc n) else [s])"

definition ParseGitRef :: "string \<Rightarrow> GitRef res" where
  "ParseGitRef s =
     (if HasPrefix s ''refs/heads/'' then Inr (noGitRef\<lparr>ref_Branch := SplitN s (CHR ''/'') 3 ! 2\<rparr>)
      else if HasPrefix s ''refs/tags/'' then Inr (noGitRef\<lparr>ref_Tag := SplitN s (CHR ''/'') 3 ! 2\<rparr>)
      else Inl (Error (''can't parse '' @ s @ '' as GitRef'')))"

section \<open>Sub directories\<close>

text \<open>The negative pattern: a back slash, slash, colon, star, question mark, quote, angle bracket, bar, caret or control character.\<close>

definition invalidDirName :: "string \<Rightarrow> bool" where
  "invalidDirName dirName \<longleftrightarrow>
     (\<exists>c \<in> set dirName. c \<in> set [CHR 0x5C, CHR ''/'', CHR '':'', CHR ''*'', CHR ''?'', CHR 0x22, CHR ''<'', CHR ''>'', CHR ''|'', CHR ''^''] \<or>
        of_char c < (32 :: nat) \<or> of_char c = (127 :: nat))"

definition validateGitSubDir :: "string \<Rightarrow> bool" where
  "validateGitSubDir path = list_all (\<lambda>d. \<not> invalidDirName d) (SplitChar path (CHR ''/''))"

section \<open>URLs\<close>

record GitUrl =
  u_Scheme :: string
  u_User :: "string option"
  u_Host :: string
  u_Path :: string
  u_RawQuery :: string

definition TrimSuffix :: "string \<Rightarrow> string \<Rightarrow> string" where
  "TrimSuffix s suf = (if HasSuffix s suf then take (length s - length suf) s else s)"

definition TrimPrefix :: "string \<Rightarrow> string \<Rightarrow> string" where
  "TrimPrefix s pre = (if HasPrefix s pre then drop (length pre) s else s)"

text \<open>\<^verbatim>\<open>splitHostPort\<close> of \<^verbatim>\<open>net/url\<close>: the port is what follows the last colon, if it is all digits; brackets are removed.\<close>

definition splitHostPort :: "string \<Rightarrow> string \<times> string" where
  "splitHostPort hostPort =
     (let after = rev (takeWhile (\<lambda>c. c \<noteq> CHR '':'') (rev hostPort));
          before = take (length hostPort - length after - 1) hostPort;
          (host, port) = (if CHR '':'' \<in> set hostPort \<and> list_all is_digit after then (before, after) else (hostPort, []))
      in (if HasPrefix host ''['' \<and> HasSuffix host '']'' then (butlast (tl host), port) else (host, port)))"

definition u_Hostname :: "GitUrl \<Rightarrow> string" where
  "u_Hostname u = fst (splitHostPort (u_Host u))"

definition u_Port :: "GitUrl \<Rightarrow> string" where
  "u_Port u = snd (splitHostPort (u_Host u))"

definition IsSsh :: "GitUrl \<Rightarrow> bool" where
  "IsSsh u \<longleftrightarrow> u_Scheme u = ''ssh'' \<or> u_Scheme u = ''git'' \<or> u_Scheme u = ''git+ssh''"

text \<open>The switch over the schemes: the default port, \<open>Some []\<close> for \<^verbatim>\<open>file\<close>, \<open>None\<close> for an unknown scheme.\<close>

definition defaultPort :: "string \<Rightarrow> string option" where
  "defaultPort scheme = map_of
     [(''http'', ''80''), (''https'', ''443''), (''git'', ''22''), (''git+ssh'', ''22''), (''ssh'', ''22''), (''ftp'', ''21''),
      (''rsync'', ''873''), (''file'', [])] scheme"

definition NormalizePort :: "GitUrl \<Rightarrow> string" where
  "NormalizePort u =
     (let port = u_Port u in
      if port = [] then []
      else case defaultPort (u_Scheme u) of
        None \<Rightarrow> port
      | Some d \<Rightarrow> if d = [] \<or> port = d then [] else port)"

definition Normalize :: "GitUrl \<Rightarrow> GitUrl" where
  "Normalize u =
     (let path = TrimSuffix (TrimSuffix (ToLower (u_Path u)) ''.git'') ''/'';
          hostname = ToLower (u_Hostname u);
          port = NormalizePort u;
          path = (if path \<noteq> [] \<and> hostname \<noteq> [] \<and> \<not> HasPrefix path ''/'' then ''/'' @ path else path)
      in u\<lparr>u_Path := path, u_Host := (if port \<noteq> [] then hostname @ '':'' @ port else hostname)\<rparr>)"

record GitRepoKey =
  rk_Host :: string
  rk_Path :: string

definition RepoKey :: "GitUrl \<Rightarrow> GitRepoKey" where
  "RepoKey u = (let u2 = Normalize u in \<lparr>rk_Host = u_Host u2, rk_Path = TrimPrefix (u_Path u2) ''/''\<rparr>)"

definition ParseGitRepoKey :: "string \<Rightarrow> GitRepoKey res" where
  "ParseGitRepoKey s =
     (if s = [] then Inr \<lparr>rk_Host = [], rk_Path = []\<rparr>
      else case SplitN s (CHR ''/'') 2 of
        [host, path] \<Rightarrow> Inr \<lparr>rk_Host = host, rk_Path = path\<rparr>
      | _ \<Rightarrow> Inl (Error (''invalid git repo key: '' @ s)))"

definition GitRepoKey_String :: "GitRepoKey \<Rightarrow> string" where
  "GitRepoKey_String k = (if rk_Host k = [] \<and> rk_Path k = [] then [] else rk_Host k @ ''/'' @ rk_Path k)"

section \<open>Laws\<close>

lemma SplitN_step:
  assumes "c \<notin> set a"
  shows "SplitN (a @ c # b) c (Suc (Suc n)) = a # SplitN b c (Suc n)"
proof -
  have "takeWhile (\<lambda>x. x \<noteq> c) (a @ c # b) = a" "dropWhile (\<lambda>x. x \<noteq> c) (a @ c # b) = c # b"
    using assms by (induction a) auto
  then show ?thesis by simp
qed

lemma SplitN_two: "c \<notin> set a \<Longrightarrow> SplitN (a @ c # b) c 2 = [a, b]"
  by (simp add: numeral_2_eq_2 SplitN_step del: SplitN.simps(3))

lemma SplitN_three: "c \<notin> set a \<Longrightarrow> c \<notin> set b \<Longrightarrow> SplitN (a @ c # b @ c # d) c 3 = [a, b, d]"
  by (simp add: numeral_3_eq_3 SplitN_step del: SplitN.simps(3))

text \<open>
  Keys and references survive printing and parsing: a repository key whose host has no slash, and a
  reference that names exactly a branch or a tag, are read back as they were.
\<close>

theorem GitRepoKey_roundtrip:
  assumes "CHR ''/'' \<notin> set (rk_Host k)" and "b \<noteq> []"
  shows "ParseGitRepoKey (GitRepoKey_String k) = Inr k \<and>
    ParseGitRef (GitRef_String (Some (noGitRef\<lparr>ref_Branch := b\<rparr>))) = Inr (noGitRef\<lparr>ref_Branch := b\<rparr>) \<and>
    ParseGitRef (GitRef_String (Some (noGitRef\<lparr>ref_Tag := b\<rparr>))) = Inr (noGitRef\<lparr>ref_Tag := b\<rparr>)"
proof (intro conjI)
  show "ParseGitRepoKey (GitRepoKey_String k) = Inr k"
    using SplitN_two [OF assms(1), of "rk_Path k"] by (cases k) (auto simp: ParseGitRepoKey_def GitRepoKey_String_def)
  show "ParseGitRef (GitRef_String (Some (noGitRef\<lparr>ref_Branch := b\<rparr>))) = Inr (noGitRef\<lparr>ref_Branch := b\<rparr>)"
    using SplitN_three [of "CHR ''/''" "''refs''" "''heads''" b] HasPrefix_append [of "''refs/heads/''" b]
    by (simp add: GitRef_String_def ParseGitRef_def noGitRef_def assms(2))
  show "ParseGitRef (GitRef_String (Some (noGitRef\<lparr>ref_Tag := b\<rparr>))) = Inr (noGitRef\<lparr>ref_Tag := b\<rparr>)"
    using SplitN_three [of "CHR ''/''" "''refs''" "''tags''" b] HasPrefix_append [of "''refs/tags/''" b]
    by (simp add: GitRef_String_def ParseGitRef_def noGitRef_def assms(2) HasPrefix_def)
qed

theorem GitRepoKey_roundtrip_witness:
  "ParseGitRepoKey (GitRepoKey_String \<lparr>rk_Host = ''github.com'', rk_Path = ''kluctl/kluctl''\<rparr>) =
     Inr \<lparr>rk_Host = ''github.com'', rk_Path = ''kluctl/kluctl''\<rparr>"
  using GitRepoKey_roundtrip [of "\<lparr>rk_Host = ''github.com'', rk_Path = ''kluctl/kluctl''\<rparr>" "''main''"] by simp

section \<open>Keys identify repositories\<close>

lemma HasSuffix_append: "HasSuffix (s @ t) t"
  by (simp add: HasSuffix_def)

lemma TrimSuffix_append: "TrimSuffix (s @ t) t = s"
  by (simp add: TrimSuffix_def HasSuffix_append)

lemma TrimSuffix_other: "\<not> HasSuffix s t \<Longrightarrow> TrimSuffix s t = s"
  by (simp add: TrimSuffix_def)

lemma HasSuffix_iff: "HasSuffix s t \<longleftrightarrow> suffix t s"
  by (simp add: HasSuffix_def HasPrefix_iff suffix_to_prefix)

lemma splitHostPort_plain:
  "CHR '':'' \<notin> set h \<Longrightarrow> \<not> HasPrefix h ''['' \<Longrightarrow> splitHostPort h = (h, [])"
  by (simp add: splitHostPort_def)

lemma splitHostPort_port:
  assumes "CHR '':'' \<notin> set h" "\<not> HasPrefix h ''[''" "list_all is_digit d" "CHR '':'' \<notin> set d"
  shows "splitHostPort (h @ '':'' @ d) = (h, d)"
proof -
  have "takeWhile (\<lambda>c. c \<noteq> CHR '':'') (rev d @ CHR '':'' # rev h) = rev d"
    using assms(4) by (subst takeWhile_append2) auto
  then show ?thesis using assms by (simp add: splitHostPort_def)
qed

lemma lower_char_slash [simp]: "lower_char c = CHR ''/'' \<longleftrightarrow> c = CHR ''/''"
proof -
  have "of_char (lower_char c) \<noteq> (47 :: nat)" if "c \<noteq> CHR ''/''"
  proof
    assume 47: "of_char (lower_char c) = (47 :: nat)"
    then have "of_char c = (47 :: nat)" by (auto simp: lower_char_def Let_def split: if_splits)
    then have "c = char_of (47 :: nat)" by (metis char_of_char)
    moreover have "char_of (47 :: nat) = CHR ''/''" by code_simp
    ultimately show False using that by simp
  qed
  moreover have "of_char CHR ''/'' = (47 :: nat)" "lower_char CHR ''/'' = CHR ''/''" by code_simp+
  ultimately show ?thesis by metis
qed

lemma lower_slash [simp]: "lower_char CHR ''/'' = CHR ''/''"
  by simp

lemma HasPrefix_slash: "HasPrefix (ToLower p) ''/'' = HasPrefix p ''/''"
  by (cases p) (auto simp: HasPrefix_def ToLower_def)

lemma ToLower_append: "ToLower (s @ t) = ToLower s @ ToLower t"
  by (simp add: ToLower_def)

lemma defaultPort_digits: "defaultPort scheme = Some d \<Longrightarrow> list_all is_digit d \<and> CHR '':'' \<notin> set d"
  by (auto simp: defaultPort_def is_digit_def split: if_splits)

lemma trimmed_path:
  assumes "\<not> HasSuffix s ''.git''" "\<not> HasSuffix s ''/''" "tail \<in> {[], ''.git'', ''/''}"
  shows "TrimSuffix (TrimSuffix (s @ ToLower tail) ''.git'') ''/'' = s"
proof -
  have "ToLower ''.git'' = ''.git''" "ToLower ''/'' = ''/''" by code_simp+
  moreover have "\<not> HasSuffix (s @ ''/'') ''.git''" by (simp add: HasSuffix_def HasPrefix_def)
  ultimately show ?thesis using assms TrimSuffix_append [of s "''.git''"] TrimSuffix_append [of s "''/''"]
    by (auto simp: TrimSuffix_other ToLower_def)
qed

text \<open>
  C26: Different spellings of a repository URL have one key: the scheme, the user, the query, the case of host
  and path, an explicit default port, a leading slash, and a suffix \<^verbatim>\<open>.git\<close> or a trailing slash do not matter.
\<close>

theorem RepoKey_canonical:
  assumes "CHR '':'' \<notin> set h" "\<not> HasPrefix h ''[''" "h \<noteq> []"
    and "p \<noteq> []" "\<not> HasPrefix p ''/''" "\<not> HasSuffix (ToLower p) ''.git''" "\<not> HasSuffix (ToLower p) ''/''"
    and "host = h \<or> (\<exists>d. defaultPort scheme = Some d \<and> d \<noteq> [] \<and> host = h @ '':'' @ d)"
    and "lead \<in> {[], ''/''}" "tail \<in> {[], ''.git'', ''/''}"
  shows "RepoKey \<lparr>u_Scheme = scheme, u_User = usr, u_Host = host, u_Path = lead @ p @ tail, u_RawQuery = q\<rparr> =
    \<lparr>rk_Host = ToLower h, rk_Path = ToLower p\<rparr>"
proof -
  let ?u = "\<lparr>u_Scheme = scheme, u_User = usr, u_Host = host, u_Path = lead @ p @ tail, u_RawQuery = q\<rparr>"
  have host: "u_Hostname ?u = h \<and> NormalizePort ?u = []"
    using assms(8) splitHostPort_plain [OF assms(1,2)] splitHostPort_port [OF assms(1,2)] defaultPort_digits [of scheme]
    by (auto simp: u_Hostname_def NormalizePort_def u_Port_def)
  have "\<not> HasSuffix (ToLower (lead @ p)) ''.git'' \<and> \<not> HasSuffix (ToLower (lead @ p)) ''/''"
    using assms(4,6,7,9) by (auto simp: HasSuffix_iff suffix_Cons ToLower_def)
  then have path: "TrimSuffix (TrimSuffix (ToLower (lead @ p @ tail)) ''.git'') ''/'' = ToLower (lead @ p)"
    using trimmed_path [of "ToLower (lead @ p)" tail] assms(10) by (simp add: ToLower_append)
  have "ToLower (lead @ p) \<noteq> []" "ToLower h \<noteq> []" using assms(3,4) by (simp_all add: ToLower_def)
  then have "u_Path (Normalize ?u) = ''/'' @ ToLower p" "u_Host (Normalize ?u) = ToLower h"
    using host path assms(5,9) by (auto simp: Normalize_def Let_def HasPrefix_slash) (auto simp: ToLower_def HasPrefix_def)
  then show ?thesis by (simp add: RepoKey_def Let_def TrimPrefix_def HasPrefix_def)
qed

theorem RepoKey_canonical_witness:
  "RepoKey \<lparr>u_Scheme = ''https'', u_User = None, u_Host = ''GitHub.com:443'', u_Path = ''/Org/Repo.git'', u_RawQuery = []\<rparr> =
     \<lparr>rk_Host = ''github.com'', rk_Path = ''org/repo''\<rparr>"
proof -
  have "RepoKey \<lparr>u_Scheme = ''https'', u_User = None, u_Host = ''GitHub.com:443'', u_Path = ''/'' @ ''Org/Repo'' @ ''.git'', u_RawQuery = []\<rparr> =
    \<lparr>rk_Host = ToLower ''GitHub.com'', rk_Path = ToLower ''Org/Repo''\<rparr>"
    by (rule RepoKey_canonical)
      (auto simp: HasPrefix_def HasSuffix_def ToLower_def lower_char_def defaultPort_def Let_def)
  moreover have "ToLower ''GitHub.com'' = ''github.com''" "ToLower ''Org/Repo'' = ''org/repo''" by code_simp+
  ultimately show ?thesis by simp
qed

text \<open>
  C35: The suffixes are removed in one order only: with both of them the \<^verbatim>\<open>.git\<close> stays in the key, so the same
  repository has two keys.
\<close>

theorem RepoKey_both_suffixes:
  "rk_Path (RepoKey \<lparr>u_Scheme = ''https'', u_User = None, u_Host = ''github.com'', u_Path = ''/org/repo.git/'', u_RawQuery = []\<rparr>) = ''org/repo.git'' \<and>
   rk_Path (RepoKey \<lparr>u_Scheme = ''https'', u_User = None, u_Host = ''github.com'', u_Path = ''/org/repo.git'', u_RawQuery = []\<rparr>) = ''org/repo''"
  by code_simp

end
