(* ===== verification/Deployment_Types.thy ===== *)
theory Deployment_Types
  imports Git_Types Uo_K8s Util_Collections
begin

text \<open>
  The configuration of deployment projects and their items as it is read from YAML (\<^verbatim>\<open>pkg/types\<close>), with the
  validators that run after unmarshalling; a validator gives the messages it reports. A field
  \<^verbatim>\<open>renderedInclude\<close> points to the configuration of the included project, which the project tree holds; the
  record only says whether it is set.
\<close>

section \<open>Sources of variables\<close>

record VarsSourceGit =
  vg_Url :: GitUrl
  vg_Ref :: "GitRef option"
  vg_Path :: string

record VarsSourceClusterConfigMapOrSecret =
  vc_Name :: string
  vc_Labels :: "(string, string) gomap"
  vc_Namespace :: string
  vc_Key :: string
  vc_TargetPath :: string

definition ValidateVarsSourceClusterConfigMapOrSecret :: "VarsSourceClusterConfigMapOrSecret \<Rightarrow> string list" where
  "ValidateVarsSourceClusterConfigMapOrSecret s =
     (if vc_Name s = [] \<and> vc_Labels s = [] then [''either name or labels must be set'']
      else if vc_Name s \<noteq> [] \<and> vc_Labels s \<noteq> [] then [''only one of name or labels can be set'']
      else [])"

record VarsSourceHttp =
  vh_Url :: string
  vh_Method :: "string option"
  vh_Body :: "string option"
  vh_Headers :: "(string, string) gomap"
  vh_JsonPath :: "string option"

record VarsSourceAwsSecretsManager =
  va_SecretName :: string
  va_Region :: "string option"
  va_Profile :: "string option"

record VarsSourceVault =
  vv_Address :: string
  vv_Path :: string

record VarsSource =
  vs_IgnoreMissing :: "bool option"
  vs_NoOverride :: "bool option"
  vs_Values :: "uo option"
  vs_File :: "string option"
  vs_Git :: "VarsSourceGit option"
  vs_ClusterConfigMap :: "VarsSourceClusterConfigMapOrSecret option"
  vs_ClusterSecret :: "VarsSourceClusterConfigMapOrSecret option"
  vs_SystemEnvVars :: "uo option"
  vs_Http :: "VarsSourceHttp option"
  vs_AwsSecretsManager :: "VarsSourceAwsSecretsManager option"
  vs_Vault :: "VarsSourceVault option"
  vs_When :: string
  vs_RenderedVars :: "uo option"

definition ValidateVarsSource :: "VarsSource \<Rightarrow> string list" where
  "ValidateVarsSource s =
     (let count = length (filter id
        [vs_Values s \<noteq> None, vs_File s \<noteq> None, vs_Git s \<noteq> None, vs_ClusterConfigMap s \<noteq> None, vs_ClusterSecret s \<noteq> None,
         vs_SystemEnvVars s \<noteq> None, vs_Http s \<noteq> None, vs_AwsSecretsManager s \<noteq> None, vs_Vault s \<noteq> None])
      in if count = 0 then [''unknown vars source type'']
         else if count \<noteq> 1 then [''more then one vars source type'']
         else [])"

section \<open>Git and Helm\<close>

record GitProject =
  gp_Url :: GitUrl
  gp_Ref :: "GitRef option"
  gp_SubDir :: string

definition ValidateGitProject :: "GitProject \<Rightarrow> string list" where
  "ValidateGitProject gp =
     (if \<not> validateGitSubDir (gp_SubDir gp) then [CHR 0x27 # gp_SubDir gp @ [CHR 0x27] @ '' is not valid git subdirectory path''] else [])"

record HelmChartConfig =
  hc_Repo :: string
  hc_Path :: string
  hc_CredentialsId :: "string option"
  hc_ChartName :: string
  hc_ChartVersion :: string
  hc_UpdateConstraints :: "string option"
  hc_ReleaseName :: string
  hc_Namespace :: "string option"
  hc_Output :: "string option"
  hc_SkipCRDs :: bool
  hc_SkipUpdate :: bool
  hc_SkipPrePull :: bool

text \<open>\<^verbatim>\<open>registry.IsOCI\<close> of Helm tests for the prefix \<^verbatim>\<open>oci://\<close>; it is a parameter here.\<close>

definition ValidateHelmChartConfig :: "(string \<Rightarrow> bool) \<Rightarrow> HelmChartConfig \<Rightarrow> string list" where
  "ValidateHelmChartConfig isOCI c =
     (if hc_Repo c = [] \<and> hc_Path c = [] then [''either repo or path must be specified'']
      else if hc_Repo c \<noteq> [] \<and> hc_Path c \<noteq> [] then [''only one of repo and path can be specified'']
      else if hc_Repo c \<noteq> [] then
        (if hc_ChartVersion c = [] then [''chartVersion must be specified when repo is specified''] else []) @
        (if isOCI (hc_Repo c) then
           (if hc_ChartName c \<noteq> [] then [''chartName can not be specified when repo is a OCI url''] else [])
         else
           (if hc_ChartName c = [] then [''chartName must be specified when repo is normal Helm repo''] else []))
      else if hc_Path c \<noteq> [] then
        (if hc_ChartName c \<noteq> [] then [''chartName can not be specified for local Helm charts''] else []) @
        (if hc_ChartVersion c \<noteq> [] then [''chartVersion can not be specified for local Helm charts''] else []) @
        (if hc_UpdateConstraints c \<noteq> None then [''updateConstraints can not be specified for local Helm charts''] else [])
      else [])"

section \<open>Deployments\<close>

record DeleteObjectItemConfig =
  do_Group :: "string option"
  do_Kind :: "string option"
  do_Name :: string
  do_Namespace :: string

definition ValidateDeleteObjectItemConfig :: "DeleteObjectItemConfig \<Rightarrow> string list" where
  "ValidateDeleteObjectItemConfig s =
     (if do_Group s = None \<and> do_Kind s = None then [''at least one of group or kind must be set''] else [])"

record DeploymentItemConfig =
  ic_Path :: "string option"
  ic_Include :: "string option"
  ic_Git :: "GitProject option"
  ic_Tags :: "string list"
  ic_Barrier :: bool
  ic_Message :: "string option"
  ic_WaitReadiness :: bool
  ic_Vars :: "VarsSource list"
  ic_SkipDeleteIfTags :: bool
  ic_OnlyRender :: bool
  ic_AlwaysDeploy :: bool
  ic_DeleteObjects :: "DeleteObjectItemConfig list"
  ic_When :: string
  ic_RenderedHelmChartConfig :: "HelmChartConfig option"
  ic_RenderedObjects :: "ObjectRef list"
  ic_RenderedInclude :: bool

definition noItemConfig :: DeploymentItemConfig where
  "noItemConfig = \<lparr>ic_Path = None, ic_Include = None, ic_Git = None, ic_Tags = [], ic_Barrier = False, ic_Message = None,
     ic_WaitReadiness = False, ic_Vars = [], ic_SkipDeleteIfTags = False, ic_OnlyRender = False, ic_AlwaysDeploy = False,
     ic_DeleteObjects = [], ic_When = [], ic_RenderedHelmChartConfig = None, ic_RenderedObjects = [], ic_RenderedInclude = False\<rparr>"

definition ValidateDeploymentItemConfig :: "DeploymentItemConfig \<Rightarrow> string list" where
  "ValidateDeploymentItemConfig s =
     (let cnt = (if ic_Path s \<noteq> None then 1 else 0) + (if ic_Include s \<noteq> None then 1 else 0) + (if ic_Git s \<noteq> None then 1 else 0) :: nat in
      (if cnt > 1 then [''only one of path, include and git can be set at the same time''] else []) @
      (if ic_Path s = None \<and> ic_WaitReadiness s then [''only kustomize deployments are allowed to have waitReadiness set''] else []))"

record IgnoreForDiffItemConfig =
  ig_FieldPath :: "string list"
  ig_FieldPathRegex :: "string list"
  ig_Group :: "string option"
  ig_Kind :: "string option"
  ig_Name :: "string option"
  ig_Namespace :: "string option"

definition ValidateIgnoreForDiffItemConfig :: "IgnoreForDiffItemConfig \<Rightarrow> string list" where
  "ValidateIgnoreForDiffItemConfig s =
     (if length (ig_FieldPath s) + length (ig_FieldPathRegex s) = 0 then [''at least one of fieldPath or fieldPathRegex must be set''] else [])"

record DeploymentProjectConfig =
  pc_Vars :: "VarsSource list"
  pc_SealedSecrets :: "string option option"
  pc_When :: string
  pc_Deployments :: "DeploymentItemConfig list"
  pc_CommonLabels :: "(string, string) gomap"
  pc_CommonAnnotations :: "(string, string) gomap"
  pc_OverrideNamespace :: "string option"
  pc_Tags :: "string list"
  pc_IgnoreForDiff :: "IgnoreForDiffItemConfig list"

record FixedImage =
  fi_Image :: string
  fi_ResultImage :: string
  fi_DeployedImage :: "string option"
  fi_Namespace :: "string option"
  fi_Object :: "ObjectRef option"
  fi_Deployment :: "string option"
  fi_Container :: "string option"
  fi_DeployTags :: "string list"
  fi_DeploymentDir :: "string option"

section \<open>Projects and items\<close>

text \<open>
  A project of the tree of includes, with the chain of its parents: the first element is the project itself, the
  last the root. \<open>pf_parentProjectInclude\<close> is the item of the parent that includes it. The variables of a
  context are an object; the template engine is a parameter where it is used.
\<close>

record Source =
  src_id :: string
  src_dir :: string

record ProjectFrame =
  pf_VarsCtx :: uo
  pf_source :: Source
  pf_relDir :: string
  pf_absDir :: string
  pf_Config :: DeploymentProjectConfig
  pf_parentProjectInclude :: "DeploymentItemConfig option"

record DeploymentItem =
  di_Project :: "ProjectFrame list"
  di_Inclusion :: "Inclusion option"
  di_Config :: DeploymentItemConfig
  di_VarsCtx :: uo
  di_dir :: "string option"
  di_index :: int
  di_Barrier :: bool
  di_WaitReadiness :: bool
  di_Objects :: "uo list"
  di_Tags :: "bool OrderedMap"
  di_RenderedSourceRootDir :: string
  di_RelToSourceItemDir :: string
  di_RelToProjectItemDir :: string
  di_RelRenderedDir :: string
  di_RenderedDir :: string
  di_renderedYamlPath :: string

section \<open>Targets and the project configuration\<close>

record SealingConfig =
  sc_Args :: "uo option"
  sc_SecretSets :: "string list"
  sc_CertFile :: "string option"

record Target =
  t_Name :: string
  t_Context :: "string option"
  t_Args :: "uo option"
  t_SealingConfig :: "SealingConfig option"
  t_Images :: "FixedImage list"
  t_Discriminator :: string

text \<open>The default of an argument is its JSON text.\<close>

record DeploymentArg =
  da_Name :: string
  da_Default :: "string option"

record SecretSet =
  ss_Name :: string
  ss_Vars :: "VarsSource list"

record GlobalSealedSecretsConfig =
  gs_Bootstrap :: "bool option"
  gs_Namespace :: "string option"
  gs_ControllerName :: "string option"

record SecretsConfig =
  sec_SealedSecrets :: "GlobalSealedSecretsConfig option"
  sec_SecretSets :: "SecretSet list"

record KluctlProject =
  kp_Targets :: "Target list"
  kp_Args :: "DeploymentArg list"
  kp_SecretsConfig :: "SecretsConfig option"
  kp_Discriminator :: string


end
