(* ===== verification/Hooks.thy ===== *)
theory Hooks
  imports Apply_Safety Deployment_Types
begin

text \<open>
  Hooks of a deployment item (\<^verbatim>\<open>hooks_util.go\<close>): how an object becomes a hook, the order of hooks, and their
  execution with the delete policies before and after. Sets of names are association lists, in the order in which
  Go happens to iterate over them.
\<close>

section \<open>Recognising hooks\<close>

definition supportedKluctlHooks :: "string list" where
  "supportedKluctlHooks = [''pre-deploy'', ''post-deploy'', ''pre-deploy-initial'', ''post-deploy-initial'',
     ''pre-deploy-upgrade'', ''post-deploy-upgrade'']"

definition supportedKluctlDeletePolicies :: "string list" where
  "supportedKluctlDeletePolicies = [''before-hook-creation'', ''hook-succeeded'', ''hook-failed'']"

definition supportedHelmHooks :: "string list" where
  "supportedHelmHooks = [''pre-install'', ''post-install'', ''pre-upgrade'', ''post-upgrade'', ''pre-delete'', ''post-delete'',
     ''pre-rollback'', ''post-rollback'']"

record hook =
  hk_object :: uo
  hk_hooks :: "(string, bool) gomap"
  hk_weight :: int
  hk_deletePolicies :: "(string, bool) gomap"
  hk_wait :: bool
  hk_timeout :: int

definition addAll :: "string list \<Rightarrow> (string, bool) gomap \<Rightarrow> (string, bool) gomap" where
  "addAll xs m = foldl (\<lambda>m x. AList.update x True m) m xs"

definition getSet :: "uo \<Rightarrow> string \<Rightarrow> (string, bool) gomap res" where
  "getSet ob name =
     bindE (GetK8sAnnotation name ob) (\<lambda>a.
     case a of
       None \<Rightarrow> Inr []
     | Some s \<Rightarrow> Inr (addAll (filter (\<lambda>x. x \<noteq> []) (map TrimSpace (SplitChar s (CHR '','')))) []))"

text \<open>The hooks of Helm and what they are for kluctl.\<close>

definition helmNames :: "(string \<times> string) list" where
  "helmNames = [(''pre-install'', ''pre-deploy-initial''), (''pre-upgrade'', ''pre-deploy-upgrade''),
     (''post-install'', ''post-deploy-initial''), (''post-upgrade'', ''post-deploy-upgrade''),
     (''pre-delete'', ''pre-delete''), (''post-delete'', ''post-delete'')]"

definition helmCompatibility :: "(string, bool) gomap \<Rightarrow> (string, bool) gomap \<Rightarrow> (string, bool) gomap" where
  "helmCompatibility helmHooks hooks =
     addAll (map snd (filter (\<lambda>(h, _). map_of helmHooks h \<noteq> None) helmNames)) hooks"

text \<open>
  \<^verbatim>\<open>strconv.ParseInt(s, 10, 32)\<close> with the value it returns beside an error: zero for bad syntax, the nearest bound when out of
  range.
\<close>

definition parseWeight :: "string \<Rightarrow> int \<times> bool" where
  "parseWeight s =
     (case ParseInt 32 s of
        Inr w \<Rightarrow> (w, True)
      | Inl e \<Rightarrow> (if e = Error ''value out of range'' then if HasPrefix s ''-'' then - (2 ^ 31) else 2 ^ 31 - 1 else 0, False))"

definition weightOf :: "uo \<Rightarrow> string res" where
  "weightOf ob =
     bindE (GetK8sAnnotation ''kluctl.io/hook-weight'' ob) (\<lambda>a.
     case a of
       Some w \<Rightarrow> Inr w
     | None \<Rightarrow> bindE (GetK8sAnnotation ''helm.sh/hook-weight'' ob) (\<lambda>b. Inr (case b of Some w \<Rightarrow> w | None \<Rightarrow> ''0'')))"

definition waitOf :: "ApplyEnv \<Rightarrow> ObjectRef \<Rightarrow> uo \<Rightarrow> bool aeff" where
  "waitOf E ref ob =
     bindM (lift (GetK8sAnnotation ''kluctl.io/hook-wait'' ob)) (\<lambda>a.
     let waitStr = (case a of Some w \<Rightarrow> w | None \<Rightarrow> ''true'') in
     case ParseBool waitStr of
       Inr w \<Rightarrow> ret w
     | Inl _ \<Rightarrow> seqM (HandleError E ref (Errorf (''failed to parse '' @ waitStr @ '' as bool''))) (ret True))"

definition timeoutOf :: "ApplyEnv \<Rightarrow> ObjectRef \<Rightarrow> uo \<Rightarrow> int aeff" where
  "timeoutOf E ref ob =
     bindM (lift (GetK8sAnnotation ''kluctl.io/hook-timeout'' ob)) (\<lambda>a.
     case a of
       None \<Rightarrow> ret 0
     | Some t \<Rightarrow>
         (case ae_ParseDuration E t of
            Inr d \<Rightarrow> ret d
          | Inl e \<Rightarrow> seqM (HandleError E ref (Errorf (''failed to parse duration: '' @ (case e of Error m \<Rightarrow> m | _ \<Rightarrow> [])))) (ret 0)))"

definition policiesOf :: "ApplyEnv \<Rightarrow> ObjectRef \<Rightarrow> uo \<Rightarrow> (string, bool) gomap aeff" where
  "policiesOf E ref ob =
     bindM (lift (getSet ob ''kluctl.io/hook-delete-policy'')) (\<lambda>p1.
     bindM (lift (getSet ob ''helm.sh/hook-delete-policy'')) (\<lambda>p2.
     let p3 = addAll (map fst p2) p1;
         deletePolicy = (if p3 = [] then [(''before-hook-creation'', True)] else p3)
     in seqM (forM (\<lambda>(p, _). whenM (FindStrInSlice supportedKluctlDeletePolicies p = - 1)
               (HandleError E ref (Errorf (''unsupported kluctl.io/hook-delete-policy '' @ quoted p)))) deletePolicy)
             (ret deletePolicy)))"

definition GetHook :: "ApplyEnv \<Rightarrow> uo \<Rightarrow> hook option aeff" where
  "GetHook E ob =
     bindM (lift (GetK8sRef (ae_L E) ob)) (\<lambda>ref.
     bindM (lift (GetK8sAnnotation ''kluctl.io/delete'' ob)) (\<lambda>del.
     if ParseBoolOrFalse del then ret None
     else
       bindM (lift (getSet ob ''kluctl.io/hook'')) (\<lambda>hooks.
       seqM (forM (\<lambda>(h, _). whenM (FindStrInSlice supportedKluctlHooks h = - 1)
               (HandleError E ref (Errorf (''unsupported kluctl.io/hook '' @ quoted h)))) hooks)
       (bindM (lift (getSet ob ''helm.sh/hook'')) (\<lambda>helmHooks.
       seqM (forM (\<lambda>(h, _). whenM (FindStrInSlice supportedHelmHooks h = - 1)
               (HandleWarning ref (''unsupported helm.sh/hook '' @ quoted h))) helmHooks)
       (let hooks = helmCompatibility helmHooks hooks in
        bindM (lift (weightOf ob)) (\<lambda>weightStr.
        let (weight, ok) = parseWeight weightStr in
        seqM (whenM (\<not> ok) (HandleError E ref (Errorf ''failed to parse hook weight'')))
        (bindM (policiesOf E ref ob) (\<lambda>deletePolicy.
         bindM (waitOf E ref ob) (\<lambda>wait.
         bindM (timeoutOf E ref ob) (\<lambda>timeout.
         ret (if hooks = [] then None
              else Some \<lparr>hk_object = ob, hk_hooks = hooks, hk_weight = weight, hk_deletePolicies = deletePolicy,
                         hk_wait = wait, hk_timeout = timeout\<rparr>))))))))))))"

text \<open>\<^verbatim>\<open>sort.SliceStable\<close> by weight: insertion sort is stable, and a stable sort is unique.\<close>

definition getSortedHooksList :: "ApplyEnv \<Rightarrow> uo list \<Rightarrow> hook list aeff" where
  "getSortedHooksList E objects =
     bindM (mapM (GetHook E) objects) (\<lambda>hs. ret (sort_key hk_weight (map the (filter (\<lambda>h. h \<noteq> None) hs))))"

definition DetermineHooks :: "ApplyEnv \<Rightarrow> DeploymentItem \<Rightarrow> string list \<Rightarrow> hook list aeff" where
  "DetermineHooks E d hooks =
     bindM (getSortedHooksList E (di_Objects d)) (\<lambda>hs.
     ret (filter (\<lambda>h. list_ex (\<lambda>(h2, _). FindStrInSlice hooks h2 \<noteq> - 1) (hk_hooks h)) hs))"

definition IsPersistent :: "hook \<Rightarrow> bool" where
  "IsPersistent h = list_all (\<lambda>(p, _). p = ''before-hook-creation'' \<or> p = ''hook-failed'') (hk_deletePolicies h)"

section \<open>Running hooks\<close>

definition hasPolicy :: "hook \<Rightarrow> string \<Rightarrow> bool" where
  "hasPolicy h p \<longleftrightarrow> map_of (hk_deletePolicies h) p \<noteq> None"

definition doDeleteForPolicy :: "ApplyEnv \<Rightarrow> hook \<Rightarrow> unit aeff" where
  "doDeleteForPolicy E h =
     bindM (lift (GetK8sRef (ae_L E) (hk_object h))) (\<lambda>ref. bindM (DeleteObject E ref True) (\<lambda>_. ret ()))"

text \<open>One hook: apply it and, unless it failed or is not to be waited for, wait. The result is the recorded wait.\<close>

definition runHook :: "ApplyEnv \<Rightarrow> hook \<Rightarrow> (ObjectRef \<times> bool) option aeff" where
  "runHook E h =
     bindM (lift (GetK8sRef (ae_L E) (hk_object h))) (\<lambda>ref.
     seqM (ApplyObject E (hk_object h) (hasPolicy h ''before-hook-creation'') True)
     (bindM (HadError ref) (\<lambda>bad.
      if bad then ret None
      else if \<not> hk_wait h \<or> o_NoWait (ae_o E) then ret None
      else bindM (WaitReadiness E ref (hk_timeout h)) (\<lambda>r. ret (Some (ref, r))))))"

definition waitResultsOf :: "(ObjectRef \<times> bool) option list \<Rightarrow> (ObjectRef, bool) gomap" where
  "waitResultsOf rs = foldl (\<lambda>m r. case r of None \<Rightarrow> m | Some (ref, b) \<Rightarrow> AList.update ref b m) [] rs"

definition deleteAfter :: "ApplyEnv \<Rightarrow> (ObjectRef, bool) gomap \<Rightarrow> hook \<Rightarrow> bool" where
  "deleteAfter E waitResults h =
     (case GetK8sRef (ae_L E) (hk_object h) of
        Inl _ \<Rightarrow> False
      | Inr ref \<Rightarrow>
          (case map_of waitResults ref of
             None \<Rightarrow> False
           | Some waitResult \<Rightarrow> (waitResult \<and> hasPolicy h ''hook-succeeded'') \<or> (\<not> waitResult \<and> hasPolicy h ''hook-failed'')))"

text \<open>
  The abort signal is looked at for every hook before anything is done. It is never taken back, so the answer that
  counts is the last one: it is read once, when there is a hook.
\<close>

definition RunHooks :: "ApplyEnv \<Rightarrow> hook list \<Rightarrow> unit aeff" where
  "RunHooks E hooks =
     bindM (ask abortSignal) (\<lambda>abort.
     if hooks \<noteq> [] \<and> abort then ret ()
     else
       seqM (forM (doDeleteForPolicy E) (filter (\<lambda>h. hasPolicy h ''before-hook-creation'') hooks))
       (bindM (mapM (runHook E) hooks) (\<lambda>rs.
        forM (doDeleteForPolicy E) (filter (deleteAfter E (waitResultsOf rs)) (rev hooks)))))"

section \<open>The order of hooks\<close>

interpretation returns: outcome_rel "\<lambda>_ _. True" "\<lambda>y s s'. Q y" for Q
  by unfold_locales simp_all

lemma always_True: "always (\<lambda>_ _. True) m"
  by (simp add: always_def)

lemma GetHook_object: "GetHook E ob s = (Inr (Some h), s') \<Longrightarrow> hk_object h = ob"
proof -
  have "ends (\<lambda>y s s'. \<forall>h. y = Some h \<longrightarrow> hk_object h = ob) (GetHook E ob)"
    unfolding GetHook_def Let_def by (intro returns.ends_intros returns.ends_ret always_True) auto
  then show "GetHook E ob s = (Inr (Some h), s') \<Longrightarrow> hk_object h = ob" by (auto dest: endsD)
qed

lemma mapM_results:
  assumes "mapM f xs s = (Inr ys, s')"
  shows "list_all2 (\<lambda>x y. \<exists>s1 s2. f x s1 = (Inr y, s2)) xs ys"
  using assms
proof (induction xs arbitrary: s ys s')
  case (Cons x xs)
  then obtain y s1 zs s2 where "f x s = (Inr y, s1)" "mapM f xs s1 = (Inr zs, s2)" "ys = y # zs"
    by (auto simp: bindM_Inr_iff run_simps)
  then show ?case using Cons.IH by auto
qed (simp add: run_simps)

lemma hooks_of_objects:
  assumes "list_all2 (\<lambda>x y. \<exists>s1 s2. GetHook E x s1 = (Inr y, s2)) obs hs"
  shows "subseq (map hk_object (map the (filter (\<lambda>h. h \<noteq> None) hs))) obs"
  using assms by (induction rule: list_all2_induct) (auto dest: GetHook_object)

lemma filter_commute: "filter P (filter Q xs) = filter Q (filter P xs)"
  by (induction xs) auto

text \<open>
  C15: The hooks of an item for a phase come by ascending weight; hooks of the same weight come in the order of
  their objects, each of them belongs to an object of the item and is of a requested kind.
\<close>

theorem DetermineHooks_order:
  assumes "DetermineHooks E d kinds s = (Inr l, s')"
  shows "sorted (map hk_weight l) \<and> (\<forall>w. subseq (map hk_object (filter (\<lambda>h. hk_weight h = w) l)) (di_Objects d)) \<and>
    (\<forall>h \<in> set l. \<exists>kd \<in> set kinds. kd \<in> fst ` set (hk_hooks h))"
proof -
  obtain hs s1 where hs: "mapM (GetHook E) (di_Objects d) s = (Inr hs, s1)"
    and l: "l = filter (\<lambda>h. list_ex (\<lambda>(h2, _). FindStrInSlice kinds h2 \<noteq> - 1) (hk_hooks h))
              (sort_key hk_weight (map the (filter (\<lambda>h. h \<noteq> None) hs)))"
    using assms by (auto simp: DetermineHooks_def getSortedHooksList_def bindM_Inr_iff run_simps)
  let ?hs = "map the (filter (\<lambda>h. h \<noteq> None) hs)"
  have sub: "subseq (map hk_object ?hs) (di_Objects d)"
    by (rule hooks_of_objects) (rule mapM_results [OF hs])
  have "subseq (map hk_object (filter (\<lambda>h. hk_weight h = w) l)) (di_Objects d)" for w
  proof -
    have "filter (\<lambda>h. hk_weight h = w) l = filter (\<lambda>h. list_ex (\<lambda>(h2, _). FindStrInSlice kinds h2 \<noteq> - 1) (hk_hooks h))
        (filter (\<lambda>h. hk_weight h = w) ?hs)"
      unfolding l by (subst filter_commute) (simp only: sort_key_stable)
    then have "subseq (filter (\<lambda>h. hk_weight h = w) l) ?hs" by (metis subseq_filter_left subseq_order.trans)
    then show ?thesis using sub subseq_map subseq_order.trans by blast
  qed
  moreover have "sorted (map hk_weight l)" by (simp add: l sorted_filter)
  moreover have "\<exists>kd \<in> set kinds. kd \<in> fst ` set (hk_hooks h)" if "h \<in> set l" for h
    using that by (force simp: l list_ex_iff FindStrInSlice_iff)
  ultimately show ?thesis by blast
qed

definition sample_hook :: "string \<Rightarrow> string \<Rightarrow> uo" where
  "sample_hook name weight =
     [(''apiVersion'', VStr ''v1''), (''kind'', VStr ''ConfigMap''),
      (''metadata'', VMap [(''name'', VStr name), (''namespace'', VStr ''default''),
         (''annotations'', VMap [(''kluctl.io/hook'', VStr ''pre-deploy''), (''kluctl.io/hook-weight'', VStr weight)])])]"

definition sample_item :: "uo list \<Rightarrow> DeploymentItem" where
  "sample_item obs = \<lparr>di_Project = [], di_Inclusion = None, di_Config = noItemConfig, di_VarsCtx = [], di_dir = None, di_index = 0,
     di_Barrier = False, di_WaitReadiness = False, di_Objects = obs, di_Tags = \<lparr>om_m = None, om_l = []\<rparr>,
     di_RenderedSourceRootDir = [], di_RelToSourceItemDir = [], di_RelToProjectItemDir = [], di_RelRenderedDir = [],
     di_RenderedDir = [], di_renderedYamlPath = []\<rparr>"

theorem DetermineHooks_order_witness:
  "\<exists>l s'. DetermineHooks (sample_env (sample_options True False) accepts [])
       (sample_item [sample_hook ''b'' ''5'', sample_hook ''a'' ''-1'']) [''pre-deploy''] sample_apply = (Inr l, s') \<and>
     length l = 2 \<and> sorted (map hk_weight l)"
proof -
  let ?r = "DetermineHooks (sample_env (sample_options True False) accepts [])
       (sample_item [sample_hook ''b'' ''5'', sample_hook ''a'' ''-1'']) [''pre-deploy''] sample_apply"
  have "case ?r of (Inr l, _) \<Rightarrow> length l = 2 | _ \<Rightarrow> False" by code_simp
  then obtain l s' where l: "?r = (Inr l, s')" "length l = 2" by (auto split: prod.splits sum.splits)
  then show ?thesis using DetermineHooks_order [OF l(1)] by blast
qed

end
