(* ===== verification/Apply_Deployments.thy ===== *)
theory Apply_Deployments
  imports Hooks
begin

text \<open>
  Applying all items of a deployment (\<^verbatim>\<open>apply_utils.go\<close>): the work on one item, and the concurrent execution of all
  items with its semaphore, barriers and abort signal as a step relation.
\<close>

section \<open>One item\<close>

definition refsToDelete :: "ApplyEnv \<Rightarrow> DeleteObjectItemConfig \<Rightarrow> ObjectRef list aeff" where
  "refsToDelete E x =
     bindM (GetFilteredGVKs (ae_k E) (BuildGVKFilter (do_Group x) None (do_Kind x))) (\<lambda>r.
     case r of
       Inl e \<Rightarrow> seqM (HandleError E noRef e) (ret [])
     | Inr gvks \<Rightarrow> ret (map (\<lambda>(g, v, kd). NewObjectRef g v kd (do_Name x) (do_Namespace x)) gvks))"

definition deleteByAnnotation :: "ApplyEnv \<Rightarrow> uo \<Rightarrow> ObjectRef list res" where
  "deleteByAnnotation E x =
     bindE (GetK8sAnnotation ''kluctl.io/delete'' x) (\<lambda>a.
     if ParseBoolOrFalse a then bindE (GetK8sRef (ae_L E) x) (\<lambda>ref. Inr [ref]) else Inr [])"

definition collectToDelete :: "ApplyEnv \<Rightarrow> DeploymentItem \<Rightarrow> ObjectRef list aeff" where
  "collectToDelete E d =
     bindM (mapM (refsToDelete E) (ic_DeleteObjects (di_Config d))) (\<lambda>l1.
     bindM (lift (mapE (deleteByAnnotation E) (di_Objects d))) (\<lambda>l2.
     ret (remdups (concat l1 @ concat l2))))"

definition isInitialDeploy :: "ApplyEnv \<Rightarrow> DeploymentItem \<Rightarrow> bool res" where
  "isInitialDeploy E d =
     bindE (mapE (GetK8sRef (ae_L E)) (di_Objects d)) (\<lambda>refs.
     Inr (list_all (\<lambda>ref. GetRemoteObject (ae_ru E) ref = None) refs))"

definition selectApply :: "ApplyEnv \<Rightarrow> ObjectRef list \<Rightarrow> uo \<Rightarrow> uo list aeff" where
  "selectApply E toDelete ob =
     bindM (GetHook E ob) (\<lambda>h.
     case h of
       Some _ \<Rightarrow> ret []
     | None \<Rightarrow> bindM (lift (GetK8sRef (ae_L E) ob)) (\<lambda>ref. ret (if ref \<in> set toDelete then [] else [ob])))"

fun applyLoop :: "ApplyEnv \<Rightarrow> DeploymentItem \<Rightarrow> uo list \<Rightarrow> unit aeff" where
  "applyLoop E d [] = ret ()"
| "applyLoop E d (ob # obs) =
     bindM (ask abortSignal) (\<lambda>abort.
     if abort then ret ()
     else
       seqM (ApplyObject E ob False False)
       (bindM (if ic_WaitReadiness (di_Config d) \<or> di_WaitReadiness d then ret True
               else bindM (lift (GetK8sAnnotation ''kluctl.io/wait-readiness'' ob)) (\<lambda>a. ret (ParseBoolOrFalse a))) (\<lambda>waitReadiness.
        seqM (whenM (\<not> o_NoWait (ae_o E) \<and> waitReadiness)
                (bindM (lift (GetK8sRef (ae_L E) ob)) (\<lambda>ref. bindM (WaitReadiness E ref 0) (\<lambda>_. ret ()))))
             (applyLoop E d obs))))"

definition applyDeploymentItem :: "ApplyEnv \<Rightarrow> DeploymentItem \<Rightarrow> unit aeff" where
  "applyDeploymentItem E d =
     bindM (collectToDelete E d) (\<lambda>toDelete.
     bindM (lift (isInitialDeploy E d)) (\<lambda>initialDeploy.
     bindM (mapM (selectApply E toDelete) (di_Objects d)) (\<lambda>sel.
     bindM (DetermineHooks E d [if initialDeploy then ''pre-deploy-initial'' else ''pre-deploy-upgrade'', ''pre-deploy'']) (\<lambda>preHooks.
     bindM (DetermineHooks E d [if initialDeploy then ''post-deploy-initial'' else ''post-deploy-upgrade'', ''post-deploy'']) (\<lambda>postHooks.
     seqM (forM (\<lambda>ref. bindM (DeleteObject E ref False) (\<lambda>_. ret ())) (ae_order E toDelete))
     (seqM (RunHooks E preHooks)
     (seqM (applyLoop E d (concat sel))
     (bindM (ask abortSignal) (\<lambda>abort.
      if abort then ret () else RunHooks E postHooks)))))))))"

section \<open>Collected results\<close>

definition GetNewObjectRefs :: "k8s_lib \<Rightarrow> ApplyUtil list \<Rightarrow> ObjectRef list res" where
  "GetNewObjectRefs L results = mapE (GetK8sRef L) (concat (map (\<lambda>a. map snd (newObjects a)) results))"

definition GetAppliedObjects :: "ApplyUtil list \<Rightarrow> uo list" where
  "GetAppliedObjects results = concat (map (\<lambda>a. map snd (appliedObjects a)) results)"

definition GetAppliedObjectsMap :: "k8s_lib \<Rightarrow> ApplyUtil list \<Rightarrow> (ObjectRef, uo) gomap res" where
  "GetAppliedObjectsMap L results =
     foldE (\<lambda>ob m. bindE (GetK8sRef L ob) (\<lambda>ref. Inr (AList.update ref ob m))) (GetAppliedObjects results) []"

definition GetAppliedHookObjects :: "ApplyUtil list \<Rightarrow> uo list" where
  "GetAppliedHookObjects results = concat (map (\<lambda>a. map snd (appliedHookObjects a)) results)"

definition GetDeletedObjects :: "ApplyUtil list \<Rightarrow> ObjectRef list" where
  "GetDeletedObjects results = rev (remdups (rev (concat (map (\<lambda>a. map fst (deletedObjects a)) results))))"

section \<open>Requests and the invariant\<close>

text \<open>Every writing request of an item carries the dry-run flag.\<close>

definition flagged :: "ApplyEnv \<Rightarrow> request \<Rightarrow> bool" where
  "flagged E q = (case q of ReqPatch x force dry \<Rightarrow> dry = dryFlag E | ReqUpdate x dry \<Rightarrow> dry = dryFlag E
                  | ReqDelete ref dry \<Rightarrow> dry = dryFlag E | _ \<Rightarrow> True)"

lemma flagged_simps:
  "read_only r \<Longrightarrow> flagged E r" "flagged E (ReqDelete ref (dryFlag E))" "apply_request E ref q \<Longrightarrow> flagged E q"
  by (auto simp: flagged_def read_only_def apply_request_def split: request.splits)

lemma flagged_harmless: "flagged E q \<Longrightarrow> dryFlag E \<Longrightarrow> harmless q"
  by (cases q) (simp_all add: flagged_def)

lemma flagged_ApplyObject [logs_intros]: "always (logs (flagged E)) (ApplyObject E x replaced hook)"
proof (cases "GetK8sRef (ae_L E) x")
  case (Inl e)
  then show ?thesis by (simp add: ApplyObject_def logs.always_pure)
next
  case (Inr ref)
  then have "always (logs (apply_request E ref)) (ApplyObject E x replaced hook)" by (rule logs_ApplyObject)
  then show ?thesis by (rule always_mono) (auto elim: logs_mono simp: flagged_simps)
qed

lemma logs_waitLoop: "(\<And>r. read_only r \<Longrightarrow> P r) \<Longrightarrow> always (logs P) (waitLoop E n ref t)"
proof (induction n)
  case (Suc n)
  then show ?case unfolding waitLoop.simps by (intro logs.always_intros logs_intros) simp_all
qed (simp add: logs.always_pure)

lemma logs_WaitReadiness [logs_intros]: "(\<And>r. read_only r \<Longrightarrow> P r) \<Longrightarrow> always (logs P) (WaitReadiness E ref t)"
  unfolding WaitReadiness_def by (intro logs.always_intros logs_waitLoop)

lemma inv_ValidateObject [inv_intros]: "always (keeps (apply_inv E)) (ValidateObject k L f2i ob nri fsr)"
  using same_ValidateObject by (rule keeps_from_same) simp

lemma inv_waitLoop: "always (keeps (apply_inv E)) (waitLoop E n ref t)"
proof (induction n)
  case (Suc n)
  then show ?case unfolding waitLoop.simps by (intro keeps.always_intros inv_intros)
qed (simp add: keeps.always_pure)

lemma inv_WaitReadiness [inv_intros]: "always (keeps (apply_inv E)) (WaitReadiness E ref t)"
  unfolding WaitReadiness_def by (intro keeps.always_intros inv_waitLoop)

text \<open>Whatever relation the primitive operations respect, hooks and items respect.\<close>

locale item_rel = step_rel R for R :: "ApplyUtil \<Rightarrow> ApplyUtil \<Rightarrow> bool" +
  fixes E :: ApplyEnv
  assumes err: "always R (HandleError E ref e)" and warn: "always R (HandleWarning ref w)"
    and put: "always R (ApplyObject E x replaced hook)" and wait: "always R (WaitReadiness E ref t)"
    and delete: "always R (DeleteObject E ref hook)"
begin

lemmas prims = always_intros err warn put wait delete

lemma GetHook: "always R (GetHook E ob)"
  unfolding GetHook_def policiesOf_def waitOf_def timeoutOf_def Let_def by (intro prims)

lemma DetermineHooks: "always R (DetermineHooks E d hooks)"
  unfolding DetermineHooks_def getSortedHooksList_def by (intro prims GetHook)

lemma RunHooks: "always R (RunHooks E hooks)"
  unfolding RunHooks_def runHook_def doDeleteForPolicy_def HadError_def by (intro prims)

lemma applyLoop: "always R (applyLoop E d obs)"
proof (induction obs)
  case (Cons ob obs)
  then show ?case unfolding applyLoop.simps by (intro prims)
qed (simp add: always_pure)

lemma item: "always R (applyDeploymentItem E d)"
  unfolding applyDeploymentItem_def collectToDelete_def refsToDelete_def selectApply_def GetFilteredGVKs_def
  by (intro prims GetHook DetermineHooks RunHooks applyLoop)

end

interpretation item_logs: item_rel "logs (flagged E)" E for E
  by unfold_locales (intro logs_intros flagged_simps; assumption?)+

interpretation item_inv: item_rel "keeps (apply_inv E)" E for E
  by unfold_locales (intro inv_intros)+

section \<open>All items\<close>

text \<open>
  What the workers share: the request log of the cluster, the error reports, the abort signal and the observed
  namespaces and CRDs. A worker starts with an empty \<^verbatim>\<open>ApplyUtil\<close> over it.
\<close>

record shared =
  sh_log :: "request list"
  sh_dew :: DeploymentErrorsAndWarnings
  sh_abort :: bool
  sh_namespaces :: "(string, uo) gomap"
  sh_crds :: "(gvk, bool) gomap"

definition worker :: "shared \<Rightarrow> ApplyUtil" where
  "worker sh = NewApplyUtil (sh_dew sh) (sh_abort sh) (sh_namespaces sh) (sh_crds sh) (sh_log sh)"

definition sharedOf :: "ApplyUtil \<Rightarrow> shared" where
  "sharedOf a = \<lparr>sh_log = reqlog a, sh_dew = dew a, sh_abort = abortSignal a, sh_namespaces = allNamespaces a, sh_crds = allCRDs a\<rparr>"

definition isBarrier :: "DeploymentItem \<Rightarrow> bool" where
  "isBarrier d \<longleftrightarrow> ic_Barrier (di_Config d) \<or> di_Barrier d"

text \<open>
  The main loop is at one of five places: before the abort check, before the semaphore, waiting at a barrier,
  waiting for all workers, or finished. A worker gives the semaphore back before it leaves the wait group.
\<close>

datatype phase = PLoop | PAcquire | PBarrier | PFinal | PDone

record adstate =
  ad_phase :: phase
  ad_next :: nat
  ad_running :: "nat set"
  ad_leaving :: "nat set"
  ad_shared :: shared
  ad_results :: "nat \<rightharpoonup> ApplyUtil"

text \<open>
  Items are known by their position. The effects of an item on what is shared are taken when it ends, except for
  the abort signal, which a running worker can raise at any moment.
\<close>

inductive ApplyDeployments :: "ApplyEnv \<Rightarrow> DeploymentItem list \<Rightarrow> adstate \<Rightarrow> adstate \<Rightarrow> bool" for E ds where
  check: "ad_phase s = PLoop \<Longrightarrow> ad_next s < length ds \<Longrightarrow> \<not> sh_abort (ad_shared s) \<Longrightarrow>
    ApplyDeployments E ds s (s\<lparr>ad_phase := PAcquire\<rparr>)"
| abort: "ad_phase s = PLoop \<Longrightarrow> ad_next s < length ds \<Longrightarrow> sh_abort (ad_shared s) \<Longrightarrow>
    ApplyDeployments E ds s (s\<lparr>ad_phase := PFinal\<rparr>)"
| exhausted: "ad_phase s = PLoop \<Longrightarrow> ad_next s = length ds \<Longrightarrow> ApplyDeployments E ds s (s\<lparr>ad_phase := PFinal\<rparr>)"
| acquire: "ad_phase s = PAcquire \<Longrightarrow> card (ad_running s) < 8 \<Longrightarrow>
    ApplyDeployments E ds s (s\<lparr>ad_phase := if isBarrier (ds ! ad_next s) then PBarrier else PLoop,
      ad_running := insert (ad_next s) (ad_running s), ad_next := Suc (ad_next s)\<rparr>)"
| barrier: "ad_phase s = PBarrier \<Longrightarrow> ad_running s = {} \<Longrightarrow> ad_leaving s = {} \<Longrightarrow>
    ApplyDeployments E ds s (s\<lparr>ad_phase := PLoop\<rparr>)"
| raise: "i \<in> ad_running s \<Longrightarrow> \<not> sh_abort (ad_shared s) \<Longrightarrow>
    ApplyDeployments E ds s (s\<lparr>ad_shared := (ad_shared s)\<lparr>sh_abort := True\<rparr>\<rparr>)"
| finish: "i \<in> ad_running s \<Longrightarrow> applyDeploymentItem E (ds ! i) (worker (ad_shared s)) = (Inr (), a) \<Longrightarrow>
    ApplyDeployments E ds s (s\<lparr>ad_running := ad_running s - {i}, ad_leaving := insert i (ad_leaving s),
      ad_shared := sharedOf a, ad_results := (ad_results s)(i \<mapsto> a)\<rparr>)"
| leave: "i \<in> ad_leaving s \<Longrightarrow> ApplyDeployments E ds s (s\<lparr>ad_leaving := ad_leaving s - {i}\<rparr>)"
| final: "ad_phase s = PFinal \<Longrightarrow> ad_running s = {} \<Longrightarrow> ad_leaving s = {} \<Longrightarrow>
    ApplyDeployments E ds s (s\<lparr>ad_phase := PDone\<rparr>)"

inductive_cases ApplyDeploymentsE: "ApplyDeployments E ds s s'"

definition NewApplyDeploymentsUtil :: "shared \<Rightarrow> adstate" where
  "NewApplyDeploymentsUtil sh = \<lparr>ad_phase = PLoop, ad_next = 0, ad_running = {}, ad_leaving = {}, ad_shared = sh, ad_results = Map.empty\<rparr>"

definition reaches :: "ApplyEnv \<Rightarrow> DeploymentItem list \<Rightarrow> shared \<Rightarrow> adstate \<Rightarrow> bool" where
  "reaches E ds sh s \<longleftrightarrow> (ApplyDeployments E ds)\<^sup>*\<^sup>* (NewApplyDeploymentsUtil sh) s"

text \<open>The control invariant: the semaphore, who is where, and what a barrier holds back.\<close>

definition held_back :: "DeploymentItem list \<Rightarrow> adstate \<Rightarrow> bool" where
  "held_back ds s \<longleftrightarrow> (\<forall>i \<in> ad_running s \<union> ad_leaving s. \<forall>b < ad_next s.
     i \<le> b \<and> isBarrier (ds ! b) \<longrightarrow> Suc b = ad_next s \<and> ad_phase s = PBarrier)"

definition control :: "DeploymentItem list \<Rightarrow> adstate \<Rightarrow> bool" where
  "control ds s \<longleftrightarrow>
     ad_running s \<union> ad_leaving s \<subseteq> {..<ad_next s} \<and> ad_running s \<inter> ad_leaving s = {} \<and> card (ad_running s) \<le> 8 \<and>
     ad_next s \<le> length ds \<and> (ad_phase s = PAcquire \<longrightarrow> ad_next s < length ds) \<and>
     dom (ad_results s) = {..<ad_next s} - ad_running s \<and>
     held_back ds s \<and>
     (ad_phase s = PDone \<longrightarrow> ad_running s = {} \<and> ad_leaving s = {}) \<and>
     (ad_phase s \<in> {PFinal, PDone} \<and> ad_next s < length ds \<longrightarrow> sh_abort (ad_shared s))"

lemma control_init: "control ds (NewApplyDeploymentsUtil sh)"
  by (simp add: control_def held_back_def NewApplyDeploymentsUtil_def)

text \<open>The abort signal is never taken back by a worker.\<close>

lemma abort_k: "always same_but_log m \<Longrightarrow> always (keeps abortSignal) m"
  by (rule keeps_from_same) simp_all

lemma abort_prims:
  "always (keeps abortSignal) (HandleError E ref e)" "always (keeps abortSignal) (HandleWarning ref w)"
  "always (keeps abortSignal) (handleApiWarnings ref ws)" "always (keeps abortSignal) (handleResult E r hook)"
  "always (keeps abortSignal) (markDeleted ref hook)" "always (keeps abortSignal) (observe E ref r)"
  "always (keeps abortSignal) (prepareDryRun E ref x replaced)" "always (keeps abortSignal) (liftErr z)"
  unfolding HandleError_def HandleWarning_def handleApiWarnings_def handleResult_def markDeleted_def observe_def
    handleObservedCRD_def prepareDryRun_def dummyName_def Let_def liftErr_def
  by (intro keeps.always_intros; auto simp: keeps_def intro: keeps.always_intros split: sum.split go_error.split)+

lemmas abort_intros = keeps.always_intros abort_prims same_ops [THEN abort_k] same_ValidateObject [THEN abort_k]

lemma abort_finishApply: "always (keeps abortSignal) (finishApply E ref x hook res)"
  unfolding finishApply_def retryApplyWithConflicts_def applyResolved_def retryApplyWithReplace_def
    retryApplyForceReplace_def DeleteObject_def Let_def
  by (intro abort_intros) (simp_all add: keeps_def)

lemma abort_waitLoop: "always (keeps abortSignal) (waitLoop E n ref t)"
proof (induction n)
  case (Suc n)
  then show ?case unfolding waitLoop.simps by (intro abort_intros)
qed (simp add: keeps.always_pure)

interpretation item_abort: item_rel "keeps abortSignal" E for E
proof
  show "always (keeps abortSignal) (ApplyObject E x replaced hook)" for x replaced hook
    unfolding ApplyObject_def
    by (intro abort_intros abort_finishApply) (auto intro!: abort_intros abort_finishApply split: option.split bool.split)
  show "always (keeps abortSignal) (WaitReadiness E ref t)" for ref t
    unfolding WaitReadiness_def by (intro abort_intros abort_waitLoop)
  show "always (keeps abortSignal) (DeleteObject E ref hook)" for ref hook
    unfolding DeleteObject_def by (intro abort_intros)
qed (intro abort_intros)+

lemma worker_abort: "applyDeploymentItem E d (worker sh) = (r, a) \<Longrightarrow> sh_abort sh \<Longrightarrow> sh_abort (sharedOf a)"
  using alwaysD [OF item_abort.item, of "worker sh" E d]
  by (auto simp: keeps_def worker_def NewApplyUtil_def sharedOf_def)

lemma held_back_mono:
  assumes "held_back ds s" "ad_running s' \<union> ad_leaving s' \<subseteq> ad_running s \<union> ad_leaving s" "ad_next s' = ad_next s"
    and "ad_phase s' = ad_phase s \<or> ad_phase s \<noteq> PBarrier \<or> ad_running s \<union> ad_leaving s = {}"
  shows "held_back ds s'"
  using assms unfolding held_back_def by (metis empty_iff subset_iff)

lemma control_step:
  assumes "ApplyDeployments E ds s s'" "control ds s"
  shows "control ds s'"
  using assms(1)
proof cases
  case acquire
  have fin: "finite (ad_running s)" using assms(2) finite_subset [of "ad_running s" "{..<ad_next s}"] by (auto simp: control_def)
  have new: "ad_next s \<notin> ad_running s \<union> ad_leaving s" using assms(2) by (auto simp: control_def)
  have old: "\<not> (i \<le> b \<and> isBarrier (ds ! b))" if "i \<in> ad_running s \<union> ad_leaving s" "b < ad_next s" for i b
    using assms(2) acquire(2) that by (auto simp: control_def held_back_def)
  have "held_back ds s'"
    unfolding held_back_def
  proof (intro ballI allI impI)
    fix i b assume i: "i \<in> ad_running s' \<union> ad_leaving s'" and b: "b < ad_next s'" "i \<le> b \<and> isBarrier (ds ! b)"
    have "b = ad_next s" using i b old [of i b] acquire(1) by (cases "i = ad_next s") (auto simp: less_Suc_eq)
    then show "Suc b = ad_next s' \<and> ad_phase s' = PBarrier" using b(2) acquire(1) by simp
  qed
  moreover have "card (ad_running s') \<le> 8" using acquire fin new by simp
  moreover have "ad_running s' \<union> ad_leaving s' \<subseteq> {..<ad_next s'}" "ad_running s' \<inter> ad_leaving s' = {}"
    "dom (ad_results s') = {..<ad_next s'} - ad_running s'"
    using assms(2) new acquire(1) by (auto simp: control_def)
  ultimately show ?thesis using assms(2) acquire by (simp add: control_def)
next
  case (finish i a)
  have "card (ad_running s - {i}) \<le> card (ad_running s)"
    using assms(2) finite_subset [of "ad_running s" "{..<ad_next s}"] by (intro card_mono) (auto simp: control_def)
  then have "card (ad_running s') \<le> 8" using assms(2) finish(1) by (simp add: control_def)
  moreover have "held_back ds s'"
    using assms(2) finish(1,2) by (intro held_back_mono [of ds s s']) (auto simp: control_def)
  moreover have "ad_running s' \<union> ad_leaving s' \<subseteq> {..<ad_next s'}" "ad_running s' \<inter> ad_leaving s' = {}"
    "dom (ad_results s') = {..<ad_next s'} - ad_running s'"
    using assms(2) finish(1,2) by (auto simp: control_def)
  moreover have "ad_phase s \<noteq> PDone" using assms(2) finish(2) by (auto simp: control_def)
  ultimately show ?thesis using assms(2) finish(1) worker_abort [OF finish(3)] by (simp add: control_def)
qed (use assms(2) held_back_mono [of ds s s'] in \<open>auto simp: control_def\<close>)

lemma reaches_induct [consumes 1, case_names init step]:
  assumes "reaches E ds sh s" "P (NewApplyDeploymentsUtil sh)"
    and "\<And>s s'. reaches E ds sh s \<Longrightarrow> ApplyDeployments E ds s s' \<Longrightarrow> P s \<Longrightarrow> P s'"
  shows "P s"
  using assms(1) unfolding reaches_def
proof (induction rule: rtranclp_induct)
  case (step y z)
  then show ?case using assms(3) [of y z] by (simp add: reaches_def)
qed (rule assms(2))

lemma reaches_control: "reaches E ds sh s \<Longrightarrow> control ds s"
  by (induction rule: reaches_induct) (auto intro: control_init control_step)

text \<open>
  C6: The schedule of a deployment, in every interleaving. At most eight items are worked on at a time; an item is
  started only when every item up to the last barrier before it has finished completely; when the run is over
  nothing is left running, every started item has left its results, and items were left out only after an abort.
\<close>

theorem ApplyDeployments_schedule:
  assumes "reaches E ds sh s"
  shows "card (ad_running s) \<le> 8 \<and> ad_next s \<le> length ds \<and>
    (\<forall>i b. i \<le> b \<and> Suc b < ad_next s \<and> isBarrier (ds ! b) \<longrightarrow> i \<notin> ad_running s \<union> ad_leaving s \<and> ad_results s i \<noteq> None) \<and>
    (ad_phase s = PDone \<longrightarrow> ad_running s = {} \<and> dom (ad_results s) = {..<ad_next s} \<and>
       (ad_next s < length ds \<longrightarrow> sh_abort (ad_shared s)))"
proof -
  have c: "control ds s" using assms by (rule reaches_control)
  have "i \<notin> ad_running s \<union> ad_leaving s" if "i \<le> b" "Suc b < ad_next s" "isBarrier (ds ! b)" for i b
  proof
    assume "i \<in> ad_running s \<union> ad_leaving s"
    moreover have "held_back ds s" using c by (simp add: control_def)
    ultimately have "Suc b = ad_next s" using that unfolding held_back_def by (metis Suc_lessD)
    then show False using that(2) by simp
  qed
  moreover have "i \<notin> ad_running s \<Longrightarrow> i < ad_next s \<Longrightarrow> ad_results s i \<noteq> None" for i
    using c unfolding control_def by (metis DiffI domIff lessThan_iff)
  ultimately have "\<forall>i b. i \<le> b \<and> Suc b < ad_next s \<and> isBarrier (ds ! b) \<longrightarrow>
      i \<notin> ad_running s \<union> ad_leaving s \<and> ad_results s i \<noteq> None"
    by (metis Suc_lessD UnI1 le_less_trans)
  then show ?thesis using c by (auto simp: control_def)
qed

text \<open>The measure that every step decreases.\<close>

fun phaseWeight :: "phase \<Rightarrow> nat" where
  "phaseWeight PLoop = 3"
| "phaseWeight PAcquire = 2"
| "phaseWeight PBarrier = 4"
| "phaseWeight PFinal = 1"
| "phaseWeight PDone = 0"

definition remaining :: "DeploymentItem list \<Rightarrow> adstate \<Rightarrow> nat" where
  "remaining ds s = 6 * (length ds - ad_next s) + phaseWeight (ad_phase s) + 2 * card (ad_running s) + card (ad_leaving s) +
     (if sh_abort (ad_shared s) then 0 else 1)"

lemma remaining_step:
  assumes "ApplyDeployments E ds s s'" "control ds s"
  shows "remaining ds s' < remaining ds s"
proof -
  have fin: "finite (ad_running s)" "finite (ad_leaving s)"
    using assms(2) finite_subset [of _ "{..<ad_next s}"] by (auto simp: control_def)
  show ?thesis using assms(1)
  proof cases
    case acquire
    have "ad_next s \<notin> ad_running s" "ad_next s < length ds" using assms(2) acquire(2) by (auto simp: control_def)
    moreover from this(2) have "length ds - ad_next s = Suc (length ds - Suc (ad_next s))" by simp
    ultimately show ?thesis using acquire fin by (simp add: remaining_def)
  next
    case (finish i a)
    have "card (ad_running s) = Suc (card (ad_running s - {i}))" using finish(2) fin by (metis card_Suc_Diff1)
    moreover have "i \<notin> ad_leaving s" using assms(2) finish(2) by (auto simp: control_def)
    ultimately show ?thesis using finish(1) fin worker_abort [OF finish(3)] by (auto simp: remaining_def)
  next
    case (leave i)
    then show ?thesis using card_Suc_Diff1 [OF fin(2) leave(2)] by (simp add: remaining_def)
  qed (simp_all add: remaining_def)
qed

text \<open>
  C10: The run of a deployment ends. No sequence of steps is longer than the measure of the start (at most eight
  steps per item), and as long as the work on items returns, a run that has not reached its end can go on: the
  semaphore and the barriers never block for good.
\<close>

theorem ApplyDeployments_terminates:
  assumes "reaches E ds sh s" and "\<And>d sh'. d \<in> set ds \<Longrightarrow> \<exists>a. applyDeploymentItem E d (worker sh') = (Inr (), a)"
  shows "(\<forall>s'. ApplyDeployments E ds s s' \<longrightarrow> remaining ds s' < remaining ds s) \<and>
    (ad_phase s \<noteq> PDone \<longrightarrow> (\<exists>s'. ApplyDeployments E ds s s'))"
proof (intro conjI allI impI)
  have c: "control ds s" using assms(1) by (rule reaches_control)
  then show "ApplyDeployments E ds s s' \<Longrightarrow> remaining ds s' < remaining ds s" for s' by (simp add: remaining_step)
  assume "ad_phase s \<noteq> PDone"
  show "\<exists>s'. ApplyDeployments E ds s s'"
  proof (cases "ad_running s = {} \<and> ad_leaving s = {}")
    case True
    have "ad_next s \<le> length ds" using c by (simp add: control_def)
    then have "ad_next s = length ds \<or> ad_next s < length ds" by auto
    moreover have "card (ad_running s) < 8" using True by simp
    ultimately show ?thesis using True \<open>ad_phase s \<noteq> PDone\<close> ApplyDeployments.intros(1-5,9) [of s] by (cases "ad_phase s") blast+
  next
    case False
    then consider i where "i \<in> ad_running s" | i where "i \<in> ad_leaving s" by blast
    then show ?thesis
    proof cases
      case 1
      then have "ds ! i \<in> set ds" using c by (auto simp: control_def)
      then show ?thesis using assms(2) [of "ds ! i" "ad_shared s"] 1 by (blast intro: finish)
    qed (blast intro: leave)
  qed
qed

section \<open>One worker after the other\<close>

text \<open>
  The schedule in which every item has finished before the next one starts, as a function; it is what the commands
  are composed with.
\<close>

fun runAll :: "ApplyEnv \<Rightarrow> DeploymentItem list \<Rightarrow> shared \<Rightarrow> (shared \<times> ApplyUtil list) res" where
  "runAll E [] sh = Inr (sh, [])"
| "runAll E (d # ds) sh =
     (if sh_abort sh then Inr (sh, [])
      else case applyDeploymentItem E d (worker sh) of
        (Inl e, _) \<Rightarrow> Inl e
      | (Inr _, a) \<Rightarrow> bindE (runAll E ds (sharedOf a)) (\<lambda>(sh', as). Inr (sh', a # as)))"

lemma one_item_steps:
  assumes "ad_phase s = PLoop" "ad_next s < length ds" "ad_running s = {}" "ad_leaving s = {}" "\<not> sh_abort (ad_shared s)"
    and "applyDeploymentItem E (ds ! ad_next s) (worker (ad_shared s)) = (Inr (), a)"
  shows "(ApplyDeployments E ds)\<^sup>*\<^sup>* s (s\<lparr>ad_next := Suc (ad_next s), ad_shared := sharedOf a, ad_results := (ad_results s)(ad_next s \<mapsto> a)\<rparr>)"
proof -
  let ?n = "ad_next s" and ?R = "ApplyDeployments E ds"
  define s1 where "s1 = s\<lparr>ad_phase := PAcquire\<rparr>"
  define s2 where "s2 = s1\<lparr>ad_phase := if isBarrier (ds ! ?n) then PBarrier else PLoop, ad_running := {?n}, ad_next := Suc ?n\<rparr>"
  define s3 where "s3 = s2\<lparr>ad_running := {}, ad_leaving := {?n}, ad_shared := sharedOf a, ad_results := (ad_results s)(?n \<mapsto> a)\<rparr>"
  define s4 where "s4 = s3\<lparr>ad_leaving := {}\<rparr>"
  have "?R s s1" unfolding s1_def using assms by (intro check)
  moreover have "?R s1 s2" using acquire [of s1 E ds] assms by (simp add: s1_def s2_def)
  moreover have "?R s2 s3" using finish [of ?n s2 E ds a] assms by (simp add: s1_def s2_def s3_def)
  moreover have "?R s3 s4" using leave [of ?n s3 E ds] by (simp add: s3_def s4_def)
  moreover have "?R\<^sup>*\<^sup>* s4 (s4\<lparr>ad_phase := PLoop\<rparr>)"
  proof (cases "isBarrier (ds ! ?n)")
    case True
    then show ?thesis using barrier [of s4 E ds] by (simp add: s4_def s3_def s2_def r_into_rtranclp)
  next
    case False
    then have "s4\<lparr>ad_phase := PLoop\<rparr> = s4" by (cases s) (simp add: s4_def s3_def s2_def s1_def)
    then show ?thesis by simp
  qed
  ultimately have "?R\<^sup>*\<^sup>* s (s4\<lparr>ad_phase := PLoop\<rparr>)" by (meson converse_rtranclp_into_rtranclp)
  moreover have "s4\<lparr>ad_phase := PLoop\<rparr> = s\<lparr>ad_next := Suc ?n, ad_shared := sharedOf a, ad_results := (ad_results s)(?n \<mapsto> a)\<rparr>"
    using assms(1,3,4) by (cases s) (simp add: s4_def s3_def s2_def s1_def)
  ultimately show ?thesis by simp
qed

lemma end_steps:
  assumes "ad_phase s = PLoop" "ad_next s = length ds \<or> ad_next s < length ds \<and> sh_abort (ad_shared s)"
    and "ad_running s = {}" "ad_leaving s = {}"
  shows "(ApplyDeployments E ds)\<^sup>*\<^sup>* s (s\<lparr>ad_phase := PDone\<rparr>)"
proof -
  have "ApplyDeployments E ds s (s\<lparr>ad_phase := PFinal\<rparr>)" using assms by (auto intro: exhausted abort)
  moreover have "ApplyDeployments E ds (s\<lparr>ad_phase := PFinal\<rparr>) (s\<lparr>ad_phase := PDone\<rparr>)"
    using final [of "s\<lparr>ad_phase := PFinal\<rparr>" E ds] assms by simp
  ultimately show ?thesis by (meson converse_rtranclp_into_rtranclp r_into_rtranclp)
qed

lemma runAll_steps:
  assumes "runAll E (drop (ad_next s) ds) (ad_shared s) = Inr (sh', as)" "ad_next s \<le> length ds"
    and "ad_phase s = PLoop" "ad_running s = {}" "ad_leaving s = {}" "length pre = ad_next s" "map (ad_results s) [0..<ad_next s] = map Some pre"
  shows "\<exists>s'. (ApplyDeployments E ds)\<^sup>*\<^sup>* s s' \<and> ad_phase s' = PDone \<and> ad_shared s' = sh' \<and>
    map (ad_results s') [0..<ad_next s'] = map Some (pre @ as)"
  using assms
proof (induction "drop (ad_next s) ds" arbitrary: s as pre)
  case Nil
  then have "ad_next s = length ds" "as = []" "sh' = ad_shared s" by (simp, metis Inr_inject Pair_inject runAll.simps(1) Nil.hyps, metis Inr_inject Pair_inject runAll.simps(1) Nil.hyps)
  then show ?case using Nil.prems end_steps [of s ds E] by (intro exI [of _ "s\<lparr>ad_phase := PDone\<rparr>"]) simp
next
  case (Cons d ds')
  have n: "ad_next s < length ds" "ds ! ad_next s = d" "drop (Suc (ad_next s)) ds = ds'"
    using Cons.hyps(2) by (metis drop_all list.distinct(1) not_le, metis nth_via_drop, metis drop_Suc list.sel(3) tl_drop)
  show ?case
  proof (cases "sh_abort (ad_shared s)")
    case True
    then have "as = []" "sh' = ad_shared s" using Cons.prems(1) by (auto simp flip: Cons.hyps(2))
    then show ?thesis using Cons.prems n True end_steps [of s ds E] by (intro exI [of _ "s\<lparr>ad_phase := PDone\<rparr>"]) simp
  next
    case False
    then obtain a as' where a: "applyDeploymentItem E d (worker (ad_shared s)) = (Inr (), a)"
      and as: "runAll E ds' (sharedOf a) = Inr (sh', as')" "as = a # as'"
      using Cons.prems(1) by (auto simp: bindE_Inr_iff simp flip: Cons.hyps(2) split: prod.splits sum.splits)
    let ?s = "s\<lparr>ad_next := Suc (ad_next s), ad_shared := sharedOf a, ad_results := (ad_results s)(ad_next s \<mapsto> a)\<rparr>"
    have "map (ad_results ?s) [0..<ad_next ?s] = map Some (pre @ [a])"
      using Cons.prems(7) by (simp add: map_fun_upd)
    then obtain s' where "(ApplyDeployments E ds)\<^sup>*\<^sup>* ?s s'" "ad_phase s' = PDone" "ad_shared s' = sh'"
      "map (ad_results s') [0..<ad_next s'] = map Some ((pre @ [a]) @ as')"
      using Cons.hyps(1) [of ?s as' "pre @ [a]"] Cons.prems n as(1) by (auto simp: n(3))
    moreover have "(ApplyDeployments E ds)\<^sup>*\<^sup>* s ?s"
      using one_item_steps [of s ds E a] Cons.prems n a False by simp
    ultimately show ?thesis using as(2) by (intro exI [of _ s']) auto
  qed
qed

lemma runAll_reaches:
  "runAll E ds sh = Inr (sh', as) \<Longrightarrow>
     \<exists>s. reaches E ds sh s \<and> ad_phase s = PDone \<and> ad_shared s = sh' \<and> map (ad_results s) [0..<ad_next s] = map Some as"
  using runAll_steps [of E "NewApplyDeploymentsUtil sh" ds sh' as "[]"]
  by (simp add: reaches_def NewApplyDeploymentsUtil_def)


section \<open>What holds in every schedule\<close>

definition run_ok :: "ApplyEnv \<Rightarrow> shared \<Rightarrow> adstate \<Rightarrow> bool" where
  "run_ok E sh s \<longleftrightarrow> dew_inv (sh_dew (ad_shared s)) \<and>
     (\<exists>new. sh_log (ad_shared s) = sh_log sh @ new \<and> (\<forall>q \<in> set new. flagged E q)) \<and>
     (\<forall>i a. ad_results s i = Some a \<longrightarrow> apply_inv E a)"

lemma worker_ok:
  assumes "applyDeploymentItem E d (worker sh) = (r, a)" "dew_inv (sh_dew sh)"
  shows "apply_inv E a \<and> dew_inv (sh_dew (sharedOf a)) \<and> (\<exists>new. sh_log (sharedOf a) = sh_log sh @ new \<and> (\<forall>q \<in> set new. flagged E q))"
proof -
  have "apply_inv E (worker sh)"
    using assms(2) by (simp add: apply_inv_def worker_def NewApplyUtil_def stored_ok_def)
  then have "apply_inv E a" using alwaysD [OF item_inv.item, of E "worker sh" d] assms(1) by (simp add: keeps_def)
  moreover obtain new where "reqlog a = reqlog (worker sh) @ new" "\<forall>q \<in> set new. flagged E q"
    using logs_E [OF item_logs.item assms(1)] by blast
  ultimately show ?thesis by (auto simp: apply_inv_def sharedOf_def worker_def NewApplyUtil_def)
qed

lemma run_ok_step:
  assumes "ApplyDeployments E ds s s'" "run_ok E sh s"
  shows "run_ok E sh s'"
  using assms(1)
proof cases
  case (finish i a)
  have ok: "apply_inv E a" "dew_inv (sh_dew (sharedOf a))" using worker_ok [OF finish(3)] assms(2) by (auto simp: run_ok_def)
  obtain new where new: "sh_log (sharedOf a) = sh_log (ad_shared s) @ new" "\<forall>q \<in> set new. flagged E q"
    using worker_ok [OF finish(3)] assms(2) by (auto simp: run_ok_def)
  obtain old where old: "sh_log (ad_shared s) = sh_log sh @ old" "\<forall>q \<in> set old. flagged E q"
    using assms(2) by (auto simp: run_ok_def)
  have "sh_log (sharedOf a) = sh_log sh @ (old @ new) \<and> (\<forall>q \<in> set (old @ new). flagged E q)" using new old by auto
  then have "\<exists>n. sh_log (sharedOf a) = sh_log sh @ n \<and> (\<forall>q \<in> set n. flagged E q)" by blast
  then show ?thesis using ok assms(2) finish(1) by (simp add: run_ok_def)
qed (use assms(2) in \<open>simp_all add: run_ok_def\<close>)

lemma reaches_run_ok:
  assumes "reaches E ds sh s" and "dew_inv (sh_dew sh)"
  shows "run_ok E sh s"
  using assms(1)
proof (induction rule: reaches_induct)
  case init
  show ?case using assms(2) by (simp add: run_ok_def NewApplyDeploymentsUtil_def)
qed (rule run_ok_step)

text \<open>
  C7: In every schedule, at every moment: in a dry run no request has changed anything in the cluster, and without
  one no request was a mere simulation; the error reports are consistent; and the books of every finished item are
  in order: objects are stored under their own references, hooks and new objects are among the applied ones, new
  objects were unknown before, and with abort-on-error an error has raised the abort signal.
\<close>

theorem ApplyDeployments_safe:
  assumes "reaches E ds sh s" and "dew_inv (sh_dew sh)"
  shows "dew_inv (sh_dew (ad_shared s)) \<and>
    (\<exists>new. sh_log (ad_shared s) = sh_log sh @ new \<and> (\<forall>q \<in> set new. flagged E q \<and> (dryFlag E \<longrightarrow> harmless q))) \<and>
    (\<forall>i a. ad_results s i = Some a \<longrightarrow> apply_inv E a)"
proof -
  have "run_ok E sh s" using assms by (rule reaches_run_ok)
  then obtain new where "sh_log (ad_shared s) = sh_log sh @ new" "\<forall>q \<in> set new. flagged E q" "dew_inv (sh_dew (ad_shared s))"
    "\<forall>i a. ad_results s i = Some a \<longrightarrow> apply_inv E a" unfolding run_ok_def by blast
  then show ?thesis using flagged_harmless by blast
qed

section \<open>The interface to the commands\<close>

text \<open>The requests of a run, whatever the reports are.\<close>

lemma reaches_logs:
  assumes "reaches E ds sh s"
  shows "\<exists>new. sh_log (ad_shared s) = sh_log sh @ new \<and> list_all (flagged E) new"
  using assms
proof (induction rule: reaches_induct)
  case (step s s')
  obtain old where old: "sh_log (ad_shared s) = sh_log sh @ old" "list_all (flagged E) old" using step.IH by blast
  show ?case using step.hyps(2)
  proof cases
    case (finish i a)
    obtain new where "reqlog a = reqlog (worker (ad_shared s)) @ new" "\<forall>q \<in> set new. flagged E q"
      using logs_E [OF item_logs.item finish(3)] by blast
    then have "sh_log (ad_shared s') = sh_log sh @ (old @ new) \<and> list_all (flagged E) (old @ new)"
      using old finish(1) by (auto simp: sharedOf_def worker_def NewApplyUtil_def list_all_iff)
    then show ?thesis by blast
  qed (use old in auto)
qed (simp add: NewApplyDeploymentsUtil_def)

text \<open>
  What a command relies on when it runs the items of a deployment: the outcome is the end of one of the schedules.
  A command is looked at for every such way to run the items.
\<close>

locale schedule =
  fixes run :: "ApplyEnv \<Rightarrow> DeploymentItem list \<Rightarrow> shared \<Rightarrow> (shared \<times> ApplyUtil list) res"
  assumes ends: "run E ds sh = Inr (sh', as) \<Longrightarrow>
    \<exists>s. reaches E ds sh s \<and> ad_phase s = PDone \<and> ad_shared s = sh' \<and> map (ad_results s) [0..<ad_next s] = map Some as"
begin

lemma run_logs:
  assumes "run E ds sh = Inr (sh', as)"
  shows "\<exists>new. sh_log sh' = sh_log sh @ new \<and> list_all (flagged E) new"
  using ends [OF assms] reaches_logs by blast

lemma run_reports:
  assumes "run E ds sh = Inr (sh', as)" "dew_inv (sh_dew sh)"
  shows "dew_inv (sh_dew sh') \<and> (\<forall>a \<in> set as. apply_inv E a)"
proof -
  obtain s where s: "reaches E ds sh s" "ad_shared s = sh'" "map (ad_results s) [0..<ad_next s] = map Some as"
    using ends [OF assms(1)] by blast
  have ok: "run_ok E sh s" using reaches_run_ok [OF s(1) assms(2)] .
  have "\<exists>i. ad_results s i = Some a" if "a \<in> set as" for a
  proof -
    have "Some a \<in> set (map (ad_results s) [0..<ad_next s])" using that s(3) by simp
    then show ?thesis by auto
  qed
  then show ?thesis using ok s(2) by (auto simp: run_ok_def)
qed

end

interpretation sequential: schedule runAll
  by unfold_locales (rule runAll_reaches)

section \<open>Examples\<close>

definition sample_shared :: shared where
  "sample_shared = \<lparr>sh_log = [], sh_dew = dew_Init, sh_abort = False, sh_namespaces = [], sh_crds = []\<rparr>"

definition sample_run :: "ApplyEnv \<times> DeploymentItem list" where
  "sample_run = (sample_env (sample_options True False) accepts [], [sample_item [sample_managed], (sample_item [])\<lparr>di_Barrier := True\<rparr>])"

lemma sample_run_ends:
  "\<exists>sh' as. runAll (fst sample_run) (snd sample_run) sample_shared = Inr (sh', as) \<and> length as = 2 \<and> \<not> sh_abort sh'"
proof -
  have "case runAll (fst sample_run) (snd sample_run) sample_shared of Inr (sh', as) \<Rightarrow> length as = 2 \<and> \<not> sh_abort sh' | _ \<Rightarrow> False"
    by code_simp
  then show ?thesis by (auto split: sum.splits prod.splits)
qed


lemma sample_run_reaches:
  "\<exists>s. reaches (fst sample_run) (snd sample_run) sample_shared s \<and> ad_phase s = PDone \<and> ad_next s = 2"
proof -
  obtain sh' as where r: "runAll (fst sample_run) (snd sample_run) sample_shared = Inr (sh', as)" "length as = 2"
    using sample_run_ends by blast
  obtain s where s: "reaches (fst sample_run) (snd sample_run) sample_shared s" "ad_phase s = PDone"
    "map (ad_results s) [0..<ad_next s] = map Some as"
    using runAll_reaches [OF r(1)] by blast
  moreover have "ad_next s = 2" using arg_cong [OF s(3), of length] r(2) by simp
  ultimately show ?thesis by blast
qed

theorem ApplyDeployments_schedule_witness:
  "\<exists>s. reaches (fst sample_run) (snd sample_run) sample_shared s \<and> card (ad_running s) \<le> 8 \<and> dom (ad_results s) = {..<2}"
  using sample_run_reaches ApplyDeployments_schedule by metis

theorem ApplyDeployments_safe_witness:
  "\<exists>s new. reaches (fst sample_run) (snd sample_run) sample_shared s \<and> ad_next s = 2 \<and>
     sh_log (ad_shared s) = new \<and> list_all harmless new"
proof -
  obtain s where s: "reaches (fst sample_run) (snd sample_run) sample_shared s" "ad_next s = 2" using sample_run_reaches by blast
  have d: "dew_inv (sh_dew sample_shared)" by (simp add: sample_shared_def dew_inv_Init)
  have "dryFlag (fst sample_run)" by code_simp
  then have "list_all harmless (sh_log (ad_shared s))"
    using ApplyDeployments_safe [OF s(1) d] by (auto simp: sample_shared_def list_all_iff)
  then show ?thesis using s by blast
qed

theorem ApplyDeployments_terminates_witness:
  "\<exists>s'. ApplyDeployments (fst sample_run) [sample_item []] (NewApplyDeploymentsUtil sample_shared) s'"
proof -
  have "\<exists>a. applyDeploymentItem (fst sample_run) d (worker sh') = (Inr (), a)" if "d \<in> set [sample_item []]" for d sh'
    using that
    by (simp add: applyDeploymentItem_def collectToDelete_def sample_item_def noItemConfig_def isInitialDeploy_def
        DetermineHooks_def getSortedHooksList_def RunHooks_def sample_run_def sample_env_def bindM_def seqM_def run_simps)
  moreover have "reaches (fst sample_run) [sample_item []] sample_shared (NewApplyDeploymentsUtil sample_shared)"
    by (simp add: reaches_def)
  moreover have "ad_phase (NewApplyDeploymentsUtil sample_shared) \<noteq> PDone" by (simp add: NewApplyDeploymentsUtil_def)
  ultimately show ?thesis using ApplyDeployments_terminates by blast
qed

end
