(* ===== verification/Diff.thy ===== *)
theory Diff
  imports Validation Managed_Fields Deployment_Types
begin

text \<open>
  Comparing objects (\<^verbatim>\<open>pkg/diff\<close>): the normalisation that takes noise out of both sides, the conversion of the
  differences found by the diff library into changes with JSON paths and unified diffs, and the obfuscation of
  secrets in results.
\<close>

section \<open>Normalisation\<close>

definition listToMap :: "uo list \<Rightarrow> string \<Rightarrow> uo res" where
  "listToMap l key =
     foldE (\<lambda>e m. case noErr None (GetNestedString [KStr key] e) of
              None \<Rightarrow> Inl (Error (key @ '' not found in list element''))
            | Some kv \<Rightarrow> Inr (AList.update kv (VMap e) m)) l []"

text \<open>The key of an \<^verbatim>\<open>envFrom\<close> entry: the last of the two reference kinds that has a name.\<close>

definition envFromKey :: "uo \<Rightarrow> string" where
  "envFromKey e =
     foldl (\<lambda>k t. case noErr None (GetNestedString [KStr t, KStr ''name''] e) of
              None \<Rightarrow> k | Some name \<Rightarrow> t @ ''/'' @ name) [] [''configMapRef'', ''secretRef'']"

text \<open>The entries are stored as pointers to objects, not as maps.\<close>

definition addEnvFrom :: "uo \<Rightarrow> uo \<Rightarrow> uo" where
  "addEnvFrom m e =
     (let k = envFromKey e in
      if k = [] then AList.update ''unknown'' (VList ((case map_of m ''unknown'' of Some (VList l) \<Rightarrow> l | _ \<Rightarrow> []) @ [VObj e])) m
      else AList.update k (VObj e) m)"

definition normalizeEnv :: "uo \<Rightarrow> uo" where
  "normalizeEnv container =
     (let env = GetNestedObjectListNoErr [KStr ''env''] container;
          envFrom = GetNestedObjectListNoErr [KStr ''envFrom''] container;
          c1 = (if env \<noteq> [] then (case listToMap env ''name'' of
                  Inr newEnv \<Rightarrow> fst (SetNestedField (VMap newEnv) [KStr ''env''] container)
                | Inl _ \<Rightarrow> container) else container)
      in if envFrom \<noteq> [] then fst (SetNestedField (VMap (foldl addEnvFrom [] envFrom)) [KStr ''envFrom''] c1) else c1)"

text \<open>The containers share memory with the object: each is changed in its place.\<close>

definition normalizeContainers :: "keypath \<Rightarrow> uo \<Rightarrow> uo" where
  "normalizeContainers path ob =
     foldl (\<lambda>ob (i, c). fst (SetNestedField (VMap (normalizeEnv c)) (path @ [KInt (int i)]) ob)) ob
       (List.enumerate 0 (GetNestedObjectListNoErr path ob))"

definition normalizeSecretAndConfigMaps :: "uo \<Rightarrow> uo" where
  "normalizeSecretAndConfigMaps ob =
     (case noErr None (GetNestedObject [KStr ''data''] ob) of
        Some d \<Rightarrow> if d = None \<or> d = Some [] then fst (RemoveNestedField [KStr ''data''] ob) else ob
      | None \<Rightarrow> ob)"

definition normalizeServiceAccount :: "uo \<Rightarrow> uo" where
  "normalizeServiceAccount ob =
     (case noErr None (GetNestedString [KStr ''metadata'', KStr ''name''] ob) of
        None \<Rightarrow> ob
      | Some serviceAccountName \<Rightarrow>
          (case noErr None (GetNestedObjectList [KStr ''secrets''] ob) of
             None \<Rightarrow> ob
           | Some secrets \<Rightarrow>
               let newSecrets = filter (\<lambda>s. case noErr None (GetNestedString [KStr ''name''] s) of
                       None \<Rightarrow> False | Some name \<Rightarrow> \<not> HasPrefix name (serviceAccountName @ ''-'')) secrets
               in fst (SetNestedField (VList (map VObj newSecrets)) [KStr ''secrets''] ob)))"

definition noiseFields :: "keypath list" where
  "noiseFields =
     [[KStr ''metadata'', KStr ''managedFields''],
      [KStr ''metadata'', KStr ''annotations'', KStr ''kubectl.kubernetes.io/last-applied-configuration''],
      [KStr ''metadata'', KStr ''creationTimestamp''], [KStr ''metadata'', KStr ''generation''],
      [KStr ''metadata'', KStr ''resourceVersion''], [KStr ''metadata'', KStr ''selfLink''], [KStr ''metadata'', KStr ''uid'']]"

definition removeFields :: "keypath list \<Rightarrow> uo \<Rightarrow> uo" where
  "removeFields ks ob = foldl (\<lambda>ob k. fst (RemoveNestedField k ob)) ob ks"

definition normalizeMetadata :: "uo \<Rightarrow> uo" where
  "normalizeMetadata ob =
     fst (SetNestedFieldDefault (VMap []) [KStr ''metadata'', KStr ''annotations'']
       (fst (SetNestedFieldDefault (VMap []) [KStr ''metadata'', KStr ''labels''] (removeFields noiseFields ob))))"

definition normalizeMisc :: "uo \<Rightarrow> uo" where
  "normalizeMisc ob =
     removeFields [[KStr ''spec'', KStr ''template'', KStr ''metadata'', KStr ''labels'', KStr ''controller-uid''],
       [KStr ''spec'', KStr ''selector'', KStr ''matchLabels'', KStr ''controller-uid''], [KStr ''status'']] ob"

text \<open>Conversion of an integer to float64: 53 significant bits, ties to even.\<close>

definition f64 :: "rat \<Rightarrow> rat" where
  "f64 x = (if x = 0 then 0
            else let u = pow2 (log2floor \<bar>x\<bar> - 52) in of_int (round_even (x / u)) * u)"

definition normalizeFloat :: "(rat \<Rightarrow> 64 word) \<Rightarrow> val \<Rightarrow> val" where
  "normalizeFloat f2i v =
     (case v of
        VFloat f \<Rightarrow> (let i = int64_of_float f2i f in if f = f64 (of_int (sint i)) then VInt i else v)
      | _ \<Rightarrow> v)"

definition normalizeFloats :: "(rat \<Rightarrow> 64 word) \<Rightarrow> uo \<Rightarrow> uo" where
  "normalizeFloats f2i ob = fst (IterateLeafs (\<lambda>ks v s. (normalizeFloat f2i v, s, None)) ob ())"

definition ignoreDiffFieldAnnotationRegex :: "string \<Rightarrow> bool" where
  "ignoreDiffFieldAnnotationRegex = kluctlAnnotation ''ignore-diff-field''"

definition ignoreDiffFieldRegexAnnotationRegex :: "string \<Rightarrow> bool" where
  "ignoreDiffFieldRegexAnnotationRegex = kluctlAnnotation ''ignore-diff-field-regex''"

definition ignoreConfig :: "string list \<Rightarrow> string list \<Rightarrow> IgnoreForDiffItemConfig" where
  "ignoreConfig paths regexes = \<lparr>ig_FieldPath = paths, ig_FieldPathRegex = regexes, ig_Group = None, ig_Kind = None, ig_Name = None, ig_Namespace = None\<rparr>"

definition checkMatch :: "string \<Rightarrow> string option \<Rightarrow> bool" where
  "checkMatch v m = (if v = [] \<or> m = None then True else m = Some v)"

text \<open>What the normalisation uses of its surroundings: the JSON path library, regular expressions, float conversion.\<close>

record diff_env =
  df_L :: k8s_lib
  df_jp :: jp_lib
  df_compile :: "string \<Rightarrow> (string \<Rightarrow> bool) res"
  df_f2i :: "rat \<Rightarrow> 64 word"

definition removeIgnored :: "diff_env \<Rightarrow> IgnoreForDiffItemConfig \<Rightarrow> uo \<Rightarrow> uo res" where
  "removeIgnored D ifd ob =
     bindE (foldE (\<lambda>fp ob. bindE (NewMyJsonPath (df_jp D) fp) (\<lambda>j. Inr (fst (jp_Del (df_jp D) j ob)))) (ig_FieldPath ifd) ob) (\<lambda>ob.
     foldE (\<lambda>fp ob. case RemoveFieldsByPathRegex (df_compile D) fp ob of (ob', None) \<Rightarrow> Inr ob' | (_, Some e) \<Rightarrow> Inl e)
       (ig_FieldPathRegex ifd) ob)"

definition normalizeKind :: "string \<Rightarrow> uo \<Rightarrow> uo" where
  "normalizeKind kd ob =
     (if kd \<in> {''Deployment'', ''StatefulSet'', ''DaemonSet'', ''job''} then
        normalizeContainers [KStr ''spec'', KStr ''template'', KStr ''spec'', KStr ''containers''] ob
      else if kd \<in> {''Secret'', ''ConfigMap''} then normalizeSecretAndConfigMaps ob
      else if kd = ''ServiceAccount'' then normalizeServiceAccount ob
      else ob)"

definition NormalizeObject :: "diff_env \<Rightarrow> uo \<Rightarrow> IgnoreForDiffItemConfig list \<Rightarrow> uo \<Rightarrow> uo res" where
  "NormalizeObject D orig ignoreForDiffs localObject =
     bindE (GetK8sGVK (df_L D) orig) (\<lambda>(g, v, kd).
     bindE (GetK8sName orig) (\<lambda>name.
     bindE (GetK8sNamespace orig) (\<lambda>ns.
     let ob = normalizeKind kd (normalizeMisc (normalizeMetadata (normalizeFloats (df_f2i D) (Clone orig)))) in
     bindE (GetK8sAnnotation ''kluctl.io/ignore-diff'' localObject) (\<lambda>ign.
     if ParseBoolOrFalse ign then Inr []
     else
       bindE (GetK8sAnnotationsWithRegex ignoreDiffFieldAnnotationRegex localObject) (\<lambda>a1.
       bindE (GetK8sAnnotationsWithRegex ignoreDiffFieldRegexAnnotationRegex localObject) (\<lambda>a2.
       let rules = ignoreForDiffs @ map (\<lambda>(_, v). ignoreConfig [v] []) a1 @ map (\<lambda>(_, v). ignoreConfig [] [v]) a2 in
       foldE (\<lambda>ifd ob.
           if \<not> checkMatch g (ig_Group ifd) then Inr ob
           else if \<not> checkMatch kd (ig_Kind ifd) then Inr ob
           else if \<not> checkMatch ns (ig_Namespace ifd) then Inr ob
           else if \<not> checkMatch name (ig_Name ifd) then Inr ob
           else removeIgnored D ifd ob) rules ob))))))"

section \<open>Changes\<close>

text \<open>A JSON value of the API machinery is its text.\<close>

record Change =
  ch_Type :: string
  ch_JsonPath :: string
  ch_OldValue :: "string option"
  ch_NewValue :: "string option"
  ch_UnifiedDiff :: string

record ChangedObject =
  co_Ref :: ObjectRef
  co_Changes :: "Change list"

text \<open>
  The diff library (\<^verbatim>\<open>r3labs/diff\<close>) reports raw changes. The text diff, the JSON and YAML writers and the reader of
  JSON text are parameters too; \<open>dl_ParsePath\<close> is the first child of a parsed JSON path: \<open>Some None\<close> for a first
  fragment that is no child, \<open>None\<close> for an empty path.
\<close>

record raw_change =
  rc_Type :: string
  rc_Path :: "string list"
  rc_From :: val
  rc_To :: val

record diff_lib =
  dl_Diff :: "uo \<Rightarrow> uo \<Rightarrow> raw_change list res"
  dl_Json :: "val \<Rightarrow> string res"
  dl_Unjson :: "string \<Rightarrow> val res"
  dl_Yaml :: "val \<Rightarrow> string res"
  dl_YamlChange :: "Change \<Rightarrow> string"
  dl_Unified :: "string \<Rightarrow> string \<Rightarrow> string"
  dl_ParsePath :: "string \<Rightarrow> string option option res"
  dl_fmt :: "val \<Rightarrow> string"

fun convertKeys :: "string list \<Rightarrow> val \<Rightarrow> keypath res" where
  "convertKeys [] ob = Inr []"
| "convertKeys (p # ps) ob =
     (case (case ParseInt 32 p of Inr i \<Rightarrow> map_option (Pair i) (noErr None (GetChild ob (KInt i))) | Inl _ \<Rightarrow> None) of
        Some (i, x) \<Rightarrow> bindE (convertKeys ps x) (\<lambda>ks. Inr (KInt i # ks))
      | None \<Rightarrow>
          (case GetChild ob (KStr p) of
             Inr (Some x) \<Rightarrow> bindE (convertKeys ps x) (\<lambda>ks. Inr (KStr p # ks))
           | _ \<Rightarrow> Inl (Error (''path element '' @ p @ '' is invalid''))))"

definition convertPath :: "string list \<Rightarrow> val \<Rightarrow> string res" where
  "convertPath path ob = bindE (convertKeys path ob) (\<lambda>ks. Inr (ToJsonPath ks))"

definition convertChange :: "diff_lib \<Rightarrow> raw_change \<Rightarrow> uo \<Rightarrow> uo \<Rightarrow> Change res" where
  "convertChange X c oldObject newObject =
     (if rc_Type c = ''create'' then
        bindE (convertPath (rc_Path c) (VMap newObject)) (\<lambda>p.
        bindE (dl_Json X (rc_To c)) (\<lambda>jto.
        Inr \<lparr>ch_Type = ''insert'', ch_JsonPath = p, ch_OldValue = None, ch_NewValue = Some jto, ch_UnifiedDiff = []\<rparr>))
      else if rc_Type c = ''delete'' then
        bindE (convertPath (rc_Path c) (VMap oldObject)) (\<lambda>p.
        bindE (dl_Json X (rc_From c)) (\<lambda>jfrom.
        Inr \<lparr>ch_Type = ''delete'', ch_JsonPath = p, ch_OldValue = Some jfrom, ch_NewValue = None, ch_UnifiedDiff = []\<rparr>))
      else if rc_Type c = ''update'' then
        bindE (convertPath (rc_Path c) (VMap newObject)) (\<lambda>p.
        bindE (dl_Json X (rc_To c)) (\<lambda>jto.
        bindE (dl_Json X (rc_From c)) (\<lambda>jfrom.
        Inr \<lparr>ch_Type = ''update'', ch_JsonPath = p, ch_OldValue = Some jfrom, ch_NewValue = Some jto, ch_UnifiedDiff = []\<rparr>)))
      else Inl (Error (''unknown change type '' @ rc_Type c)))"

text \<open>
  Both values of a change have the same Go type, so types are never shown, and the test for a struct asks for the
  type of a \<^verbatim>\<open>reflect.Value\<close>, which always is one: a value is always written to YAML and read back, which for a JSON
  text is decoding it. A nil pointer is written and read back as null.
\<close>

definition objectToDiffableString :: "diff_lib \<Rightarrow> string option \<Rightarrow> string res" where
  "objectToDiffableString X raw =
     bindE (case raw of None \<Rightarrow> Inr VNil | Some j \<Rightarrow> dl_Unjson X j) (\<lambda>v.
     case v of
       VStr s \<Rightarrow> Inr s
     | VMap _ \<Rightarrow> dl_Yaml X v
     | VList _ \<Rightarrow> dl_Yaml X v
     | _ \<Rightarrow> Inr (fmt_v (dl_fmt X) v))"

definition nl :: char where
  "nl = CHR 0x0A"

definition prependStrToLines :: "string \<Rightarrow> string \<Rightarrow> string" where
  "prependStrToLines s prepend =
     (let s = (if HasSuffix s [nl] then butlast s else s) in Join (map (\<lambda>l. prepend @ l) (SplitChar s nl)) [nl])"

text \<open>A side is missing for an insertion or deletion (\<^verbatim>\<open>notPresent\<close>, printed as the empty string).\<close>

definition buildUnifiedDiff :: "diff_lib \<Rightarrow> string option option \<Rightarrow> string option option \<Rightarrow> string res" where
  "buildUnifiedDiff X a b =
     bindE (case a of None \<Rightarrow> Inr [] | Some v \<Rightarrow> objectToDiffableString X v) (\<lambda>aStr.
     bindE (case b of None \<Rightarrow> Inr [] | Some v \<Rightarrow> objectToDiffableString X v) (\<lambda>bStr.
     if aStr = [] then Inr (prependStrToLines bStr ''+'')
     else if bStr = [] then Inr (prependStrToLines aStr ''-'')
     else if IndexChar aStr nl = - 1 \<and> IndexChar bStr nl = - 1 then Inr (''-'' @ aStr @ [nl] @ ''+'' @ bStr)
     else let lines = SplitChar (dl_Unified X aStr bStr) nl
          in if length lines < 2 then Inl (Panic ''slice bounds out of range'')
             else Inr (Join (drop 2 lines) [nl])))"

definition updateUnifiedDiff :: "diff_lib \<Rightarrow> Change \<Rightarrow> Change res" where
  "updateUnifiedDiff X c =
     bindE (if ch_Type c = ''insert'' then buildUnifiedDiff X None (Some (ch_NewValue c))
            else if ch_Type c = ''delete'' then buildUnifiedDiff X (Some (ch_OldValue c)) None
            else if ch_Type c = ''update'' then buildUnifiedDiff X (Some (ch_OldValue c)) (Some (ch_NewValue c))
            else Inl (Error (''unknown change type '' @ ch_Type c))) (\<lambda>ud.
     Inr (c\<lparr>ch_UnifiedDiff := ud\<rparr>))"

definition stableSortChanges :: "diff_lib \<Rightarrow> Change list \<Rightarrow> Change list" where
  "stableSortChanges X changes = sort_key (dl_YamlChange X) changes"

definition Diff :: "diff_lib \<Rightarrow> uo \<Rightarrow> uo \<Rightarrow> Change list res" where
  "Diff X oldObject newObject =
     bindE (dl_Diff X oldObject newObject) (\<lambda>cl.
     bindE (mapE (\<lambda>c. bindE (convertChange X c oldObject newObject) (updateUnifiedDiff X)) cl) (\<lambda>changes.
     Inr (stableSortChanges X changes)))"

section \<open>Obfuscation\<close>

definition secretGk :: "string \<times> string" where
  "secretGk = ([], ''Secret'')"

text \<open>\<^verbatim>\<open>base64("*****")\<close>.\<close>

definition stars64 :: string where
  "stars64 = ''KioqKio=''"

definition starMap :: "string \<Rightarrow> uo \<Rightarrow> uo" where
  "starMap v m = map (\<lambda>(k, _). (k, VStr v)) m"

definition obfuscateField :: "string \<Rightarrow> string \<Rightarrow> uo \<Rightarrow> uo res" where
  "obfuscateField field v x =
     (case noErr None (GetNestedField [KStr field] x) of
        None \<Rightarrow> Inr x
      | Some VNil \<Rightarrow> Inr x
      | Some (VMap m) \<Rightarrow> Inr (fst (SetNestedField (VMap (starMap v m)) [KStr field] (Clone x)))
      | Some _ \<Rightarrow> Inl (Error (quoted ''data'' @ '' is not a map of strings'')))"

definition obfuscateSecret :: "uo \<Rightarrow> uo res" where
  "obfuscateSecret x = bindE (obfuscateField ''data'' stars64 x) (obfuscateField ''stringData'' ''*****'')"

definition ObfuscateObject :: "k8s_lib \<Rightarrow> uo option \<Rightarrow> uo option res" where
  "ObfuscateObject L x =
     (case x of
        None \<Rightarrow> Inr None
      | Some x \<Rightarrow> bindE (GetK8sRef L x) (\<lambda>ref.
          if GroupKind ref = secretGk then bindE (obfuscateSecret x) (\<lambda>x. Inr (Some x)) else Inr (Some x)))"

definition replaceJsonValues :: "diff_lib \<Rightarrow> string \<Rightarrow> string option \<Rightarrow> string option" where
  "replaceJsonValues X v j =
     (case j of
        None \<Rightarrow> None
      | Some raw \<Rightarrow>
          (case bindE (dl_Unjson X raw) (\<lambda>x. dl_Json X (case x of
                   VMap m \<Rightarrow> VMap (starMap v m) | VList l \<Rightarrow> VList (map (\<lambda>_. VStr v) l) | _ \<Rightarrow> VStr v)) of
             Inr b \<Rightarrow> Some b
           | Inl _ \<Rightarrow> None))"

text \<open>\<^verbatim>\<open>strings.ReplaceAll\<close> for a non-empty old string.\<close>

function ReplaceAll :: "string \<Rightarrow> string \<Rightarrow> string \<Rightarrow> string" where
  "ReplaceAll s old new =
     (if s = [] \<or> old = [] then s
      else if HasPrefix s old then new @ ReplaceAll (drop (length old) s) old new
      else hd s # ReplaceAll (tl s) old new)"
  by pat_completeness auto
termination by (relation "measure (\<lambda>(s, _, _). length s)") auto

declare ReplaceAll.simps [simp del]

definition hideValues :: "diff_lib \<Rightarrow> Change \<Rightarrow> Change" where
  "hideValues X c = c\<lparr>ch_NewValue := replaceJsonValues X ''*****a'' (ch_NewValue c), ch_OldValue := replaceJsonValues X ''*****b'' (ch_OldValue c)\<rparr>"

text \<open>An error of the new unified diff is dropped; the old one is then still in place.\<close>

definition redrawChange :: "diff_lib \<Rightarrow> Change \<Rightarrow> Change res" where
  "redrawChange X c = (case updateUnifiedDiff X c of Inl (Error _) \<Rightarrow> Inr c | r \<Rightarrow> r)"

definition obfuscateChange :: "diff_lib \<Rightarrow> Change \<Rightarrow> Change res" where
  "obfuscateChange X c =
     bindE (dl_ParsePath X (ch_JsonPath c)) (\<lambda>child.
     case child of
       None \<Rightarrow> Inl (Error ''unexpected empty jsonPath'')
     | Some None \<Rightarrow> Inl (Error (''unexpected jsonPath fragment: '' @ ch_JsonPath c))
     | Some (Some name) \<Rightarrow>
         if name = ''data'' \<or> name = ''stringData'' then
           bindE (redrawChange X (hideValues X c)) (\<lambda>c2.
           let ud = ReplaceAll (ReplaceAll (ch_UnifiedDiff c2) ''*****a'' ''***** (obfuscated)'') ''*****b'' ''***** (obfuscated)''
           in Inr (c2\<lparr>ch_NewValue := replaceJsonValues X ''*****'' (ch_NewValue c2),
                     ch_OldValue := replaceJsonValues X ''*****'' (ch_OldValue c2), ch_UnifiedDiff := ud\<rparr>))
         else Inr c)"

definition ObfuscateChanges :: "diff_lib \<Rightarrow> ObjectRef \<Rightarrow> Change list \<Rightarrow> Change list res" where
  "ObfuscateChanges X ref changes =
     (if GroupKind ref = secretGk then mapE (obfuscateChange X) changes else Inr changes)"

section \<open>Obfuscation hides values\<close>

text \<open>What is left of a JSON value once its values are replaced: the keys of a map, the length of a list, or a scalar.\<close>

datatype shape = SNone | SMap "string list" | SList nat | SScalar

definition shapeOf :: "diff_lib \<Rightarrow> string option \<Rightarrow> shape option" where
  "shapeOf X j =
     (case j of
        None \<Rightarrow> None
      | Some raw \<Rightarrow> Some (case dl_Unjson X raw of
            Inl _ \<Rightarrow> SNone | Inr (VMap m) \<Rightarrow> SMap (map fst m) | Inr (VList l) \<Rightarrow> SList (length l) | Inr _ \<Rightarrow> SScalar))"

definition fillShape :: "diff_lib \<Rightarrow> string \<Rightarrow> shape option \<Rightarrow> string option" where
  "fillShape X v sh =
     (case sh of
        None \<Rightarrow> None
      | Some SNone \<Rightarrow> None
      | Some s \<Rightarrow>
          (case dl_Json X (case s of SMap ks \<Rightarrow> VMap (map (\<lambda>k. (k, VStr v)) ks) | SList n \<Rightarrow> VList (replicate n (VStr v)) | _ \<Rightarrow> VStr v) of
             Inr b \<Rightarrow> Some b | Inl _ \<Rightarrow> None))"

lemma starMap_keys: "starMap v m = map (\<lambda>k. (k, VStr v)) (map fst m)"
  by (simp add: starMap_def case_prod_beta)

lemma replaceJsonValues_shape: "replaceJsonValues X v j = fillShape X v (shapeOf X j)"
  by (auto simp: replaceJsonValues_def fillShape_def shapeOf_def starMap_keys map_replicate_const
      split: option.splits sum.splits val.splits)


definition sample_diff_lib :: diff_lib where
  "sample_diff_lib = \<lparr>dl_Diff = (\<lambda>a b. Inr (if a = b then [] else [\<lparr>rc_Type = ''update'', rc_Path = [''data''], rc_From = VNil, rc_To = VNil\<rparr>])),
     dl_Json = (\<lambda>v. Inr (case v of VStr s \<Rightarrow> s | _ \<Rightarrow> [])), dl_Unjson = (\<lambda>s. Inr (VStr s)), dl_Yaml = (\<lambda>_. Inr []),
     dl_YamlChange = ch_JsonPath, dl_Unified = (\<lambda>a b. a @ b), dl_ParsePath = (\<lambda>_. Inr (Some (Some ''data''))), dl_fmt = (\<lambda>_. [])\<rparr>"

definition sample_change :: "string \<Rightarrow> string \<Rightarrow> Change" where
  "sample_change old new = \<lparr>ch_Type = ''update'', ch_JsonPath = ''data.password'', ch_OldValue = Some old, ch_NewValue = Some new,
     ch_UnifiedDiff = ''-'' @ old @ [nl] @ ''+'' @ new\<rparr>"


text \<open>Setting a field of the top level.\<close>

lemma SetNestedField_top: "fst (SetNestedField v [KStr k] ob) = AList.update k v ob"
  by (simp add: SetNestedField_def SetChild_def as_map_def)

lemma obfuscateField_spec:
  assumes "obfuscateField field v x = Inr y"
  shows "map_of y k = (if k = field then (case map_of x field of Some (VMap m) \<Rightarrow> Some (VMap (starMap v m)) | r \<Rightarrow> r) else map_of x k)"
  using assms
  by (auto simp: obfuscateField_def noErr_def GetNestedField_single SetNestedField_top Clone_def split: option.splits val.splits)

lemma obfuscateField_values:
  assumes "obfuscateField field v x = Inr y"
  shows "map_of y field = map_of x field \<and> map_of x field \<in> {None, Some VNil} \<or> (\<exists>m. map_of x field = Some (VMap m) \<and> map_of y field = Some (VMap (starMap v m)))"
  using assms
  by (auto simp: obfuscateField_def noErr_def GetNestedField_single SetNestedField_top Clone_def split: option.splits val.splits)

text \<open>
  C17: An obfuscated secret keeps the names of its entries and no value: every entry of \<^verbatim>\<open>data\<close> is the encoding of five
  stars, every entry of \<^verbatim>\<open>stringData\<close> is five stars, where the field is absent or null it stays so, and
  all other fields of the object are as before.
\<close>

theorem obfuscateSecret_hides:
  assumes "obfuscateSecret x = Inr y"
  shows "(map_of y ''data'' = map_of x ''data'' \<and> map_of x ''data'' \<in> {None, Some VNil} \<or>
      (\<exists>m. map_of x ''data'' = Some (VMap m) \<and> map_of y ''data'' = Some (VMap (map (\<lambda>(k, _). (k, VStr stars64)) m)))) \<and>
    (map_of y ''stringData'' = map_of x ''stringData'' \<and> map_of x ''stringData'' \<in> {None, Some VNil} \<or>
      (\<exists>m. map_of x ''stringData'' = Some (VMap m) \<and> map_of y ''stringData'' = Some (VMap (map (\<lambda>(k, _). (k, VStr ''*****'')) m)))) \<and>
    (\<forall>k. k \<noteq> ''data'' \<and> k \<noteq> ''stringData'' \<longrightarrow> map_of y k = map_of x k)"
proof -
  obtain z where z: "obfuscateField ''data'' stars64 x = Inr z" "obfuscateField ''stringData'' ''*****'' z = Inr y"
    using assms by (auto simp: obfuscateSecret_def bindE_Inr_iff)
  note zs = obfuscateField_spec [OF z(1)] and ys = obfuscateField_spec [OF z(2)]
  show ?thesis
    using obfuscateField_values [OF z(1)] obfuscateField_values [OF z(2)] zs [of "''stringData''"] ys [of "''data''"]
    by (simp add: zs ys starMap_def)
qed

theorem obfuscateSecret_hides_witness:
  "\<exists>y m. obfuscateSecret [(''kind'', VStr ''Secret''), (''data'', VMap [(''password'', VStr ''aHVudGVyMg=='')])] = Inr y \<and>
     map_of y ''data'' = Some (VMap m) \<and> list_all (\<lambda>(k, v). v = VStr stars64) m"
proof -
  have r: "obfuscateSecret [(''kind'', VStr ''Secret''), (''data'', VMap [(''password'', VStr ''aHVudGVyMg=='')])] =
    Inr [(''kind'', VStr ''Secret''), (''data'', VMap [(''password'', VStr stars64)])]" by code_simp
  show ?thesis using r obfuscateSecret_hides [OF r] by auto
qed

end
