(* ===== verification/Results.thy ===== *)
theory Results
  imports Diff Errors_Holder "HOL-Library.Product_Lexorder"
begin

text \<open>
  Results of commands (\<^verbatim>\<open>pkg/types/result\<close>): the structures, the keys under which results are sorted, the summary,
  the reduced form without the contents of the objects, the compacted form that stores later versions of an
  object as deltas, and the obfuscation of a whole result. Times are numbers (nanoseconds). The text of an object
  is written and read by the JSON library, deltas are computed by the library diffmatchpatch, and the list of
  compacted objects is written and read as a whole by the JSON library; the three are the parameter record
  \<open>compact_lib\<close>.
\<close>

section \<open>Structures\<close>

record KluctlDeploymentInfo =
  kdi_Name :: string
  kdi_Namespace :: string

datatype CommandInitiator = CommandLine | KluctlDeployment

record ProjectKey =
  pk_GitRepoKey :: GitRepoKey
  pk_SubDir :: string

definition ProjectKey_Less :: "ProjectKey \<Rightarrow> ProjectKey \<Rightarrow> bool" where
  "ProjectKey_Less k k' =
     (if pk_GitRepoKey k \<noteq> pk_GitRepoKey k' then GitRepoKey_String (pk_GitRepoKey k) < GitRepoKey_String (pk_GitRepoKey k')
      else if pk_SubDir k \<noteq> pk_SubDir k' then pk_SubDir k < pk_SubDir k'
      else False)"

record TargetKey =
  tk_TargetName :: string
  tk_ClusterId :: string
  tk_Discriminator :: string

definition TargetKey_Less :: "TargetKey \<Rightarrow> TargetKey \<Rightarrow> bool" where
  "TargetKey_Less k k' =
     (if tk_TargetName k \<noteq> tk_TargetName k' then tk_TargetName k < tk_TargetName k'
      else if tk_ClusterId k \<noteq> tk_ClusterId k' then tk_ClusterId k < tk_ClusterId k'
      else if tk_Discriminator k \<noteq> tk_Discriminator k' then tk_Discriminator k < tk_Discriminator k'
      else False)"

record CommandInfo =
  ci_Initiator :: CommandInitiator
  ci_StartTime :: int
  ci_EndTime :: int
  ci_KluctlDeployment :: "KluctlDeploymentInfo option"
  ci_Command :: string
  ci_Target :: string
  ci_TargetNameOverride :: string
  ci_ContextOverride :: string
  ci_Args :: "uo option"
  ci_Images :: "FixedImage list"
  ci_DryRun :: bool
  ci_NoWait :: bool
  ci_ForceApply :: bool
  ci_ReplaceOnError :: bool
  ci_ForceReplaceOnError :: bool
  ci_AbortOnError :: bool
  ci_IncludeTags :: "string list"
  ci_ExcludeTags :: "string list"
  ci_IncludeDeploymentDirs :: "string list"
  ci_ExcludeDeploymentDirs :: "string list"

record GitInfo =
  gi_Url :: "GitUrl option"
  gi_Ref :: "GitRef option"
  gi_SubDir :: string
  gi_Commit :: string
  gi_Dirty :: bool

record ClusterInfo =
  cl_ClusterId :: string

record BaseObject =
  bo_Ref :: ObjectRef
  bo_Changes :: "Change list"
  bo_New :: bool
  bo_Orphan :: bool
  bo_Deleted :: bool
  bo_Hook :: bool

text \<open>The embedded \<^verbatim>\<open>BaseObject\<close> is the first field.\<close>

record ResultObject =
  ro_Base :: BaseObject
  ro_Rendered :: "uo option"
  ro_Remote :: "uo option"
  ro_Applied :: "uo option"

record CommandResult =
  cr_Id :: string
  cr_ProjectKey :: ProjectKey
  cr_TargetKey :: TargetKey
  cr_Target :: Target
  cr_Command :: CommandInfo
  cr_GitInfo :: GitInfo
  cr_ClusterInfo :: ClusterInfo
  cr_Deployment :: "DeploymentProjectConfig option"
  cr_Objects :: "ResultObject list"
  cr_Errors :: "DeploymentError list"
  cr_Warnings :: "DeploymentError list"
  cr_SeenImages :: "FixedImage list"

record CompactedCommandResult = CommandResult +
  ccr_CompactedObjects :: "ResultObject list"

definition ToCompacted :: "CommandResult \<Rightarrow> CompactedCommandResult" where
  "ToCompacted cr = CommandResult.extend (cr\<lparr>cr_Objects := []\<rparr>) \<lparr>ccr_CompactedObjects = cr_Objects cr\<rparr>"

text \<open>A nil slice and an empty one are the same list here.\<close>

definition ToNonCompacted :: "CompactedCommandResult \<Rightarrow> CommandResult" where
  "ToNonCompacted ccr =
     (let ret = CommandResult.truncate ccr
      in if ccr_CompactedObjects ccr \<noteq> [] then ret\<lparr>cr_Objects := ccr_CompactedObjects ccr\<rparr> else ret)"

record CommandResultSummary =
  su_Id :: string
  su_ProjectKey :: ProjectKey
  su_TargetKey :: TargetKey
  su_Target :: Target
  su_Command :: CommandInfo
  su_GitInfo :: GitInfo
  su_ClusterInfo :: ClusterInfo
  su_RenderedObjects :: nat
  su_RemoteObjects :: nat
  su_AppliedObjects :: nat
  su_AppliedHookObjects :: nat
  su_NewObjects :: nat
  su_ChangedObjects :: nat
  su_OrphanObjects :: nat
  su_DeletedObjects :: nat
  su_Errors :: "DeploymentError list"
  su_Warnings :: "DeploymentError list"
  su_TotalChanges :: nat

definition BuildSummary :: "CommandResult option \<Rightarrow> CommandResultSummary option" where
  "BuildSummary cr =
     (case cr of
        None \<Rightarrow> None
      | Some r \<Rightarrow>
          let count = (\<lambda>f. length (filter f (cr_Objects r))) in
          Some \<lparr>su_Id = cr_Id r, su_ProjectKey = cr_ProjectKey r, su_TargetKey = cr_TargetKey r, su_Target = cr_Target r,
            su_Command = cr_Command r, su_GitInfo = cr_GitInfo r, su_ClusterInfo = cr_ClusterInfo r,
            su_RenderedObjects = count (\<lambda>ob. ro_Rendered ob \<noteq> None), su_RemoteObjects = count (\<lambda>ob. ro_Remote ob \<noteq> None),
            su_AppliedObjects = count (\<lambda>ob. ro_Applied ob \<noteq> None), su_AppliedHookObjects = count (\<lambda>ob. bo_Hook (ro_Base ob)),
            su_NewObjects = count (\<lambda>ob. bo_New (ro_Base ob)), su_ChangedObjects = count (\<lambda>ob. bo_Changes (ro_Base ob) \<noteq> []),
            su_OrphanObjects = count (\<lambda>ob. bo_Orphan (ro_Base ob)), su_DeletedObjects = count (\<lambda>ob. bo_Deleted (ro_Base ob)),
            su_Errors = cr_Errors r, su_Warnings = cr_Warnings r,
            su_TotalChanges = sum_list (map (\<lambda>ob. length (bo_Changes (ro_Base ob))) (cr_Objects r))\<rparr>)"

section \<open>Reduced objects\<close>

definition buildReducedObject :: "k8s_lib \<Rightarrow> uo option \<Rightarrow> uo option res" where
  "buildReducedObject L x =
     (case x of
        None \<Rightarrow> Inr None
      | Some ob \<Rightarrow>
          bindE (GetK8sRef L ob) (\<lambda>ref.
          let ret = [(''apiVersion'', VStr (GroupVersion_String L (GroupVersion ref))), (''kind'', VStr (Kind ref)),
                     (''metadata'', VMap [(''name'', VStr (Name ref))])]
          in bindE (if Namespace ref \<noteq> [] then SetK8sNamespace (Namespace ref) ret else Inr ret) (\<lambda>ret.
             bindE (GetK8sLabels ob) (\<lambda>labels.
             bindE (if length labels \<noteq> 0 then SetK8sLabels labels ret else Inr ret) (\<lambda>ret.
             bindE (GetK8sAnnotations ob) (\<lambda>annotations.
             bindE (if length annotations \<noteq> 0 then SetK8sAnnotations annotations ret else Inr ret) (\<lambda>ret. Inr (Some ret))))))))"

definition reduceObject :: "k8s_lib \<Rightarrow> ResultObject \<Rightarrow> ResultObject res" where
  "reduceObject L ob =
     bindE (buildReducedObject L (ro_Rendered ob)) (\<lambda>rendered.
     bindE (buildReducedObject L (ro_Remote ob)) (\<lambda>remote.
     bindE (buildReducedObject L (ro_Applied ob)) (\<lambda>applied.
       Inr (ob\<lparr>ro_Rendered := rendered, ro_Remote := remote, ro_Applied := applied\<rparr>))))"

definition ToReducedObjects :: "k8s_lib \<Rightarrow> CommandResult \<Rightarrow> CommandResult res" where
  "ToReducedObjects L cr = bindE (mapE (reduceObject L) (cr_Objects cr)) (\<lambda>obs. Inr (cr\<lparr>cr_Objects := obs\<rparr>))"

section \<open>Compacted objects\<close>

datatype diff_op = DiffEqual | DiffInsert | DiffDelete

record CompactedObject =
  co_Base :: BaseObject
  co_Rendered :: string
  co_Remote :: string
  co_Applied :: string

text \<open>\<open>cl_PatchApply d a\<close> applies the patches made from the diff \<open>d\<close> and says for each whether it was applied.\<close>

record compact_lib =
  cl_WriteJson :: "uo \<Rightarrow> string res"
  cl_FromString :: "string \<Rightarrow> uo res"
  cl_DiffMain :: "string \<Rightarrow> string \<Rightarrow> (diff_op \<times> string) list"
  cl_DiffToDelta :: "(diff_op \<times> string) list \<Rightarrow> string"
  cl_DiffFromDelta :: "string \<Rightarrow> string \<Rightarrow> (diff_op \<times> string) list res"
  cl_PatchApply :: "(diff_op \<times> string) list \<Rightarrow> string \<Rightarrow> string \<times> bool list"
  cl_Marshal :: "CompactedObject list \<Rightarrow> string res"
  cl_Unmarshal :: "string \<Rightarrow> CompactedObject list res"

text \<open>The result is the stored text and the new \<^verbatim>\<open>prevJson\<close>.\<close>

definition createPatchOrFull :: "compact_lib \<Rightarrow> string \<Rightarrow> uo option \<Rightarrow> (string \<times> string) res" where
  "createPatchOrFull X prevJson x =
     (case x of
        None \<Rightarrow> Inr ([], prevJson)
      | Some ob \<Rightarrow>
          bindE (must (cl_WriteJson X ob)) (\<lambda>j.
          if prevJson = [] then Inr (''full: '' @ j, j)
          else let delta = cl_DiffToDelta X (cl_DiffMain X prevJson j)
               in if length delta < length j then Inr (''delta: '' @ delta, j) else Inr (''full: '' @ j, j)))"

definition compactObject :: "compact_lib \<Rightarrow> ResultObject \<Rightarrow> CompactedObject res" where
  "compactObject X ob =
     bindE (createPatchOrFull X [] (ro_Rendered ob)) (\<lambda>(rendered, prevJson).
     bindE (createPatchOrFull X prevJson (ro_Remote ob)) (\<lambda>(remote, prevJson).
     bindE (createPatchOrFull X prevJson (ro_Applied ob)) (\<lambda>(applied, prevJson).
       Inr \<lparr>co_Base = ro_Base ob, co_Rendered = rendered, co_Remote = remote, co_Applied = applied\<rparr>)))"

definition MarshalJSON :: "compact_lib \<Rightarrow> ResultObject list \<Rightarrow> string res" where
  "MarshalJSON X l = bindE (mapE (compactObject X) l) (cl_Marshal X)"

definition patchAndUnmarshal :: "compact_lib \<Rightarrow> string \<Rightarrow> string \<Rightarrow> (uo option \<times> string) res" where
  "patchAndUnmarshal X prevJson s =
     (if s = [] then Inr (None, prevJson)
      else if HasPrefix s ''full: '' then
        bindE (cl_FromString X (drop 6 s)) (\<lambda>ob. Inr (Some ob, drop 6 s))
      else if HasPrefix s ''delta: '' then
        (if prevJson = [] then Inl (Error ''prevJson empty'')
         else bindE (cl_DiffFromDelta X prevJson (drop 7 s)) (\<lambda>diff.
              let (newJson, result) = cl_PatchApply X diff prevJson
              in if list_all id result then bindE (cl_FromString X newJson) (\<lambda>ob. Inr (Some ob, newJson))
                 else Inl (Error ''patch did not fully apply'')))
      else Inl (Error ''unexpected object/delta''))"

definition expandObject :: "compact_lib \<Rightarrow> CompactedObject \<Rightarrow> ResultObject res" where
  "expandObject X c =
     bindE (patchAndUnmarshal X [] (co_Rendered c)) (\<lambda>(rendered, prevJson).
     bindE (patchAndUnmarshal X prevJson (co_Remote c)) (\<lambda>(remote, prevJson).
     bindE (patchAndUnmarshal X prevJson (co_Applied c)) (\<lambda>(applied, prevJson).
       Inr \<lparr>ro_Base = co_Base c, ro_Rendered = rendered, ro_Remote = remote, ro_Applied = applied\<rparr>)))"

text \<open>The tasks run in parallel and all of them finish; of several errors the first one is kept here.\<close>

definition UnmarshalJSON :: "compact_lib \<Rightarrow> string \<Rightarrow> ResultObject list res" where
  "UnmarshalJSON X b = bindE (cl_Unmarshal X b) (mapE (expandObject X))"

section \<open>Obfuscation of a result\<close>

text \<open>
  The loop ranges over the objects by value: the obfuscated objects are stored in the copy \<^verbatim>\<open>x\<close>, and lost. The
  changes of the copy share their array with the ones of the result, so that they are replaced.
\<close>

definition obfuscateResultObject :: "k8s_lib \<Rightarrow> diff_lib \<Rightarrow> ResultObject \<Rightarrow> ResultObject res" where
  "obfuscateResultObject L X ob =
     bindE (ObfuscateObject L (ro_Rendered ob)) (\<lambda>_.
     bindE (ObfuscateObject L (ro_Remote ob)) (\<lambda>_.
     bindE (ObfuscateObject L (ro_Applied ob)) (\<lambda>_.
     bindE (ObfuscateChanges X (bo_Ref (ro_Base ob)) (bo_Changes (ro_Base ob))) (\<lambda>changes.
       Inr (ob\<lparr>ro_Base := (ro_Base ob)\<lparr>bo_Changes := changes\<rparr>\<rparr>)))))"

definition ObfuscateResult :: "k8s_lib \<Rightarrow> diff_lib \<Rightarrow> CommandResult \<Rightarrow> CommandResult res" where
  "ObfuscateResult L X r = bindE (mapE (obfuscateResultObject L X) (cr_Objects r)) (\<lambda>obs. Inr (r\<lparr>cr_Objects := obs\<rparr>))"

section \<open>Reduced objects have no contents\<close>

lemma update_absent: "k \<notin> fst ` set m \<Longrightarrow> AList.update k v m = m @ [(k, v)]"
  by (induction m) auto

lemma update_twice [simp]: "AList.update k v (AList.update k w m) = AList.update k v m"
  by (induction m) auto

definition strs :: "(string, string) gomap \<Rightarrow> uo" where
  "strs m = map (\<lambda>(k, v). (k, VStr v)) m"

lemma fst_strs [simp]: "map fst (strs m) = map fst m" "fst ` set (strs m) = fst ` set m"
  by (force simp: strs_def)+

lemma SetNestedField_meta2:
  assumes "map_of ob ''metadata'' = Some (VMap m)" and "map_of m f = r" and "r = None \<or> r = Some (VMap l)" and "r = None \<Longrightarrow> l = []"
  shows "SetNestedField v [KStr ''metadata'', KStr f, KStr k] ob =
    (AList.update ''metadata'' (VMap (AList.update f (VMap (AList.update k v l)) m)) ob, None)"
proof -
  have 1: "GetChild (VMap ob) (KStr ''metadata'') = Inr (Some (VMap m))" using assms(1) by (simp add: child_simps)
  have 2: "GetChild (VMap m) (KStr f) = Inr r" using assms(2) by (simp add: child_simps)
  have "child_or_new r = VMap l" using assms(3,4) by (auto simp: child_or_new_def)
  then show ?thesis
    by (simp add: SetNestedField_def setPath_step [OF 1] setPath_step [OF 2] child_or_new_def child_simps as_map_def)
qed

lemma metaFold_more:
  assumes "map_of ob ''metadata'' = Some (VMap (AList.update f (VMap l) m))" and "wf_map kvs" and "fst ` set kvs \<inter> fst ` set l = {}"
  shows "foldE (\<lambda>(k, v). \<lambda>o'. mustSet (SetNestedField (VStr v) [KStr ''metadata'', KStr f, KStr k] o')) kvs ob =
    Inr (AList.update ''metadata'' (VMap (AList.update f (VMap (l @ strs kvs)) m)) ob)"
  using assms
proof (induction kvs arbitrary: ob l)
  case (Cons kv kvs)
  obtain k v where kv: "kv = (k, v)" by fastforce
  let ?ob = "AList.update ''metadata'' (VMap (AList.update f (VMap (l @ [(k, VStr v)])) m)) ob"
  have "SetNestedField (VStr v) [KStr ''metadata'', KStr f, KStr k] ob = (?ob, None)"
    using SetNestedField_meta2 [OF Cons.prems(1), where l = l and r = "Some (VMap l)" and f = f and k = k and v = "VStr v"]
      Cons.prems(3) kv by (simp add: update_absent)
  moreover have "foldE (\<lambda>(k, v). \<lambda>o'. mustSet (SetNestedField (VStr v) [KStr ''metadata'', KStr f, KStr k] o')) kvs ?ob =
      Inr (AList.update ''metadata'' (VMap (AList.update f (VMap ((l @ [(k, VStr v)]) @ strs kvs)) m)) ?ob)"
    using Cons.prems kv by (intro Cons.IH) (auto simp: image_iff)
  ultimately show ?case using kv by (simp add: mustSet_def strs_def)
qed (simp add: strs_def)

lemma metaFold:
  assumes "map_of ob ''metadata'' = Some (VMap m)" and "map_of m f = None" and "wf_map kvs" and "kvs \<noteq> []"
  shows "foldE (\<lambda>(k, v). \<lambda>o'. mustSet (SetNestedField (VStr v) [KStr ''metadata'', KStr f, KStr k] o')) kvs ob =
    Inr (AList.update ''metadata'' (VMap (m @ [(f, VMap (strs kvs))])) ob)"
proof -
  obtain k v kvs' where kvs: "kvs = (k, v) # kvs'" using assms(4) by (cases kvs) auto
  have f: "f \<notin> fst ` set m" using assms(2) by (simp add: map_of_eq_None_iff)
  let ?ob = "AList.update ''metadata'' (VMap (AList.update f (VMap [(k, VStr v)]) m)) ob"
  have "SetNestedField (VStr v) [KStr ''metadata'', KStr f, KStr k] ob = (?ob, None)"
    using SetNestedField_meta2 [OF assms(1,2), where l = "[]"] by simp
  moreover have "foldE (\<lambda>(k, v). \<lambda>o'. mustSet (SetNestedField (VStr v) [KStr ''metadata'', KStr f, KStr k] o')) kvs' ?ob =
      Inr (AList.update ''metadata'' (VMap (AList.update f (VMap ([(k, VStr v)] @ strs kvs')) m)) ?ob)"
    using assms(3) kvs by (intro metaFold_more) auto
  ultimately show ?thesis using kvs f by (simp add: mustSet_def strs_def update_absent)
qed

lemma SetK8sLabels_fresh:
  assumes "map_of ob ''metadata'' = Some (VMap m)" and "map_of m ''labels'' = None" and "wf_map kvs" and "kvs \<noteq> []"
  shows "SetK8sLabels kvs ob = Inr (AList.update ''metadata'' (VMap (m @ [(''labels'', VMap (strs kvs))])) ob)"
proof -
  have "AList.delete ''labels'' m = m" using assms(2) by (simp add: delete_id map_of_eq_None_iff)
  then show ?thesis using metaFold [OF assms] assms(1)
    by (simp add: SetK8sLabels_def SetK8sLabel_def RemoveNestedField_meta)
qed

lemma SetK8sAnnotations_fresh:
  assumes "map_of ob ''metadata'' = Some (VMap m)" and "map_of m ''annotations'' = None" and "wf_map kvs" and "kvs \<noteq> []"
  shows "SetK8sAnnotations kvs ob = Inr (AList.update ''metadata'' (VMap (m @ [(''annotations'', VMap (strs kvs))])) ob)"
proof -
  have "AList.delete ''annotations'' m = m" using assms(2) by (simp add: delete_id map_of_eq_None_iff)
  then show ?thesis using metaFold [OF assms] assms(1)
    by (simp add: SetK8sAnnotations_def SetK8sAnnotation_def RemoveNestedField_meta)
qed

text \<open>The object that remains: identity, labels and annotations, and nothing else.\<close>

definition identityOf :: "k8s_lib \<Rightarrow> ObjectRef \<Rightarrow> (string, string) gomap \<Rightarrow> (string, string) gomap \<Rightarrow> uo" where
  "identityOf L ref labels annotations =
     [(''apiVersion'', VStr (GroupVersion_String L (GroupVersion ref))), (''kind'', VStr (Kind ref)),
      (''metadata'', VMap ([(''name'', VStr (Name ref))] @
         (if Namespace ref = [] then [] else [(''namespace'', VStr (Namespace ref))]) @
         (if labels = [] then [] else [(''labels'', VMap (strs labels))]) @
         (if annotations = [] then [] else [(''annotations'', VMap (strs annotations))])))]"

lemma mapE_keys:
  "mapE (\<lambda>(k, x). case x of VStr s \<Rightarrow> Inr (k, s) | _ \<Rightarrow> Inl e) m0 = Inr m \<Longrightarrow> map fst m = map fst m0"
  by (induction m0 arbitrary: m) (auto simp: bindE_Inr_iff split: val.splits)

lemma wf_stringMap:
  assumes "wf_uo ob" and "GetNestedStringMapCopy ks ob = Inr (Some m)"
  shows "wf_map m"
proof -
  obtain v where v: "getPath ks (VMap ob) = Inr (Some v)"
    using assms(2) by (auto simp: GetNestedStringMapCopy_def GetNestedField_def bindE_Inr_iff split: option.splits)
  then obtain m0 where m0: "v = VMap m0"
    using assms(2) by (cases v) (auto simp: GetNestedStringMapCopy_def GetNestedField_def)
  then have "map fst m = map fst m0" using assms(2) v
    by (auto simp: GetNestedStringMapCopy_def GetNestedField_def bindE_Inr_iff dest: mapE_keys)
  moreover have "wf_val (VMap m0)" using wf_getPath [OF assms(1) v] m0 by simp
  ultimately show ?thesis by simp
qed

lemma GetK8sMaps_wf: "wf_uo ob \<Longrightarrow> GetK8sLabels ob = Inr m \<Longrightarrow> wf_map m"
    "wf_uo ob \<Longrightarrow> GetK8sAnnotations ob = Inr m \<Longrightarrow> wf_map m"
  by (auto simp: GetK8sLabels_def GetK8sAnnotations_def bindE_Inr_iff simp del: wf_val.simps split: option.splits dest: wf_stringMap)

lemma buildReducedObject_eq:
  assumes "wf_uo ob" and "GetK8sRef L ob = Inr ref" and "GetK8sLabels ob = Inr labels" and "GetK8sAnnotations ob = Inr annotations"
  shows "buildReducedObject L (Some ob) = Inr (Some (identityOf L ref labels annotations))"
proof -
  note wf = GetK8sMaps_wf(1) [OF assms(1,3)] GetK8sMaps_wf(2) [OF assms(1,4)]
  show ?thesis
    using assms wf
    by (cases "Namespace ref = []"; cases "labels = []"; cases "annotations = []")
      (simp_all add: buildReducedObject_def identityOf_def SetK8sNamespace_def SetNestedField_meta metadata_def metadata_ok_def
        SetK8sLabels_fresh SetK8sAnnotations_fresh mustSet_def)
qed

definition reducedTo :: "k8s_lib \<Rightarrow> uo option \<Rightarrow> uo option \<Rightarrow> bool" where
  "reducedTo L x x' \<longleftrightarrow> (case x of None \<Rightarrow> x' = None
     | Some ob \<Rightarrow> \<exists>ref labels annotations. GetK8sRef L ob = Inr ref \<and> GetK8sLabels ob = Inr labels \<and>
         GetK8sAnnotations ob = Inr annotations \<and> x' = Some (identityOf L ref labels annotations))"

lemma buildReducedObject_reducedTo:
  assumes b: "buildReducedObject L x = Inr x'" and w: "\<And>ob. Some ob = x \<Longrightarrow> wf_uo ob"
  shows "reducedTo L x x'"
proof (cases x)
  case None
  then show ?thesis using b by (simp add: buildReducedObject_def reducedTo_def)
next
  case (Some ob)
  obtain ref labels annotations where g: "GetK8sRef L ob = Inr ref" "GetK8sLabels ob = Inr labels" "GetK8sAnnotations ob = Inr annotations"
    using b Some by (auto simp: buildReducedObject_def Let_def bindE_Inr_iff)
  then show ?thesis using b Some buildReducedObject_eq [OF w [OF Some [symmetric]] g] by (simp add: reducedTo_def)
qed

lemma reduceObject_cases:
  "reduceObject L r = Inr r' \<Longrightarrow> ro_Base r' = ro_Base r \<and> buildReducedObject L (ro_Rendered r) = Inr (ro_Rendered r') \<and>
     buildReducedObject L (ro_Remote r) = Inr (ro_Remote r') \<and> buildReducedObject L (ro_Applied r) = Inr (ro_Applied r')"
  by (auto simp: reduceObject_def bindE_Inr_iff)

text \<open>
  A reduced result tells what a command did with which object, and nothing of the contents: every object of it
  consists of the API version, kind, name, namespace, labels and annotations of the original one, the information
  about changes, the errors and the order of the objects are kept, and an object that was absent stays absent.
\<close>

theorem ToReducedObjects_spec:
  assumes "ToReducedObjects L cr = Inr cr'"
    and "\<And>r ob. r \<in> set (cr_Objects cr) \<Longrightarrow> Some ob \<in> {ro_Rendered r, ro_Remote r, ro_Applied r} \<Longrightarrow> wf_uo ob"
  shows "cr_Errors cr' = cr_Errors cr \<and>
    list_all2 (\<lambda>r r'. ro_Base r' = ro_Base r \<and> reducedTo L (ro_Rendered r) (ro_Rendered r') \<and>
      reducedTo L (ro_Remote r) (ro_Remote r') \<and> reducedTo L (ro_Applied r) (ro_Applied r')) (cr_Objects cr) (cr_Objects cr')"
proof -
  obtain obs where obs: "list_all2 (\<lambda>r r'. reduceObject L r = Inr r') (cr_Objects cr) obs" "cr' = cr\<lparr>cr_Objects := obs\<rparr>"
    using assms(1) by (auto simp: ToReducedObjects_def bindE_Inr_iff mapE_Inr_iff)
  have "list_all2 (\<lambda>r r'. ro_Base r' = ro_Base r \<and> reducedTo L (ro_Rendered r) (ro_Rendered r') \<and>
      reducedTo L (ro_Remote r) (ro_Remote r') \<and> reducedTo L (ro_Applied r) (ro_Applied r')) (cr_Objects cr) obs"
    using obs(1)
  proof (rule list.rel_mono_strong)
    fix r r' assume m: "r \<in> set (cr_Objects cr)" and "reduceObject L r = Inr r'"
    note b = reduceObject_cases [OF this(2)]
    have "reducedTo L (ro_Rendered r) (ro_Rendered r')" "reducedTo L (ro_Remote r) (ro_Remote r')"
      "reducedTo L (ro_Applied r) (ro_Applied r')"
      using b assms(2) [OF m] by (blast intro: buildReducedObject_reducedTo)+
    then show "ro_Base r' = ro_Base r \<and> reducedTo L (ro_Rendered r) (ro_Rendered r') \<and>
      reducedTo L (ro_Remote r) (ro_Remote r') \<and> reducedTo L (ro_Applied r) (ro_Applied r')" using b by blast
  qed
  then show ?thesis using obs(2) by simp
qed

section \<open>Compaction loses nothing\<close>

text \<open>
  What the code relies on: an object is read back from its JSON text, which is not empty; a delta against a text
  gives back the diff it was made from, whose patches apply to that text and give the new one.
\<close>

definition jsonable :: "compact_lib \<Rightarrow> uo \<Rightarrow> bool" where
  "jsonable X ob \<longleftrightarrow> (case cl_WriteJson X ob of Inr j \<Rightarrow> j \<noteq> [] \<and> cl_FromString X j = Inr ob | Inl _ \<Rightarrow> False)"

definition delta_laws :: "compact_lib \<Rightarrow> bool" where
  "delta_laws X \<longleftrightarrow> (\<forall>a b. cl_DiffFromDelta X a (cl_DiffToDelta X (cl_DiffMain X a b)) = Inr (cl_DiffMain X a b) \<and>
     (\<exists>rs. cl_PatchApply X (cl_DiffMain X a b) a = (b, rs) \<and> list_all id rs))"

definition versions :: "ResultObject \<Rightarrow> uo option list" where
  "versions r = [ro_Rendered r, ro_Remote r, ro_Applied r]"

lemma field_roundtrip:
  assumes "delta_laws X" and "pred_option (jsonable X) x"
  shows "\<exists>s prev'. createPatchOrFull X prev x = Inr (s, prev') \<and> patchAndUnmarshal X prev s = Inr (x, prev')"
proof (cases x)
  case None
  then show ?thesis by (simp add: createPatchOrFull_def patchAndUnmarshal_def)
next
  case (Some ob)
  obtain j where j: "cl_WriteJson X ob = Inr j" "j \<noteq> []" "cl_FromString X j = Inr ob"
    using assms(2) Some by (auto simp: jsonable_def split: sum.splits)
  have full: "patchAndUnmarshal X prev (''full: '' @ j) = Inr (Some ob, j)"
    using j(3) by (simp add: patchAndUnmarshal_def HasPrefix_def)
  let ?d = "cl_DiffMain X prev j"
  obtain rs where d: "cl_DiffFromDelta X prev (cl_DiffToDelta X ?d) = Inr ?d" "cl_PatchApply X ?d prev = (j, rs)" "list_all id rs"
    using assms(1) by (auto simp: delta_laws_def)
  have "patchAndUnmarshal X prev (''delta: '' @ cl_DiffToDelta X ?d) = Inr (Some ob, j)" if "prev \<noteq> []"
    using that j(3) d by (simp add: patchAndUnmarshal_def HasPrefix_def)
  then show ?thesis using full j(1) Some
    by (cases "prev = []"; cases "length (cl_DiffToDelta X ?d) < length j") (auto simp: createPatchOrFull_def)
qed

lemma object_roundtrip:
  assumes "delta_laws X" and "list_all (pred_option (jsonable X)) (versions r)"
  shows "\<exists>c. compactObject X r = Inr c \<and> expandObject X c = Inr r"
proof -
  have v: "pred_option (jsonable X) (ro_Rendered r)" "pred_option (jsonable X) (ro_Remote r)" "pred_option (jsonable X) (ro_Applied r)"
    using assms(2) by (simp_all add: versions_def)
  note rt = field_roundtrip [OF assms(1)]
  obtain s1 p1 where 1: "createPatchOrFull X [] (ro_Rendered r) = Inr (s1, p1)" "patchAndUnmarshal X [] s1 = Inr (ro_Rendered r, p1)"
    using rt [OF v(1)] by blast
  obtain s2 p2 where 2: "createPatchOrFull X p1 (ro_Remote r) = Inr (s2, p2)" "patchAndUnmarshal X p1 s2 = Inr (ro_Remote r, p2)"
    using rt [OF v(2)] by blast
  obtain s3 p3 where 3: "createPatchOrFull X p2 (ro_Applied r) = Inr (s3, p3)" "patchAndUnmarshal X p2 s3 = Inr (ro_Applied r, p3)"
    using rt [OF v(3)] by blast
  show ?thesis using 1 2 3 by (simp add: compactObject_def expandObject_def)
qed

lemma objects_roundtrip:
  assumes "delta_laws X" and "list_all (\<lambda>r. list_all (pred_option (jsonable X)) (versions r)) l"
  shows "\<exists>cs. mapE (compactObject X) l = Inr cs \<and> mapE (expandObject X) cs = Inr l"
  using assms(2)
proof (induction l)
  case (Cons r l)
  then obtain c cs where "compactObject X r = Inr c" "expandObject X c = Inr r"
    "mapE (compactObject X) l = Inr cs" "mapE (expandObject X) cs = Inr l"
    using object_roundtrip [OF assms(1), of r] by auto
  then show ?case by auto
qed simp

text \<open>
  C27: Compacted results are read back as they were written: the objects of a result, written with each later
  version of an object as a delta against the version before it where that is shorter, are unmarshalled to the same
  objects, with absent versions anywhere in between.
\<close>

theorem CompactedObjects_roundtrip:
  assumes "delta_laws X" and "\<And>cs. mapE (compactObject X) l = Inr cs \<Longrightarrow> \<exists>b. cl_Marshal X cs = Inr b \<and> cl_Unmarshal X b = Inr cs"
    and "list_all (\<lambda>r. list_all (pred_option (jsonable X)) (versions r)) l"
  shows "\<exists>b. MarshalJSON X l = Inr b \<and> UnmarshalJSON X b = Inr l"
proof -
  obtain cs where cs: "mapE (compactObject X) l = Inr cs" "mapE (expandObject X) cs = Inr l"
    using objects_roundtrip [OF assms(1,3)] by blast
  moreover obtain b where "cl_Marshal X cs = Inr b" "cl_Unmarshal X b = Inr cs" using assms(2) [OF cs(1)] by blast
  ultimately show ?thesis by (auto simp: MarshalJSON_def UnmarshalJSON_def)
qed

text \<open>
  A stored version is never much longer than the JSON text of the object: at most six bytes longer, whether it
  is stored in full or as a delta.
\<close>

theorem createPatchOrFull_bound:
  assumes "createPatchOrFull X prev (Some ob) = Inr (s, prev')"
  shows "cl_WriteJson X ob = Inr prev' \<and> length s \<le> length prev' + 6"
  using assms by (auto simp: createPatchOrFull_def Let_def bindE_Inr_iff split: if_splits)

section \<open>Order of the keys\<close>

lemma split_at_first: "h @ c # p = h' @ c # p' \<Longrightarrow> c \<notin> set h \<Longrightarrow> c \<notin> set h' \<Longrightarrow> h = h' \<and> p = p'"
proof (induction h arbitrary: h')
  case Nil
  then show ?case by (cases h') auto
next
  case (Cons x h)
  then show ?case by (cases h') auto
qed

lemma GitRepoKey_String_inj:
  assumes "CHR ''/'' \<notin> set (rk_Host k)" and "CHR ''/'' \<notin> set (rk_Host k')"
  shows "GitRepoKey_String k = GitRepoKey_String k' \<longleftrightarrow> k = k'"
proof
  assume e: "GitRepoKey_String k = GitRepoKey_String k'"
  show "k = k'"
  proof (cases "rk_Host k = [] \<and> rk_Path k = [] \<or> rk_Host k' = [] \<and> rk_Path k' = []")
    case True
    then show ?thesis using e by (auto simp: GitRepoKey_String_def split: if_splits)
  next
    case False
    then have "rk_Host k @ CHR ''/'' # rk_Path k = rk_Host k' @ CHR ''/'' # rk_Path k'"
      using e by (auto simp: GitRepoKey_String_def split: if_splits)
    then show ?thesis using split_at_first [OF _ assms] by (cases k; cases k') simp
  qed
qed simp

text \<open>
  The keys of targets and projects are sorted lexicographically: targets by name, cluster and discriminator,
  projects by the printed repository key and the sub directory. Hosts of repository keys have no slash, which makes
  the printed key unambiguous; so both orders are strict total orders.
\<close>

theorem keys_lexicographic:
  assumes "CHR ''/'' \<notin> set (rk_Host (pk_GitRepoKey p))" and "CHR ''/'' \<notin> set (rk_Host (pk_GitRepoKey p'))"
  shows "(TargetKey_Less t t' \<longleftrightarrow>
      (tk_TargetName t, tk_ClusterId t, tk_Discriminator t) < (tk_TargetName t', tk_ClusterId t', tk_Discriminator t')) \<and>
    (ProjectKey_Less p p' \<longleftrightarrow>
      (GitRepoKey_String (pk_GitRepoKey p), pk_SubDir p) < (GitRepoKey_String (pk_GitRepoKey p'), pk_SubDir p')) \<and>
    (\<not> TargetKey_Less t t' \<and> \<not> TargetKey_Less t' t \<longleftrightarrow> t = t') \<and> (\<not> ProjectKey_Less p p' \<and> \<not> ProjectKey_Less p' p \<longleftrightarrow> p = p')"
proof -
  have t: "TargetKey_Less t t' \<longleftrightarrow>
      (tk_TargetName t, tk_ClusterId t, tk_Discriminator t) < (tk_TargetName t', tk_ClusterId t', tk_Discriminator t')" for t t'
    by (auto simp: TargetKey_Less_def)
  note inj = GitRepoKey_String_inj [OF assms] GitRepoKey_String_inj [OF assms(2,1)]
  have p: "ProjectKey_Less p p' \<longleftrightarrow>
      (GitRepoKey_String (pk_GitRepoKey p), pk_SubDir p) < (GitRepoKey_String (pk_GitRepoKey p'), pk_SubDir p')"
    "ProjectKey_Less p' p \<longleftrightarrow>
      (GitRepoKey_String (pk_GitRepoKey p'), pk_SubDir p') < (GitRepoKey_String (pk_GitRepoKey p), pk_SubDir p)"
    using inj by (auto simp: ProjectKey_Less_def)
  have "\<not> TargetKey_Less t t' \<and> \<not> TargetKey_Less t' t \<longleftrightarrow> t = t'"
    unfolding t by (cases t; cases t') (auto simp: not_less)
  moreover have "\<not> ProjectKey_Less p p' \<and> \<not> ProjectKey_Less p' p \<longleftrightarrow> p = p'"
    unfolding p using inj(1) by (cases p; cases p') (auto simp: not_less)
  ultimately show ?thesis using t p by blast
qed

section \<open>Obfuscation keeps the objects\<close>

text \<open>The objects of an obfuscated result are the ones of the result; only the changes are replaced.\<close>

lemma ObfuscateResult_keeps_objects:
  assumes "ObfuscateResult L X r = Inr r'"
  shows "map versions (cr_Objects r') = map versions (cr_Objects r)"
proof -
  obtain obs where obs: "list_all2 (\<lambda>ob ob'. obfuscateResultObject L X ob = Inr ob') (cr_Objects r) obs" "r' = r\<lparr>cr_Objects := obs\<rparr>"
    using assms by (auto simp: ObfuscateResult_def bindE_Inr_iff mapE_Inr_iff)
  have v: "obfuscateResultObject L X ob = Inr ob' \<Longrightarrow> versions ob' = versions ob" for ob ob'
    by (auto simp: obfuscateResultObject_def bindE_Inr_iff versions_def)
  have "map versions obs = map versions (cr_Objects r)" using obs(1) by (induction rule: list_all2_induct) (auto simp: v)
  then show ?thesis using obs(2) by simp
qed

section \<open>Examples\<close>

definition sample_base :: BaseObject where
  "sample_base = \<lparr>bo_Ref = NewObjectRef [] ''v1'' ''ConfigMap'' ''n'' ''ns'', bo_Changes = [], bo_New = False, bo_Orphan = False,
     bo_Deleted = False, bo_Hook = False\<rparr>"

definition sample_content :: uo where
  "sample_content = [(''apiVersion'', VStr ''v1''), (''kind'', VStr ''ConfigMap''),
     (''metadata'', VMap [(''name'', VStr ''n''), (''labels'', VMap [(''a'', VStr ''b'')])]), (''data'', VMap [(''k'', VStr ''v'')])]"

definition sample_resultObject :: ResultObject where
  "sample_resultObject = \<lparr>ro_Base = sample_base, ro_Rendered = Some sample_content, ro_Remote = None, ro_Applied = Some sample_content\<rparr>"

definition sample_compacted :: CompactedObject where
  "sample_compacted = \<lparr>co_Base = sample_base, co_Rendered = ''full: {..}'', co_Remote = [], co_Applied = ''delta: =''\<rparr>"

definition sample_compact_lib :: compact_lib where
  "sample_compact_lib = \<lparr>cl_WriteJson = (\<lambda>_. Inr ''{..}''), cl_FromString = (\<lambda>_. Inr sample_content),
     cl_DiffMain = (\<lambda>a b. if a = b then [(DiffEqual, a)] else [(DiffDelete, a), (DiffInsert, b)]),
     cl_DiffToDelta = (\<lambda>d. if length d = 1 then ''='' else ''+'' @ snd (last d)),
     cl_DiffFromDelta = (\<lambda>a s. Inr (if s = ''='' then [(DiffEqual, a)] else [(DiffDelete, a), (DiffInsert, tl s)])),
     cl_PatchApply = (\<lambda>d a. (snd (last d), [True])),
     cl_Marshal = (\<lambda>_. Inr ''[..]''), cl_Unmarshal = (\<lambda>_. Inr [sample_compacted])\<rparr>"

lemma sample_compact: "mapE (compactObject sample_compact_lib) [sample_resultObject] = Inr [sample_compacted]"
  by code_simp

theorem CompactedObjects_roundtrip_witness:
  "\<exists>b. MarshalJSON sample_compact_lib [sample_resultObject] = Inr b \<and> UnmarshalJSON sample_compact_lib b = Inr [sample_resultObject]"
proof (rule CompactedObjects_roundtrip)
  show "delta_laws sample_compact_lib" by (simp add: delta_laws_def sample_compact_lib_def)
  show "list_all (\<lambda>r. list_all (pred_option (jsonable sample_compact_lib)) (versions r)) [sample_resultObject]"
    by (simp add: versions_def sample_resultObject_def jsonable_def sample_compact_lib_def)
  show "\<exists>b. cl_Marshal sample_compact_lib cs = Inr b \<and> cl_Unmarshal sample_compact_lib b = Inr cs"
    if "mapE (compactObject sample_compact_lib) [sample_resultObject] = Inr cs" for cs
    using that unfolding sample_compact by (simp add: sample_compact_lib_def)
qed

theorem createPatchOrFull_bound_witness:
  "\<exists>s prev'. createPatchOrFull sample_compact_lib ''{..}'' (Some sample_content) = Inr (s, prev') \<and> length s \<le> length prev' + 6"
proof -
  have r: "createPatchOrFull sample_compact_lib ''{..}'' (Some sample_content) = Inr (''delta: ='', ''{..}'')" by code_simp
  show ?thesis using r createPatchOrFull_bound [OF r] by blast
qed

theorem keys_lexicographic_witness:
  "ProjectKey_Less \<lparr>pk_GitRepoKey = \<lparr>rk_Host = ''a'', rk_Path = ''b''\<rparr>, pk_SubDir = ''x''\<rparr>
     \<lparr>pk_GitRepoKey = \<lparr>rk_Host = ''a'', rk_Path = ''c''\<rparr>, pk_SubDir = []\<rparr>"
proof -
  have "GitRepoKey_String \<lparr>rk_Host = ''a'', rk_Path = ''b''\<rparr> < GitRepoKey_String \<lparr>rk_Host = ''a'', rk_Path = ''c''\<rparr>" by code_simp
  then show ?thesis using keys_lexicographic [of "\<lparr>pk_GitRepoKey = \<lparr>rk_Host = ''a'', rk_Path = ''b''\<rparr>, pk_SubDir = ''x''\<rparr>"
    "\<lparr>pk_GitRepoKey = \<lparr>rk_Host = ''a'', rk_Path = ''c''\<rparr>, pk_SubDir = []\<rparr>"] by simp
qed

definition blank_target :: Target where
  "blank_target = \<lparr>t_Name = [], t_Context = None, t_Args = None, t_SealingConfig = None, t_Images = [], t_Discriminator = []\<rparr>"

definition blank_command :: CommandInfo where
  "blank_command = \<lparr>ci_Initiator = CommandLine, ci_StartTime = 0, ci_EndTime = 0, ci_KluctlDeployment = None, ci_Command = [], ci_Target = [],
     ci_TargetNameOverride = [], ci_ContextOverride = [], ci_Args = None, ci_Images = [], ci_DryRun = False, ci_NoWait = False,
     ci_ForceApply = False, ci_ReplaceOnError = False, ci_ForceReplaceOnError = False, ci_AbortOnError = False, ci_IncludeTags = [],
     ci_ExcludeTags = [], ci_IncludeDeploymentDirs = [], ci_ExcludeDeploymentDirs = []\<rparr>"

text \<open>The zero value of a result.\<close>

definition blank_result :: CommandResult where
  "blank_result = \<lparr>cr_Id = [], cr_ProjectKey = \<lparr>pk_GitRepoKey = \<lparr>rk_Host = [], rk_Path = []\<rparr>, pk_SubDir = []\<rparr>,
     cr_TargetKey = \<lparr>tk_TargetName = [], tk_ClusterId = [], tk_Discriminator = []\<rparr>, cr_Target = blank_target, cr_Command = blank_command,
     cr_GitInfo = \<lparr>gi_Url = None, gi_Ref = None, gi_SubDir = [], gi_Commit = [], gi_Dirty = False\<rparr>,
     cr_ClusterInfo = \<lparr>cl_ClusterId = []\<rparr>, cr_Deployment = None, cr_Objects = [], cr_Errors = [], cr_Warnings = [], cr_SeenImages = []\<rparr>"

theorem ToReducedObjects_spec_witness:
  "\<exists>cr' r'. ToReducedObjects sample_lib (blank_result\<lparr>cr_Objects := [sample_resultObject]\<rparr>) = Inr cr' \<and>
     cr_Objects cr' = [r'] \<and> ro_Remote r' = None \<and>
     ro_Applied r' = Some (identityOf sample_lib (NewObjectRef [] ''v1'' ''ConfigMap'' ''n'' []) [(''a'', ''b'')] [])"
proof -
  let ?cr = "blank_result\<lparr>cr_Objects := [sample_resultObject]\<rparr>"
  have "\<exists>cr'. ToReducedObjects sample_lib ?cr = Inr cr'" by (rule exI, code_simp)
  then obtain cr' where cr': "ToReducedObjects sample_lib ?cr = Inr cr'" ..
  have w: "wf_uo sample_content" by code_simp
  have g: "GetK8sRef sample_lib sample_content = Inr (NewObjectRef [] ''v1'' ''ConfigMap'' ''n'' [])"
    "GetK8sLabels sample_content = Inr [(''a'', ''b'')]" "GetK8sAnnotations sample_content = Inr []" by code_simp+
  have "list_all2 (\<lambda>r r'. ro_Base r' = ro_Base r \<and> reducedTo sample_lib (ro_Rendered r) (ro_Rendered r') \<and>
      reducedTo sample_lib (ro_Remote r) (ro_Remote r') \<and> reducedTo sample_lib (ro_Applied r) (ro_Applied r')) (cr_Objects ?cr) (cr_Objects cr')"
    using ToReducedObjects_spec [OF cr'] w by (auto simp: sample_resultObject_def)
  then show ?thesis using cr' g by (auto simp: list_all2_Cons1 reducedTo_def sample_resultObject_def)
qed

end
