(* ===== verification/Go_Base64.thy ===== *)
theory Go_Base64
  imports Prelude
begin

text \<open>
  Decoding of base64 as in Go's \<^verbatim>\<open>encoding/base64\<close>, used for image placeholders and for the data of secrets.
\<close>

text \<open>\<^verbatim>\<open>base64.StdEncoding.DecodeString\<close>: line breaks are skipped, padding is needed, the unused bits are not checked.\<close>

definition b64Digit :: "char \<Rightarrow> nat option" where
  "b64Digit c =
     (let n = of_char c :: nat in
      if 65 \<le> n \<and> n \<le> 90 then Some (n - 65)
      else if 97 \<le> n \<and> n \<le> 122 then Some (n - 71)
      else if 48 \<le> n \<and> n \<le> 57 then Some (n + 4)
      else if n = 43 then Some 62
      else if n = 47 then Some 63
      else None)"

text \<open>The three bytes of four digits of six bits each.\<close>

definition b64Bytes :: "nat \<Rightarrow> nat \<Rightarrow> nat \<Rightarrow> nat \<Rightarrow> string" where
  "b64Bytes x y z w = [char_of (x * 4 + y div 16), char_of (y mod 16 * 16 + z div 4), char_of (z mod 4 * 64 + w)]"

fun b64Quanta :: "string \<Rightarrow> string res" where
  "b64Quanta [] = Inr []"
| "b64Quanta (a # b # c # d # rest) =
     (case (b64Digit a, b64Digit b, b64Digit c, b64Digit d) of
        (Some x, Some y, Some z, Some w) \<Rightarrow>
          bindE (b64Quanta rest) (\<lambda>r. Inr (b64Bytes x y z w @ r))
      | (Some x, Some y, Some z, None) \<Rightarrow>
          if d = CHR ''='' \<and> rest = [] then Inr (take 2 (b64Bytes x y z 0))
          else Inl (Error ''illegal base64 data'')
      | (Some x, Some y, None, None) \<Rightarrow>
          if c = CHR ''='' \<and> d = CHR ''='' \<and> rest = [] then Inr (take 1 (b64Bytes x y 0 0))
          else Inl (Error ''illegal base64 data'')
      | _ \<Rightarrow> Inl (Error ''illegal base64 data''))"
| "b64Quanta _ = Inl (Error ''illegal base64 data'')"

definition DecodeString :: "string \<Rightarrow> string res" where
  "DecodeString s = b64Quanta (filter (\<lambda>c. c \<noteq> CHR 0x0A \<and> c \<noteq> CHR 0x0D) s)"

end
