(* ===== verification/Images.thy ===== *)
theory Images
  imports Deployment_Types K8s_Cluster Uo_Iterator Go_Base64
begin

text \<open>
  Fixed images and image placeholders (\<^verbatim>\<open>pkg/deployment/images.go\<close>). Templates leave placeholders in the string
  fields of rendered objects; they are found by the leaf iterator and replaced by the image that was fixed for
  them. The placeholder is a YAML document in base64; reading YAML into the structures is the parameter record
  \<open>images_lib\<close>. The state of the operations is the pair of image
  lists together with the requests to the cluster. Deprecation messages are not modelled.
\<close>

section \<open>Library functions\<close>

text \<open>\<^verbatim>\<open>strings.Index\<close>.\<close>

definition Index :: "string \<Rightarrow> string \<Rightarrow> int" where
  "Index s p = (case find (\<lambda>i. HasPrefix (drop i s) p) [0..<Suc (length s)] of None \<Rightarrow> - 1 | Some i \<Rightarrow> int i)"

section \<open>Fixed images\<close>

record Images = kstate +
  im_fixedImages :: "FixedImage list"
  im_seenImages :: "FixedImage list"

type_synonym 'a ieff = "(Images, 'a) eff"

text \<open>\<open>il_ReadYaml\<close> reads the fields \<^verbatim>\<open>image\<close> and \<^verbatim>\<open>hasLatestVersion\<close>; the other fields of a placeholder are overwritten.\<close>

record images_lib =
  il_ReadYaml :: "string \<Rightarrow> (string \<times> bool) res"
  il_ToFixedImage :: "uo \<Rightarrow> FixedImage res"

definition AddFixedImage :: "FixedImage \<Rightarrow> Images \<Rightarrow> Images" where
  "AddFixedImage fi s = s\<lparr>im_fixedImages := im_fixedImages s @ [fi]\<rparr>"

definition PrependFixedImages :: "FixedImage list \<Rightarrow> Images \<Rightarrow> Images" where
  "PrependFixedImages fis s = s\<lparr>im_fixedImages := fis @ im_fixedImages s\<rparr>"

definition FixedImages :: "Images option \<Rightarrow> FixedImage list" where
  "FixedImages s = (case s of None \<Rightarrow> [] | Some im \<Rightarrow> im_fixedImages im)"

definition noFixedImage :: FixedImage where
  "noFixedImage = \<lparr>fi_Image = [], fi_ResultImage = [], fi_DeployedImage = None, fi_Namespace = None, fi_Object = None,
     fi_Deployment = None, fi_Container = None, fi_DeployTags = [], fi_DeploymentDir = None\<rparr>"

text \<open>The order of images with equal names is not fixed by \<^verbatim>\<open>sort.Slice\<close>; the stable order is taken.\<close>

definition SeenImages :: "bool \<Rightarrow> Images option \<Rightarrow> FixedImage list" where
  "SeenImages simple s =
     (case s of
        None \<Rightarrow> []
      | Some im \<Rightarrow> sort_key fi_Image (map (\<lambda>fi.
          if simple then noFixedImage\<lparr>fi_Image := fi_Image fi, fi_ResultImage := fi_ResultImage fi\<rparr> else fi) (im_seenImages im)))"

definition parseFixedImagesFromVars :: "images_lib \<Rightarrow> uo \<Rightarrow> FixedImage list res" where
  "parseFixedImagesFromVars X vars =
     bindE (GetNestedObjectList [KStr ''images''] vars) (\<lambda>fisU. mapE (il_ToFixedImage X) (case fisU of None \<Rightarrow> [] | Some l \<Rightarrow> l))"

definition fixedMatches :: "string \<Rightarrow> string \<Rightarrow> string \<Rightarrow> string \<Rightarrow> FixedImage \<Rightarrow> bool" where
  "fixedMatches img namespace deployment container fi \<longleftrightarrow>
     fi_Image fi = img \<and> (fi_Namespace fi = None \<or> fi_Namespace fi = Some namespace) \<and>
     (fi_Deployment fi = None \<or> fi_Deployment fi = Some deployment) \<and> (fi_Container fi = None \<or> fi_Container fi = Some container)"

text \<open>The loop runs from the last entry to the first.\<close>

definition cmpList :: "string \<Rightarrow> string \<Rightarrow> string \<Rightarrow> string \<Rightarrow> FixedImage list \<Rightarrow> string option" where
  "cmpList img namespace deployment container fis =
     map_option fi_ResultImage (find (fixedMatches img namespace deployment container) (rev fis))"

definition getFixedImage :: "images_lib \<Rightarrow> FixedImage list \<Rightarrow> string \<Rightarrow> string \<Rightarrow> string \<Rightarrow> string \<Rightarrow> uo \<Rightarrow> string option res" where
  "getFixedImage X fixed img namespace deployment container vars =
     bindE (parseFixedImagesFromVars X vars) (\<lambda>fisFromVars.
       Inr (case cmpList img namespace deployment container fixed of
              Some fi \<Rightarrow> Some fi
            | None \<Rightarrow> cmpList img namespace deployment container fisFromVars))"

section \<open>Placeholders\<close>

definition beginPlaceholder :: string where
  "beginPlaceholder = ''XXXXXbegin_get_image_''"

definition endPlaceholder :: string where
  "endPlaceholder = ''_end_get_imageXXXXX''"

record placeHolder =
  ph_Image :: string
  ph_HasLatestVersion :: bool
  ph_Container :: string
  ph_FieldPath :: keypath
  ph_FieldValue :: string
  ph_StartOffset :: nat
  ph_EndOffset :: nat

text \<open>
  The start is relative to the offset and the end is relative to the start, as the code has it: both are used as
  positions in the whole string.
\<close>

definition parsePlaceholder :: "images_lib \<Rightarrow> string \<Rightarrow> nat \<Rightarrow> placeHolder option res" where
  "parsePlaceholder X s offset =
     (if offset > length s then Inl (Panic ''slice bounds out of range'')
      else let start = Index (drop offset s) beginPlaceholder in
        if start = - 1 then Inr None
        else let end' = Index (drop (nat start) s) endPlaceholder in
          if end' = - 1 then Inl (Error ''beginPlaceholder marker without endPlaceholder marker'')
          else let low = nat start + length beginPlaceholder in
            if nat end' < low then Inl (Panic ''slice bounds out of range'')
            else bindE (DecodeString (take (nat end' - low) (drop low s))) (\<lambda>b.
                 bindE (il_ReadYaml X b) (\<lambda>(img, latest).
                   Inr (Some \<lparr>ph_Image = img, ph_HasLatestVersion = latest, ph_Container = [], ph_FieldPath = [],
                     ph_FieldValue = s, ph_StartOffset = nat start, ph_EndOffset = nat end' + length endPlaceholder\<rparr>))))"

definition extractContainerName :: "val \<Rightarrow> string" where
  "extractContainerName parent =
     (case parent of VMap m \<Rightarrow> (case map_of m ''name'' of Some (VStr y) \<Rightarrow> y | _ \<Rightarrow> []) | _ \<Rightarrow> [])"

text \<open>The loop over one string; it need not end, so the number of rounds is bounded.\<close>

fun findInString :: "images_lib \<Rightarrow> nat \<Rightarrow> string \<Rightarrow> nat \<Rightarrow> placeHolder list res" where
  "findInString X 0 s offset = Inl OutOfFuel"
| "findInString X (Suc n) s offset =
     bindE (parsePlaceholder X s offset) (\<lambda>r.
     case r of
       None \<Rightarrow> Inr []
     | Some ph \<Rightarrow> bindE (findInString X n s (ph_EndOffset ph)) (\<lambda>phs. Inr (ph # phs)))"

definition containerAt :: "uo \<Rightarrow> keypath \<Rightarrow> string" where
  "containerAt ob ks = (case getPath (butlast ks) (VMap ob) of Inr (Some p) \<Rightarrow> extractContainerName p | _ \<Rightarrow> [])"

definition findInLeaf :: "images_lib \<Rightarrow> nat \<Rightarrow> uo \<Rightarrow> keypath \<Rightarrow> val \<Rightarrow> placeHolder list res" where
  "findInLeaf X n ob ks v =
     (case v of
        VStr s \<Rightarrow>
          bindE (findInString X n s 0) (\<lambda>phs. Inr (map (\<lambda>ph. ph\<lparr>ph_FieldPath := ks, ph_Container := containerAt ob ks\<rparr>) phs))
      | _ \<Rightarrow> Inr [])"

definition FindPlaceholders :: "images_lib \<Rightarrow> nat \<Rightarrow> uo \<Rightarrow> placeHolder list res" where
  "FindPlaceholders X n ob =
     (case IterateLeafs (\<lambda>ks v acc. case findInLeaf X n ob ks v of Inl e \<Rightarrow> (v, acc, Some e) | Inr phs \<Rightarrow> (v, acc @ phs, None)) ob [] of
        (_, acc, None) \<Rightarrow> Inr acc
      | (_, _, Some e) \<Rightarrow> Inl e)"

section \<open>Resolving placeholders\<close>

definition resolveImage :: "images_lib \<Rightarrow> placeHolder \<Rightarrow> ObjectRef \<Rightarrow> string \<Rightarrow> string option \<Rightarrow> string \<Rightarrow> string list \<Rightarrow> uo \<Rightarrow>
    string option ieff" where
  "resolveImage X ph ref deployment deployed deploymentDir tags vars =
     bindM (ask im_fixedImages) (\<lambda>fixed.
     bindM (lift (getFixedImage X fixed (ph_Image ph) (Namespace ref) deployment (ph_Container ph) vars)) (\<lambda>result.
     seqM (modify (\<lambda>s. s\<lparr>im_seenImages := im_seenImages s @
         [\<lparr>fi_Image = ph_Image ph, fi_ResultImage = orEmpty result, fi_DeployedImage = deployed, fi_Namespace = Some (Namespace ref),
           fi_Object = Some ref, fi_Deployment = Some deployment, fi_Container = Some (ph_Container ph), fi_DeployTags = tags,
           fi_DeploymentDir = Some deploymentDir\<rparr>]\<rparr>))
     (ret result)))"

definition getRemote :: "K8sCluster option \<Rightarrow> ObjectRef \<Rightarrow> uo option ieff" where
  "getRemote k ref =
     (case k of
        None \<Rightarrow> ret None
      | Some k \<Rightarrow> bindM (GetSingleObject k ref) (\<lambda>(remoteObject, _, err).
          case err of
            Some e \<Rightarrow> if \<not> IsNotFound e then throw (Error (err_Msg e)) else ret remoteObject
          | None \<Rightarrow> ret remoteObject))"

definition deployedImage :: "uo option \<Rightarrow> placeHolder \<Rightarrow> string option" where
  "deployedImage remoteObject ph =
     (case remoteObject of
        None \<Rightarrow> None
      | Some r \<Rightarrow>
          if ph_StartOffset ph = 0 \<and> ph_EndOffset ph = length (ph_FieldValue ph) then
            (case noErr None (GetNestedField (ph_FieldPath ph) r) of Some (VStr y) \<Rightarrow> Some y | _ \<Rightarrow> None)
          else None)"

definition replacedValue :: "placeHolder \<Rightarrow> string \<Rightarrow> string" where
  "replacedValue ph resultImage = take (ph_StartOffset ph) (ph_FieldValue ph) @ resultImage @ drop (ph_EndOffset ph) (ph_FieldValue ph)"

text \<open>\<open>remote\<close> is \<open>None\<close> as long as the remote object was not asked for.\<close>

fun resolveLoop :: "images_lib \<Rightarrow> K8sCluster option \<Rightarrow> ObjectRef \<Rightarrow> string \<Rightarrow> string \<Rightarrow> string list \<Rightarrow> uo \<Rightarrow>
    uo option option \<Rightarrow> placeHolder list \<Rightarrow> uo \<Rightarrow> uo ieff" where
  "resolveLoop X k ref deployment deploymentDir tags vars remote [] ob = ret ob"
| "resolveLoop X k ref deployment deploymentDir tags vars remote (ph # phs) ob =
     bindM (case remote of Some r \<Rightarrow> ret r | None \<Rightarrow> getRemote k ref) (\<lambda>remoteObject.
     bindM (resolveImage X ph ref deployment (deployedImage remoteObject ph) deploymentDir tags vars) (\<lambda>resultImage.
     case resultImage of
       None \<Rightarrow> throw (Error (''failed to find fixed image for '' @ ph_Image ph))
     | Some img \<Rightarrow>
         (case SetNestedField (VStr (replacedValue ph img)) (ph_FieldPath ph) ob of
            (_, Some e) \<Rightarrow> throw e
          | (ob', None) \<Rightarrow> resolveLoop X k ref deployment deploymentDir tags vars (Some remoteObject) phs ob')))"

text \<open>The object is changed in place; the result is the changed object.\<close>

definition ResolvePlaceholders :: "images_lib \<Rightarrow> nat \<Rightarrow> k8s_lib \<Rightarrow> K8sCluster option \<Rightarrow> uo \<Rightarrow> string \<Rightarrow> string list \<Rightarrow> uo \<Rightarrow> uo ieff" where
  "ResolvePlaceholders X n L k ob deploymentDir tags vars =
     bindM (lift (FindPlaceholders X n ob)) (\<lambda>placeholders.
     bindM (lift (GetK8sRef L ob)) (\<lambda>ref.
       resolveLoop X k ref (Kind ref @ ''/'' @ Name ref) deploymentDir tags vars None (rev placeholders) ob))"

section \<open>Finding placeholders\<close>

lemma Index_0: "HasPrefix s p \<Longrightarrow> Index s p = 0"
  by (simp add: Index_def upt_conv_Cons del: upt_Suc)

text \<open>A string field with one placeholder at its start and no marker after it.\<close>

definition startsWithPlaceholder :: "images_lib \<Rightarrow> string \<Rightarrow> string \<Rightarrow> string \<Rightarrow> bool" where
  "startsWithPlaceholder X s img rest \<longleftrightarrow> (\<exists>b d latest. s = beginPlaceholder @ b @ endPlaceholder @ rest \<and>
     Index s endPlaceholder = int (length beginPlaceholder + length b) \<and> Index rest beginPlaceholder = - 1 \<and>
     DecodeString b = Inr d \<and> il_ReadYaml X d = Inr (img, latest))"

lemma parse_at_start:
  assumes "s = beginPlaceholder @ b @ endPlaceholder @ rest" and "Index s endPlaceholder = int (length beginPlaceholder + length b)"
    and "DecodeString b = Inr d" and "il_ReadYaml X d = Inr (img, latest)"
  shows "parsePlaceholder X s 0 = Inr (Some \<lparr>ph_Image = img, ph_HasLatestVersion = latest, ph_Container = [], ph_FieldPath = [],
    ph_FieldValue = s, ph_StartOffset = 0, ph_EndOffset = length beginPlaceholder + length b + length endPlaceholder\<rparr>)"
proof -
  have "Index s beginPlaceholder = 0" using assms(1) by (simp add: Index_0)
  then show ?thesis using assms(2-4) by (simp add: parsePlaceholder_def assms(1) Let_def nat_int_add)
qed

lemma findInString_start:
  assumes "startsWithPlaceholder X s img rest"
  obtains ph where "findInString X (Suc (Suc n)) s 0 = Inr [ph]" and "ph_Image ph = img" and "ph_FieldPath ph = []"
    and "replacedValue ph r = r @ rest" and "ph_StartOffset ph = 0" and "ph_FieldValue ph = s"
proof -
  obtain b d latest where s: "s = beginPlaceholder @ b @ endPlaceholder @ rest"
    "Index s endPlaceholder = int (length beginPlaceholder + length b)" "Index rest beginPlaceholder = - 1"
    "DecodeString b = Inr d" "il_ReadYaml X d = Inr (img, latest)"
    using assms by (auto simp: startsWithPlaceholder_def)
  let ?e = "length beginPlaceholder + length b + length endPlaceholder"
  have "drop ?e s = rest" using s(1) by simp
  then have "parsePlaceholder X s ?e = Inr None" using s(1,3) by (simp add: parsePlaceholder_def)
  then show ?thesis using that parse_at_start [OF s(1,2,4,5)] \<open>drop ?e s = rest\<close> by (simp add: replacedValue_def)
qed

lemma findInString_unmarked: "Index s beginPlaceholder = - 1 \<Longrightarrow> findInString X (Suc n) s 0 = Inr []"
  by (simp add: parsePlaceholder_def)

text \<open>Two placeholders without a character between them: the second round finds the first placeholder again, for ever.\<close>

lemma findInString_adjacent:
  assumes s: "s = beginPlaceholder @ b @ endPlaceholder @ beginPlaceholder @ rest"
    and e: "Index s endPlaceholder = int (length beginPlaceholder + length b)"
    and d: "DecodeString b = Inr d" "il_ReadYaml X d = Inr (img, latest)"
  shows "findInString X n s 0 = Inl OutOfFuel"
proof -
  let ?e = "length beginPlaceholder + length b + length endPlaceholder"
  let ?ph = "\<lparr>ph_Image = img, ph_HasLatestVersion = latest, ph_Container = [], ph_FieldPath = [],
    ph_FieldValue = s, ph_StartOffset = 0, ph_EndOffset = ?e\<rparr>"
  have 0: "parsePlaceholder X s 0 = Inr (Some ?ph)" using parse_at_start [OF s e d] .
  have "Index (drop ?e s) beginPlaceholder = Index (drop 0 s) beginPlaceholder" using s by (simp add: Index_0)
  then have "parsePlaceholder X s ?e = parsePlaceholder X s 0" using s by (simp add: parsePlaceholder_def)
  then have "findInString X m s ?e = Inl OutOfFuel" for m using 0 by (induction m) simp_all
  then show ?thesis using 0 by (cases n) simp_all
qed

text \<open>Text before a placeholder moves the end: with a short encoding the slice bounds are crossed.\<close>

lemma parsePlaceholder_prefix_example:
  "parsePlaceholder X (''registry.example.com/images/'' @ beginPlaceholder @ ''aW1hZ2U6IGE='' @ endPlaceholder) 0 =
     Inl (Panic ''slice bounds out of range'')"
proof -
  let ?s = "''registry.example.com/images/'' @ beginPlaceholder @ ''aW1hZ2U6IGE='' @ endPlaceholder"
  have "Index ?s beginPlaceholder = 28" "Index (drop 28 ?s) endPlaceholder = 33" "length ?s = 80" "length beginPlaceholder = 21" by code_simp+
  then show ?thesis unfolding parsePlaceholder_def by simp
qed

text \<open>Iterations with callbacks that agree on the leafs agree.\<close>

lemma iterate_cong:
  "(\<And>k x s. (k, x) \<in> set (leafsOf ks v) \<Longrightarrow> cb k x s = cb' k x s) \<Longrightarrow> iterateInterface cb ks v s = iterateInterface cb' ks v s"
  "(\<And>k x s. (k, x) \<in> set (concat (map (\<lambda>p. leafsOf (ks @ [KStr (fst p)]) (snd p)) m)) \<Longrightarrow> cb k x s = cb' k x s) \<Longrightarrow>
     iterateMap cb ks m s = iterateMap cb' ks m s"
  "(\<And>k x s. (k, x) \<in> set (concat (map (\<lambda>j. leafsOf (ks @ [KInt (int (i + j))]) (l ! j)) [0..<length l])) \<Longrightarrow> cb k x s = cb' k x s) \<Longrightarrow>
     iterateList cb ks i l s = iterateList cb' ks i l s"
proof (induction cb ks v s and cb ks m s and cb ks i l s rule: iterateInterface_iterateMap_iterateList.induct)
  case (1 cb ks v s)
  show ?case
  proof (cases "is_leaf v")
    case True
    then show ?thesis using 1(3) by (simp add: iterateInterface_leaf leafsOf_leaf)
  next
    case False
    then show ?thesis using 1 by (auto simp: iterateInterface.simps elim!: not_leaf_cases)
  qed
next
  case (3 cb ks k v m s)
  have "iterateInterface cb (ks @ [KStr k]) v s = iterateInterface cb' (ks @ [KStr k]) v s"
    using 3(1,3) by simp
  moreover have "iterateMap cb ks m s' = iterateMap cb' ks m s'"
    if "iterateInterface cb (ks @ [KStr k]) v s = (v', s', None)" for v' s'
    using 3(2) that 3(3) by (metis (no_types, lifting) Un_iff concat.simps(2) list.simps(9) set_append)
  ultimately show ?case by (auto split: prod.splits option.splits)
next
  case (5 cb ks i v l s)
  note p = 5(3) [unfolded upt_shift]
  have "iterateInterface cb (ks @ [KInt (int i)]) v s = iterateInterface cb' (ks @ [KInt (int i)]) v s"
    using 5(1) p by simp
  moreover have "iterateList cb ks (Suc i) l s' = iterateList cb' ks (Suc i) l s'"
    if e: "iterateInterface cb (ks @ [KInt (int i)]) v s = (v', s', None)" for v' s'
  proof (rule 5(2) [OF e [symmetric] refl refl])
    fix k x s assume "(k, x) \<in> set (concat (map (\<lambda>j. leafsOf (ks @ [KInt (int (Suc i + j))]) (l ! j)) [0..<length l]))"
    then show "cb k x s = cb' k x s" by (intro p) simp
  qed
  ultimately show ?case by (auto split: prod.splits option.splits)
qed simp_all

lemma FindPlaceholders_ok:
  assumes "\<And>ks v. (ks, v) \<in> set (leafsOf [] (VMap ob)) \<Longrightarrow> findInLeaf X n ob ks v = Inr (f ks v)"
  shows "FindPlaceholders X n ob = Inr (concat (map (\<lambda>(ks, v). f ks v) (leafsOf [] (VMap ob))))"
proof -
  let ?cb = "\<lambda>ks v acc. case findInLeaf X n ob ks v of Inl e \<Rightarrow> (v, acc, Some e) | Inr phs \<Rightarrow> (v, acc @ phs, None)"
  have "IterateLeafs ?cb ob [] = IterateLeafs (collect_cb f) ob []"
    unfolding IterateLeafs_def by (rule iterate_cong(2)) (simp add: assms collect_cb_def)
  moreover have "snd (snd (IterateLeafs (collect_cb f) ob [])) = None"
  proof -
    have "collect_cb f = pure_cb (\<lambda>ks v. v) (\<lambda>ks v s. s @ f ks v)" by (intro ext) (simp add: collect_cb_def pure_cb_def)
    then show ?thesis by (simp add: IterateLeafs_pure)
  qed
  ultimately show ?thesis
    using collectLeafs_eq [of f ob] by (simp add: FindPlaceholders_def collectLeafs_def case_prod_beta)
qed

section \<open>Replacing placeholders\<close>

lemma SetNestedField_leaf:
  assumes "GetNestedField p ob = Inr (Some v)" and "is_leaf v"
  shows "\<exists>ob'. SetNestedField w p ob = (ob', None) \<and> GetNestedField p ob' = Inr (Some w) \<and>
    (\<forall>q u. GetNestedField q ob = Inr (Some u) \<and> is_leaf u \<and> q \<noteq> p \<longrightarrow> GetNestedField q ob' = Inr (Some u))"
proof -
  obtain ob' e where s: "SetNestedField w p ob = (ob', e)" by fastforce
  have "p \<noteq> []" using assms by (auto simp: GetNestedField_def is_leaf_def)
  then have "can_set p (VMap ob)" using assms(1) getPath_can_set by (auto simp: GetNestedField_def)
  then have "e = None" using setPath_ok_iff [of w p "VMap ob"] snd_SetNestedField [of w p ob] s by simp
  moreover have "GetNestedField q ob' = Inr (Some u)" if "GetNestedField q ob = Inr (Some u)" "is_leaf u" "q \<noteq> p" for q u
    using nested.get_put_diverge [of p q w ob u] leaf_fields_diverge [OF assms that(1,2)] that(1,3) s by auto
  ultimately show ?thesis using nested.get_put [of w p ob] s by simp
qed

text \<open>What is recorded for a resolved placeholder.\<close>

definition seenFor :: "placeHolder \<Rightarrow> string \<Rightarrow> FixedImage \<Rightarrow> bool" where
  "seenFor ph img fi \<longleftrightarrow> fi_Image fi = ph_Image ph \<and> fi_ResultImage fi = img \<and> fi_Container fi = Some (ph_Container ph)"

lemma resolveImage_run:
  assumes "getFixedImage X (im_fixedImages s) (ph_Image ph) (Namespace ref) deployment (ph_Container ph) vars = Inr (Some img)"
  shows "\<exists>fi. resolveImage X ph ref deployment deployed dir tags vars s =
    (Inr (Some img), s\<lparr>im_seenImages := im_seenImages s @ [fi]\<rparr>) \<and> seenFor ph img fi"
proof -
  let ?fi = "\<lparr>fi_Image = ph_Image ph, fi_ResultImage = img, fi_DeployedImage = deployed, fi_Namespace = Some (Namespace ref),
    fi_Object = Some ref, fi_Deployment = Some deployment, fi_Container = Some (ph_Container ph), fi_DeployTags = tags,
    fi_DeploymentDir = Some dir\<rparr>"
  have "resolveImage X ph ref deployment deployed dir tags vars s = (Inr (Some img), s\<lparr>im_seenImages := im_seenImages s @ [?fi]\<rparr>)"
    using assms by (simp add: resolveImage_def bindM_def seqM_def run_simps orEmpty_def)
  moreover have "seenFor ph img ?fi" by (simp add: seenFor_def)
  ultimately show ?thesis by blast
qed

lemma resolveLoop_tried:
  assumes "distinct (map ph_FieldPath phs)"
    and "\<And>ph. ph \<in> set phs \<Longrightarrow> \<exists>v. GetNestedField (ph_FieldPath ph) ob = Inr (Some v) \<and> is_leaf v"
    and "\<And>ph. ph \<in> set phs \<Longrightarrow>
      getFixedImage X (im_fixedImages s) (ph_Image ph) (Namespace ref) deployment (ph_Container ph) vars = Inr (Some (img ph))"
  shows "\<exists>ob' s' new. resolveLoop X k ref deployment dir tags vars (Some remote) phs ob s = (Inr ob', s') \<and>
    (\<forall>ph \<in> set phs. GetNestedField (ph_FieldPath ph) ob' = Inr (Some (VStr (replacedValue ph (img ph))))) \<and>
    (\<forall>q u. GetNestedField q ob = Inr (Some u) \<and> is_leaf u \<and> q \<notin> ph_FieldPath ` set phs \<longrightarrow> GetNestedField q ob' = Inr (Some u)) \<and>
    im_seenImages s' = im_seenImages s @ new \<and> list_all2 (\<lambda>ph fi. seenFor ph (img ph) fi) phs new"
  using assms
proof (induction phs arbitrary: ob s)
  case (Cons ph phs)
  let ?v = "VStr (replacedValue ph (img ph))" and ?p = "ph_FieldPath ph"
  obtain fi where fi: "resolveImage X ph ref deployment (deployedImage remote ph) dir tags vars s =
      (Inr (Some (img ph)), s\<lparr>im_seenImages := im_seenImages s @ [fi]\<rparr>)" "seenFor ph (img ph) fi"
    using resolveImage_run Cons.prems(3) by (metis list.set_intros(1))
  let ?s = "s\<lparr>im_seenImages := im_seenImages s @ [fi]\<rparr>"
  obtain v where "GetNestedField ?p ob = Inr (Some v)" "is_leaf v" using Cons.prems(2) by (metis list.set_intros(1))
  then obtain ob1 where ob1: "SetNestedField ?v ?p ob = (ob1, None)" "GetNestedField ?p ob1 = Inr (Some ?v)"
    "\<And>q u. GetNestedField q ob = Inr (Some u) \<Longrightarrow> is_leaf u \<Longrightarrow> q \<noteq> ?p \<Longrightarrow> GetNestedField q ob1 = Inr (Some u)"
    using SetNestedField_leaf by metis
  have p: "?p \<notin> ph_FieldPath ` set phs" "distinct (map ph_FieldPath phs)" using Cons.prems(1) by auto
  have leafs: "\<exists>v. GetNestedField (ph_FieldPath ph') ob1 = Inr (Some v) \<and> is_leaf v" if m: "ph' \<in> set phs" for ph'
  proof -
    obtain u where "GetNestedField (ph_FieldPath ph') ob = Inr (Some u)" "is_leaf u"
      using Cons.prems(2) [of ph'] m by auto
    moreover have "ph_FieldPath ph' \<noteq> ?p" using p(1) m by (metis imageI)
    ultimately show ?thesis using ob1(3) by blast
  qed
  have "getFixedImage X (im_fixedImages ?s) (ph_Image ph') (Namespace ref) deployment (ph_Container ph') vars = Inr (Some (img ph'))"
    if "ph' \<in> set phs" for ph' using Cons.prems(3) [of ph'] that by simp
  then obtain ob' s' new where r: "resolveLoop X k ref deployment dir tags vars (Some remote) phs ob1 ?s = (Inr ob', s')"
    "\<forall>ph \<in> set phs. GetNestedField (ph_FieldPath ph) ob' = Inr (Some (VStr (replacedValue ph (img ph))))"
    "\<forall>q u. GetNestedField q ob1 = Inr (Some u) \<and> is_leaf u \<and> q \<notin> ph_FieldPath ` set phs \<longrightarrow> GetNestedField q ob' = Inr (Some u)"
    "im_seenImages s' = im_seenImages ?s @ new" "list_all2 (\<lambda>ph fi. seenFor ph (img ph) fi) phs new"
    using Cons.IH [OF p(2) leafs] by blast
  have "resolveLoop X k ref deployment dir tags vars (Some remote) (ph # phs) ob s = (Inr ob', s')"
    using fi(1) ob1(1) r(1) by (simp add: bindM_def)
  moreover have "GetNestedField ?p ob' = Inr (Some ?v)" using r(3) ob1(2) p(1) by (simp add: is_leaf_def)
  moreover have "GetNestedField q ob' = Inr (Some u)"
    if "GetNestedField q ob = Inr (Some u)" "is_leaf u" "q \<notin> ph_FieldPath ` set (ph # phs)" for q u
    using ob1(3) [OF that(1,2)] r(3) that(2,3) by auto
  ultimately show ?case using r(2,4,5) fi(2)
    by (intro exI [of _ ob'] exI [of _ s'] exI [of _ "fi # new"]) auto
qed (simp add: run_simps)

lemma resolveLoop_first:
  assumes "getRemote k ref s = (Inr remote, s1)" and "phs \<noteq> []"
  shows "resolveLoop X k ref deployment dir tags vars None phs ob s = resolveLoop X k ref deployment dir tags vars (Some remote) phs ob s1"
  using assms by (cases phs) (simp_all add: bindM_def run_simps)

lemma getRemote_keeps: "getRemote k ref s = (Inr remote, s1) \<Longrightarrow> im_fixedImages s1 = im_fixedImages s \<and> im_seenImages s1 = im_seenImages s"
  by (auto simp: getRemote_def GetSingleObject_def withClientFromPool_def bindM_def seqM_def run_simps Let_def
      split: option.splits prod.splits sum.splits if_splits)

lemma leafsOf_prefix: "(q, w) \<in> set (leafsOf ks v) \<Longrightarrow> prefix ks q"
proof (induction ks v arbitrary: q rule: leafsOf.induct)
  case (1 ks m)
  then show ?case by (fastforce simp: prefix_def)
next
  case (2 ks l)
  then show ?case by (fastforce simp: prefix_def)
qed auto

lemma prefix_snoc_inj: "prefix (ks @ [a]) q \<Longrightarrow> prefix (ks @ [b]) q \<Longrightarrow> a = b"
  by (auto simp: prefix_def)

lemma distinct_concat_prefix:
  assumes "distinct (map k xs)" and "\<And>x. x \<in> set xs \<Longrightarrow> distinct (f x)"
    and "\<And>x q. x \<in> set xs \<Longrightarrow> q \<in> set (f x) \<Longrightarrow> prefix (ks @ [k x]) q"
  shows "distinct (concat (map f xs))"
  using assms
proof (induction xs)
  case (Cons x xs)
  have "set (f x) \<inter> set (concat (map f xs)) = {}"
  proof (rule ccontr)
    assume "set (f x) \<inter> set (concat (map f xs)) \<noteq> {}"
    then obtain q y where "q \<in> set (f x)" "y \<in> set xs" "q \<in> set (f y)" by auto
    then have "k x = k y" using Cons.prems(3) prefix_snoc_inj by (metis list.set_intros)
    then show False using Cons.prems(1) \<open>y \<in> set xs\<close> by (auto simp: image_iff)
  qed
  moreover have "distinct (concat (map f xs))" using Cons.prems by (intro Cons.IH) auto
  moreover have "distinct (f x)" using Cons.prems(2) by simp
  ultimately show ?case by simp
qed simp

lemma leafsOf_distinct: "wf_val v \<Longrightarrow> distinct (map fst (leafsOf ks v))"
proof (induction ks v rule: leafsOf.induct)
  case (1 ks m)
  have "distinct (concat (map (\<lambda>p. map fst (leafsOf (ks @ [KStr (fst p)]) (snd p))) m))"
  proof (rule distinct_concat_prefix [where k = "\<lambda>p. KStr (fst p)" and ks = ks])
    show "distinct (map (\<lambda>p. KStr (fst p)) m)"
      using 1(2) by (simp add: distinct_map inj_on_def)
  qed (use 1 in \<open>auto dest: leafsOf_prefix\<close>)
  then show ?case by (simp add: map_concat comp_def)
next
  case (2 ks l)
  have "distinct (concat (map (\<lambda>i. map fst (leafsOf (ks @ [KInt (int i)]) (l ! i))) [0..<length l]))"
  proof (rule distinct_concat_prefix [where k = "\<lambda>i. KInt (int i)" and ks = ks])
    show "distinct (map (\<lambda>i. KInt (int i)) [0..<length l])" by (simp add: distinct_map inj_on_def)
  qed (use 2 in \<open>auto dest: leafsOf_prefix\<close>)
  then show ?case by (simp add: map_concat comp_def)
qed auto

text \<open>The placeholders found when every marked field starts with its only placeholder.\<close>

definition placeholderAt :: "images_lib \<Rightarrow> nat \<Rightarrow> uo \<Rightarrow> keypath \<Rightarrow> val \<Rightarrow> placeHolder list" where
  "placeholderAt X n ob ks v = noErr [] (findInLeaf X n ob ks v)"

lemma placeholderAt_paths:
  "\<forall>ph \<in> set (placeholderAt X n ob ks v). ph_FieldPath ph = ks \<and> ph_Container ph = containerAt ob ks"
  by (cases v) (auto simp: placeholderAt_def findInLeaf_def noErr_def bindE_def split: sum.splits)

lemma findInLeaf_start:
  assumes "startsWithPlaceholder X v i r"
  obtains ph where "findInLeaf X (Suc (Suc n)) ob ks (VStr v) = Inr [ph]" and "ph_Image ph = i" and "ph_FieldPath ph = ks"
    and "ph_Container ph = containerAt ob ks" and "\<And>img. replacedValue ph img = img @ r"
proof -
  obtain ph where ph: "findInString X (Suc (Suc n)) v 0 = Inr [ph]" "ph_Image ph = i" "replacedValue ph [] = [] @ r"
    "ph_StartOffset ph = 0" using findInString_start [OF assms] by metis
  let ?ph = "ph\<lparr>ph_FieldPath := ks, ph_Container := containerAt ob ks\<rparr>"
  have "replacedValue ?ph img = img @ r" for img using ph(3,4) by (simp add: replacedValue_def)
  then show ?thesis using that [of ?ph] ph(1,2) by (simp add: findInLeaf_def del: findInString.simps)
qed

lemma findInLeaf_other:
  assumes "\<And>w. v = VStr w \<Longrightarrow> Index w beginPlaceholder = - 1"
  shows "findInLeaf X (Suc (Suc n)) ob ks v = Inr []"
  using assms by (cases v) (simp_all add: findInLeaf_def findInString_unmarked del: findInString.simps)

lemma resolveLoop_untried:
  assumes remote: "getRemote k ref s = (Inr remote, s1)" and "distinct (map ph_FieldPath phs)"
    and "\<And>ph. ph \<in> set phs \<Longrightarrow> \<exists>v. GetNestedField (ph_FieldPath ph) ob = Inr (Some v) \<and> is_leaf v"
    and "\<And>ph. ph \<in> set phs \<Longrightarrow>
      getFixedImage X (im_fixedImages s) (ph_Image ph) (Namespace ref) deployment (ph_Container ph) vars = Inr (Some (img ph))"
  shows "\<exists>ob' s' new. resolveLoop X k ref deployment dir tags vars None phs ob s = (Inr ob', s') \<and>
    (\<forall>ph \<in> set phs. GetNestedField (ph_FieldPath ph) ob' = Inr (Some (VStr (replacedValue ph (img ph))))) \<and>
    (\<forall>q u. GetNestedField q ob = Inr (Some u) \<and> is_leaf u \<and> q \<notin> ph_FieldPath ` set phs \<longrightarrow> GetNestedField q ob' = Inr (Some u)) \<and>
    im_seenImages s' = im_seenImages s @ new \<and> list_all2 (\<lambda>ph fi. seenFor ph (img ph) fi) phs new"
proof (cases "phs = []")
  case True
  then show ?thesis by (simp add: run_simps)
next
  case False
  have k: "im_fixedImages s1 = im_fixedImages s" "im_seenImages s1 = im_seenImages s" using getRemote_keeps [OF remote] by auto
  show ?thesis
    unfolding resolveLoop_first [OF remote False]
    using resolveLoop_tried [OF assms(2,3), of X s1 ref deployment vars img k dir tags remote] assms(4) k by simp
qed

lemma list_all2_partner: "list_all2 R xs ys \<Longrightarrow> x \<in> set xs \<Longrightarrow> \<exists>y \<in> set ys. R x y"
  by (induction rule: list_all2_induct) auto

lemma distinct_concat_one:
  assumes "distinct (map fst xs)" and "\<And>x. x \<in> set xs \<Longrightarrow> g x = [] \<or> g x = [fst x]"
  shows "distinct (concat (map g xs))"
  using assms
proof (induction xs)
  case (Cons x xs)
  have sub: "set (concat (map g xs)) \<subseteq> fst ` set xs"
  proof
    fix q assume "q \<in> set (concat (map g xs))"
    then obtain y where "y \<in> set xs" "q \<in> set (g y)" by auto
    then show "q \<in> fst ` set xs" using Cons.prems(2) [of y] by auto
  qed
  have "distinct (concat (map g xs))" using Cons by simp
  moreover have "g x = [] \<or> g x = [fst x]" using Cons.prems(2) by simp
  moreover have "fst x \<notin> set (concat (map g xs))" using Cons.prems(1) sub by auto
  ultimately show ?case by auto
qed simp


text \<open>A placeholder that was found stands for the marked field at its path.\<close>

definition standsFor :: "images_lib \<Rightarrow> uo \<Rightarrow> placeHolder \<Rightarrow> keypath \<Rightarrow> string \<Rightarrow> string \<Rightarrow> bool" where
  "standsFor X ob ph ks i r \<longleftrightarrow> ph_Image ph = i \<and> ph_FieldPath ph = ks \<and> ph_Container ph = containerAt ob ks \<and>
     (\<forall>a. replacedValue ph a = a @ r)"

lemma placeholderAt_start:
  assumes "startsWithPlaceholder X v i r"
  shows "\<exists>ph. findInLeaf X (Suc (Suc n)) ob ks (VStr v) = Inr [ph] \<and> placeholderAt X (Suc (Suc n)) ob ks (VStr v) = [ph] \<and>
    standsFor X ob ph ks i r"
proof -
  obtain ph where "findInLeaf X (Suc (Suc n)) ob ks (VStr v) = Inr [ph]" "ph_Image ph = i" "ph_FieldPath ph = ks"
    "ph_Container ph = containerAt ob ks" "\<And>a. replacedValue ph a = a @ r" using findInLeaf_start [OF assms] by blast
  then show ?thesis by (simp add: placeholderAt_def noErr_def standsFor_def)
qed

lemma placeholderAt_cases:
  assumes "\<And>v. u = VStr v \<Longrightarrow> Index v beginPlaceholder = - 1 \<or> (\<exists>i r. startsWithPlaceholder X v i r)"
  shows "findInLeaf X (Suc (Suc n)) ob ks u = Inr (placeholderAt X (Suc (Suc n)) ob ks u) \<and>
    (placeholderAt X (Suc (Suc n)) ob ks u = [] \<or>
     (\<exists>v i r ph. u = VStr v \<and> startsWithPlaceholder X v i r \<and> placeholderAt X (Suc (Suc n)) ob ks u = [ph] \<and> standsFor X ob ph ks i r))"
proof (cases "\<exists>v i r. u = VStr v \<and> startsWithPlaceholder X v i r")
  case True
  then obtain v i r where v: "u = VStr v" "startsWithPlaceholder X v i r" by blast
  then show ?thesis using placeholderAt_start [OF v(2), of n ob ks] by auto
next
  case False
  then have "\<And>v. u = VStr v \<Longrightarrow> Index v beginPlaceholder = - 1" using assms by blast
  then have "findInLeaf X (Suc (Suc n)) ob ks u = Inr []" by (rule findInLeaf_other)
  then show ?thesis by (simp add: placeholderAt_def noErr_def)
qed

text \<open>Every string field is unmarked or starts with its only placeholder.\<close>

definition wellPlaced :: "images_lib \<Rightarrow> uo \<Rightarrow> bool" where
  "wellPlaced X ob \<longleftrightarrow> (\<forall>ks v. GetNestedField ks ob = Inr (Some (VStr v)) \<longrightarrow>
     Index v beginPlaceholder = - 1 \<or> (\<exists>i r. startsWithPlaceholder X v i r))"

lemma FindPlaceholders_found:
  assumes wf: "wf_uo ob" and fields: "wellPlaced X ob"
  shows "\<exists>phs. FindPlaceholders X (Suc (Suc n)) ob = Inr phs \<and> distinct (map ph_FieldPath phs) \<and>
    (\<forall>ph \<in> set phs. \<exists>ks v i r. GetNestedField ks ob = Inr (Some (VStr v)) \<and> startsWithPlaceholder X v i r \<and> standsFor X ob ph ks i r) \<and>
    (\<forall>ks v i r. GetNestedField ks ob = Inr (Some (VStr v)) \<and> startsWithPlaceholder X v i r \<longrightarrow> (\<exists>ph \<in> set phs. standsFor X ob ph ks i r))"
proof -
  let ?at = "placeholderAt X (Suc (Suc n)) ob" and ?leafs = "leafsOf [] (VMap ob)"
  let ?phs = "concat (map (\<lambda>(ks, v). ?at ks v) ?leafs)"
  have leaf: "(ks, u) \<in> set ?leafs \<longleftrightarrow> GetNestedField ks ob = Inr (Some u) \<and> is_leaf u" for ks u
    using leafsOf_iff [OF wf, of ks u "[]"] by (simp add: GetNestedField_def del: leafsOf.simps)
  have one: "findInLeaf X (Suc (Suc n)) ob ks u = Inr (?at ks u) \<and> (?at ks u = [] \<or>
      (\<exists>v i r ph. u = VStr v \<and> startsWithPlaceholder X v i r \<and> ?at ks u = [ph] \<and> standsFor X ob ph ks i r))"
    if "(ks, u) \<in> set ?leafs" for ks u
  proof (rule placeholderAt_cases)
    show "Index v beginPlaceholder = - 1 \<or> (\<exists>i r. startsWithPlaceholder X v i r)" if "u = VStr v" for v
      using fields leaf \<open>(ks, u) \<in> set ?leafs\<close> that by (auto simp: wellPlaced_def simp del: leafsOf.simps)
  qed
  have "FindPlaceholders X (Suc (Suc n)) ob = Inr ?phs" using one by (intro FindPlaceholders_ok) blast
  moreover have "distinct (map ph_FieldPath ?phs)"
  proof -
    have "distinct (concat (map (\<lambda>p. map ph_FieldPath (?at (fst p) (snd p))) ?leafs))"
    proof (rule distinct_concat_one)
      show "distinct (map fst ?leafs)" using leafsOf_distinct [OF wf] .
      fix p assume "p \<in> set ?leafs"
      then show "map ph_FieldPath (?at (fst p) (snd p)) = [] \<or> map ph_FieldPath (?at (fst p) (snd p)) = [fst p]"
        using one [of "fst p" "snd p"] by (auto simp: standsFor_def)
    qed
    then show ?thesis by (simp add: map_concat comp_def case_prod_unfold)
  qed
  moreover have "\<exists>ks v i r. GetNestedField ks ob = Inr (Some (VStr v)) \<and> startsWithPlaceholder X v i r \<and> standsFor X ob ph ks i r"
    if m: "ph \<in> set ?phs" for ph
  proof -
    obtain ks u where ks: "(ks, u) \<in> set ?leafs" "ph \<in> set (?at ks u)" using m by (auto simp del: leafsOf.simps)
    then show ?thesis using one [OF ks(1)] leaf by fastforce
  qed
  moreover have "\<exists>ph \<in> set ?phs. standsFor X ob ph ks i r"
    if m: "GetNestedField ks ob = Inr (Some (VStr v))" "startsWithPlaceholder X v i r" for ks v i r
  proof -
    have "(ks, VStr v) \<in> set ?leafs" using leaf m(1) by (simp add: is_leaf_def)
    moreover obtain ph where "?at ks (VStr v) = [ph]" "standsFor X ob ph ks i r"
      using placeholderAt_start [OF m(2), of n ob ks] by blast
    ultimately show ?thesis by (intro bexI [of _ ph]) (auto simp del: leafsOf.simps intro!: bexI [of _ "(ks, VStr v)"])
  qed
  ultimately show ?thesis by blast
qed


section \<open>Example\<close>

definition sample_field :: string where
  "sample_field = beginPlaceholder @ ''aW1hZ2U6IGE='' @ endPlaceholder @ ''-debug''"

definition sample_pod :: uo where
  "sample_pod = [(''apiVersion'', VStr ''v1''), (''kind'', VStr ''Pod''), (''image'', VStr sample_field)]"

definition sample_images_lib :: images_lib where
  "sample_images_lib = \<lparr>il_ReadYaml = (\<lambda>s. if s = ''image: a'' then Inr (''a'', False) else Inl (Error s)), il_ToFixedImage = (\<lambda>_. Inl (Error []))\<rparr>"

definition sample_images :: Images where
  "sample_images = \<lparr>reqlog = [], im_fixedImages = [noFixedImage\<lparr>fi_Image := ''a'', fi_ResultImage := ''reg/a:1''\<rparr>,
     noFixedImage\<lparr>fi_Image := ''a'', fi_ResultImage := ''reg/a:2''\<rparr>], im_seenImages = []\<rparr>"

lemma sample_pod_fields:
  "GetNestedField ks sample_pod = Inr (Some (VStr v)) \<longleftrightarrow>
     ks = [KStr ''apiVersion''] \<and> v = ''v1'' \<or> ks = [KStr ''kind''] \<and> v = ''Pod'' \<or> ks = [KStr ''image''] \<and> v = sample_field"
proof -
  have wf: "wf_val (VMap sample_pod)" by (simp add: sample_pod_def)
  have l: "leafsOf [] (VMap sample_pod) =
      [([KStr ''apiVersion''], VStr ''v1''), ([KStr ''kind''], VStr ''Pod''), ([KStr ''image''], VStr sample_field)]" by (simp add: sample_pod_def)
  have "GetNestedField ks sample_pod = Inr (Some (VStr v)) \<longleftrightarrow> (ks, VStr v) \<in> set (leafsOf [] (VMap sample_pod))"
    unfolding leafsOf_iff [OF wf] by (simp add: GetNestedField_def is_leaf_def)
  then show ?thesis unfolding l by simp
qed

lemma sample_marks: "Index ''v1'' beginPlaceholder = - 1" "Index ''Pod'' beginPlaceholder = - 1" "Index ''-debug'' beginPlaceholder = - 1"
    "Index sample_field endPlaceholder = 33" "length beginPlaceholder = 21"
  by code_simp+

lemma sample_decodes: "DecodeString ''aW1hZ2U6IGE='' = Inr ''image: a''"
  by (simp add: DecodeString_def b64Digit_def b64Bytes_def) (simp add: char_of_def bit_0)

lemma sample_starts: "startsWithPlaceholder sample_images_lib sample_field ''a'' ''-debug''"
  unfolding startsWithPlaceholder_def using sample_marks sample_decodes
  by (intro exI [of _ "''aW1hZ2U6IGE=''"] exI [of _ "''image: a''"] exI [of _ False]) (simp add: sample_field_def sample_images_lib_def)

lemma sample_starts_only: "startsWithPlaceholder sample_images_lib v i r \<Longrightarrow> i = ''a'' \<and> Index v beginPlaceholder = 0"
  by (auto simp: startsWithPlaceholder_def sample_images_lib_def Index_0 split: if_splits)


end
