(* ===== verification/File_Paths.thy ===== *)
theory File_Paths
  imports Go_Strings
begin

text \<open>
  Paths of files on a Unix system: the functions of Go's \<^verbatim>\<open>path/filepath\<close> the program uses, the checks that a path
  stays inside a directory (\<^verbatim>\<open>pkg/utils/fs.go\<close>) and the choice between the extensions of YAML files
  (\<^verbatim>\<open>pkg/yaml/yaml.go\<close>). What exists in the file system is the parameter record \<open>file_system\<close>.
\<close>

section \<open>filepath\<close>

definition slash :: char where
  "slash = CHR ''/''"

definition rooted :: "string \<Rightarrow> bool" where
  "rooted p = HasPrefix p ''/''"

text \<open>One element of a path after another is taken; the result is the list of elements kept so far.\<close>

definition cleanStep :: "bool \<Rightarrow> string list \<Rightarrow> string \<Rightarrow> string list" where
  "cleanStep r out c =
     (if c = [] \<or> c = ''.'' then out
      else if c = ''..'' then
        (if out \<noteq> [] \<and> last out \<noteq> ''..'' then butlast out else if r then out else out @ [''..''])
      else out @ [c])"

definition components :: "string \<Rightarrow> string list" where
  "components p = foldl (cleanStep (rooted p)) [] (SplitChar p slash)"

definition pathOf :: "bool \<Rightarrow> string list \<Rightarrow> string" where
  "pathOf r cs = (if r then ''/'' @ Join cs ''/'' else if cs = [] then ''.'' else Join cs ''/'')"

definition Clean :: "string \<Rightarrow> string" where
  "Clean p = pathOf (rooted p) (components p)"

definition PathJoin :: "string list \<Rightarrow> string" where
  "PathJoin elems = (let es = dropWhile (\<lambda>e. e = []) elems in if es = [] then [] else Clean (Join es ''/''))"

definition Base :: "string \<Rightarrow> string" where
  "Base p =
     (if p = [] then ''.''
      else let s = rev (dropWhile (\<lambda>c. c = slash) (rev p)) in
        if s = [] then ''/'' else rev (takeWhile (\<lambda>c. c \<noteq> slash) (rev s)))"

definition Dir :: "string \<Rightarrow> string" where
  "Dir p = Clean (rev (dropWhile (\<lambda>c. c \<noteq> slash) (rev p)))"

definition relElems :: "string \<Rightarrow> string list" where
  "relElems p = (if p = [] then [] else if p = ''/'' then [[]] else SplitChar p slash)"

fun dropCommon :: "string list \<Rightarrow> string list \<Rightarrow> string list \<times> string list" where
  "dropCommon (b # bs) (t # ts) = (if b = t then dropCommon bs ts else (b # bs, t # ts))"
| "dropCommon bs ts = (bs, ts)"

definition Rel :: "string \<Rightarrow> string \<Rightarrow> string res" where
  "Rel basepath targpath =
     (let base = Clean basepath; targ = Clean targpath in
      if targ = base then Inr ''.''
      else let base = (if base = ''.'' then [] else base) in
        if rooted base \<noteq> rooted targ then Inl (Error (''Rel: can not make '' @ targpath @ '' relative to '' @ basepath))
        else let (bs, ts) = dropCommon (relElems base) (relElems targ) in
          if bs \<noteq> [] \<and> hd bs = ''..'' then Inl (Error (''Rel: can not make '' @ targpath @ '' relative to '' @ basepath))
          else Inr (Join (replicate (length bs) ''..'' @ ts) ''/''))"

section \<open>The file system\<close>

record file_system =
  fs_Exists :: "string \<Rightarrow> bool"
  fs_IsDirectory :: "string \<Rightarrow> bool"
  fs_IsFile :: "string \<Rightarrow> bool"
  fs_Cwd :: string

definition Abs :: "file_system \<Rightarrow> string \<Rightarrow> string" where
  "Abs fs p = (if rooted p then Clean p else PathJoin [fs_Cwd fs, p])"

text \<open>\<open>None\<close> means that there is no error.\<close>

definition CheckInDir :: "file_system \<Rightarrow> string \<Rightarrow> string \<Rightarrow> go_error option" where
  "CheckInDir fs rootDir path =
     (let absRoot = Abs fs (Clean rootDir); absPath = Abs fs (Clean path) in
      if absRoot = absPath then None
      else if \<not> HasPrefix absPath (absRoot @ ''/'') then Some (Error (''path '' @ path @ '' is not inside directory '' @ rootDir))
      else None)"

definition CheckSubInDir :: "file_system \<Rightarrow> string \<Rightarrow> string \<Rightarrow> go_error option" where
  "CheckSubInDir fs rootDir subDir = CheckInDir fs rootDir (PathJoin [rootDir, subDir])"

definition FixPathExt :: "file_system \<Rightarrow> string \<Rightarrow> string" where
  "FixPathExt fs p =
     (if fs_Exists fs p then p
      else if HasSuffix p ''.yml'' then
        (let p2 = take (length p - 4) p @ ''.yaml'' in if fs_Exists fs p2 then p2 else p)
      else if HasSuffix p ''.yaml'' then
        (let p2 = take (length p - 5) p @ ''.yml'' in if fs_Exists fs p2 then p2 else p)
      else p)"

definition FixNameExt :: "file_system \<Rightarrow> string \<Rightarrow> string \<Rightarrow> string" where
  "FixNameExt fs dir name = Base (FixPathExt fs (PathJoin [dir, name]))"

definition YamlExists :: "file_system \<Rightarrow> string \<Rightarrow> bool" where
  "YamlExists fs p = fs_Exists fs (FixPathExt fs p)"

section \<open>Clean paths\<close>

text \<open>Elements of a clean path: no separators, no empty elements and dots; \<^verbatim>\<open>..\<close> only at the start of a relative path.\<close>

definition plainElem :: "string \<Rightarrow> bool" where
  "plainElem c \<longleftrightarrow> c \<noteq> [] \<and> c \<noteq> ''.'' \<and> c \<noteq> ''..'' \<and> slash \<notin> set c"

definition cleanElems :: "bool \<Rightarrow> string list \<Rightarrow> bool" where
  "cleanElems r cs \<longleftrightarrow> (\<exists>n qs. cs = replicate n ''..'' @ qs \<and> list_all plainElem qs \<and> (r \<longrightarrow> n = 0))"

lemma cleanElems_Nil: "cleanElems r []"
  unfolding cleanElems_def by (rule exI [of _ 0]) simp

lemma cleanElems_snoc:
  assumes "cleanElems r cs" and "slash \<notin> set c"
  shows "cleanElems r (cleanStep r cs c)"
proof -
  obtain n qs where cs: "cs = replicate n ''..'' @ qs" "list_all plainElem qs" "r \<longrightarrow> n = 0"
    using assms(1) by (auto simp: cleanElems_def)
  consider "c = [] \<or> c = ''.''" | "c = ''..''" "qs \<noteq> []" | "c = ''..''" "qs = []" | "plainElem c"
    using assms(2) by (auto simp: plainElem_def)
  then show ?thesis
  proof cases
    case 1
    then show ?thesis using assms(1) by (simp add: cleanStep_def)
  next
    case 2
    then have "last qs \<noteq> ''..''" using cs(2) by (metis last_in_set list_all_iff plainElem_def)
    moreover have "list_all plainElem (butlast qs)" using cs(2) by (auto simp: list_all_iff dest: in_set_butlastD)
    ultimately show ?thesis using 2 cs
      unfolding cleanStep_def cleanElems_def by (intro exI [of _ n] exI [of _ "butlast qs"]) (simp add: butlast_append)
  next
    case 3
    have l: "last (replicate n ''..'') = ''..''" if "n \<noteq> 0" using that by (cases n) (simp_all add: replicate_append_same [symmetric] del: replicate_Suc)
    show ?thesis
    proof (cases r)
      case True
      then show ?thesis using 3 cs by (simp add: cleanStep_def cleanElems_Nil)
    next
      case False
      then have "cleanStep r cs c = replicate (Suc n) ''..'' @ []" using 3 cs l by (auto simp: cleanStep_def replicate_append_same)
      then show ?thesis using False unfolding cleanElems_def by (intro exI [of _ "Suc n"] exI [of _ "[]"]) simp
    qed
  next
    case 4
    then have "cleanStep r cs c = replicate n ''..'' @ qs @ [c]" using cs(1) by (simp add: cleanStep_def plainElem_def)
    then show ?thesis using 4 cs unfolding cleanElems_def by (intro exI [of _ n] exI [of _ "qs @ [c]"]) simp
  qed
qed

lemma cleanElems_foldl:
  assumes "cleanElems r cs" and "\<forall>c \<in> set xs. slash \<notin> set c"
  shows "cleanElems r (foldl (cleanStep r) cs xs)"
  using assms by (induction xs arbitrary: cs) (simp_all add: cleanElems_snoc)

lemma cleanElems_components: "cleanElems (rooted p) (components p)"
  unfolding components_def using SplitChar_no_sep by (intro cleanElems_foldl cleanElems_Nil) blast

text \<open>Cleaning does not change a clean list of elements.\<close>

lemma foldl_plain: "list_all plainElem qs \<Longrightarrow> foldl (cleanStep r) cs qs = cs @ qs"
  by (induction qs arbitrary: cs) (auto simp: cleanStep_def plainElem_def)

lemma foldl_dots: "foldl (cleanStep False) (replicate m ''..'') (replicate n ''..'') = replicate (m + n) ''..''"
proof (induction n arbitrary: m)
  case (Suc n)
  have "last (replicate m ''..'') = ''..''" if "m \<noteq> 0" using that by (cases m) (simp_all add: replicate_append_same [symmetric] del: replicate_Suc)
  then have "cleanStep False (replicate m ''..'') ''..'' = replicate (Suc m) ''..''" by (auto simp: cleanStep_def replicate_append_same)
  then show ?case using Suc.IH [of "Suc m"] by simp
qed simp

lemma foldl_cleanElems:
  assumes "cleanElems r cs"
  shows "foldl (cleanStep r) [] cs = cs"
proof -
  obtain n qs where cs: "cs = replicate n ''..'' @ qs" "list_all plainElem qs" "r \<longrightarrow> n = 0"
    using assms by (auto simp: cleanElems_def)
  have "foldl (cleanStep r) [] (replicate n ''..'') = replicate n ''..''"
    using cs(3) foldl_dots [of 0 n] by (cases r) auto
  then show ?thesis using cs(1,2) by (simp add: foldl_plain)
qed

lemma SplitChar_append: "c \<notin> set a \<Longrightarrow> SplitChar (a @ c # s) c = a # SplitChar s c"
  by (induction a) auto

lemma SplitChar_none: "c \<notin> set a \<Longrightarrow> SplitChar a c = [a]"
  by (induction a) auto

lemma SplitChar_Join: "cs \<noteq> [] \<Longrightarrow> \<forall>x \<in> set cs. c \<notin> set x \<Longrightarrow> SplitChar (Join cs [c]) c = cs"
proof (induction cs)
  case (Cons x cs)
  then show ?case by (cases cs) (simp_all add: SplitChar_none SplitChar_append)
qed simp

lemma cleanElems_no_slash: "cleanElems r cs \<Longrightarrow> \<forall>x \<in> set cs. slash \<notin> set x"
  unfolding cleanElems_def list_all_iff by (elim exE conjE) (simp add: ball_Un plainElem_def slash_def set_replicate_conv_if)

lemma cleanElems_nonempty: "cleanElems r cs \<Longrightarrow> \<forall>x \<in> set cs. x \<noteq> []"
  unfolding cleanElems_def list_all_iff by (elim exE conjE) (simp add: ball_Un plainElem_def set_replicate_conv_if)

lemma rooted_Join: "cleanElems r cs \<Longrightarrow> cs \<noteq> [] \<Longrightarrow> \<not> rooted (Join cs ''/'')"
proof -
  assume a: "cleanElems r cs" "cs \<noteq> []"
  then obtain c x cs' where cs: "cs = (c # x) # cs'" using cleanElems_nonempty by (metis list.exhaust list.set_intros(1))
  then have "c \<noteq> slash" using cleanElems_no_slash [OF a(1)] by auto
  then show ?thesis using cs by (cases cs') (auto simp: rooted_def HasPrefix_def slash_def)
qed

lemma rooted_pathOf: "cleanElems r cs \<Longrightarrow> rooted (pathOf r cs) = r"
  using rooted_Join [of r cs] by (auto simp: pathOf_def rooted_def HasPrefix_def)

lemma components_pathOf:
  assumes "cleanElems r cs"
  shows "components (pathOf r cs) = cs"
proof -
  note r = rooted_pathOf [OF assms]
  have j: "SplitChar (Join cs ''/'') slash = cs" if "cs \<noteq> []"
    using SplitChar_Join [OF that, of slash] cleanElems_no_slash [OF assms] by (simp add: slash_def)
  have "foldl (cleanStep r) [] (SplitChar (pathOf r cs) slash) = foldl (cleanStep r) [] cs"
  proof (cases "cs = []")
    case True
    then show ?thesis by (simp add: pathOf_def slash_def cleanStep_def)
  next
    case False
    then show ?thesis using j by (simp add: pathOf_def) (simp add: slash_def cleanStep_def)
  qed
  then show ?thesis unfolding components_def r using foldl_cleanElems [OF assms] by simp
qed

lemma Clean_idem: "Clean (Clean p) = Clean p"
  by (simp add: Clean_def rooted_pathOf components_pathOf cleanElems_components)

lemma Join_inj:
  assumes "\<forall>x \<in> set cs. slash \<notin> set x \<and> x \<noteq> []" and "\<forall>x \<in> set ds. slash \<notin> set x \<and> x \<noteq> []" and "Join cs ''/'' = Join ds ''/''"
  shows "cs = ds"
proof -
  have s: "xs = [] \<or> SplitChar (Join xs ''/'') slash = xs" if "\<forall>x \<in> set xs. slash \<notin> set x \<and> x \<noteq> []" for xs
    using SplitChar_Join [of xs slash] that by (auto simp: slash_def)
  have n: "Join xs ''/'' = [] \<longleftrightarrow> xs = []" if "\<forall>x \<in> set xs. slash \<notin> set x \<and> x \<noteq> []" for xs
    using that by (cases "(xs, ''/'')" rule: Join.cases) auto
  show ?thesis using s [OF assms(1)] s [OF assms(2)] n [OF assms(1)] n [OF assms(2)] assms(3) by metis
qed

section \<open>Inside a directory\<close>

lemma Join_append: "cs \<noteq> [] \<Longrightarrow> es \<noteq> [] \<Longrightarrow> Join (cs @ es) sep = Join cs sep @ sep @ Join es sep"
proof (induction cs)
  case (Cons x cs)
  then show ?case by (cases "cs = []") (simp_all add: Join_Cons)
qed simp

lemma SplitChar_Join_append:
  assumes "cs \<noteq> []" and "\<forall>x \<in> set cs. slash \<notin> set x"
  shows "SplitChar (Join cs ''/'' @ slash # rest) slash = cs @ SplitChar rest slash"
  using assms
proof (induction cs)
  case (Cons x cs)
  show ?case
  proof (cases "cs = []")
    case True
    then show ?thesis using Cons.prems by (simp add: SplitChar_append)
  next
    case False
    then have "Join (x # cs) ''/'' @ slash # rest = x @ slash # Join cs ''/'' @ slash # rest" by (simp add: Join_Cons slash_def)
    then show ?thesis using Cons False SplitChar_append [of slash x] by simp
  qed
qed simp

lemma prefix_paths:
  assumes "cleanElems True cs" and "cleanElems True ds" and "cs \<noteq> []"
  shows "HasPrefix (pathOf True ds) (pathOf True cs @ ''/'') \<longleftrightarrow> (\<exists>es. es \<noteq> [] \<and> ds = cs @ es)"
proof
  assume "HasPrefix (pathOf True ds) (pathOf True cs @ ''/'')"
  then obtain rest where r: "Join ds ''/'' = Join cs ''/'' @ slash # rest"
    by (auto simp: HasPrefix_iff prefix_def pathOf_def slash_def)
  then have "ds \<noteq> []" by auto
  then have "ds = cs @ SplitChar rest slash"
    using SplitChar_Join [of ds slash] SplitChar_Join_append [OF assms(3)] r cleanElems_no_slash [OF assms(1)] cleanElems_no_slash [OF assms(2)]
    by (simp add: slash_def)
  then show "\<exists>es. es \<noteq> [] \<and> ds = cs @ es" using SplitChar_nonempty by blast
next
  assume "\<exists>es. es \<noteq> [] \<and> ds = cs @ es"
  then show "HasPrefix (pathOf True ds) (pathOf True cs @ ''/'')"
    using assms(3) by (auto simp: HasPrefix_iff prefix_def pathOf_def Join_append)
qed

lemma rooted_Clean [simp]: "rooted (Clean p) = rooted p"
  by (simp add: Clean_def rooted_pathOf cleanElems_components)

lemma components_Clean [simp]: "components (Clean p) = components p"
  by (simp add: Clean_def components_pathOf cleanElems_components)

lemma Abs_rooted:
  assumes "rooted (fs_Cwd fs)"
  shows "\<exists>q. rooted q \<and> Abs fs p = Clean q"
proof (cases "rooted p")
  case True
  then show ?thesis by (auto simp: Abs_def)
next
  case False
  have "fs_Cwd fs \<noteq> []" using assms by (auto simp: rooted_def HasPrefix_def)
  moreover have "rooted (fs_Cwd fs @ s)" for s using assms by (cases "fs_Cwd fs") (auto simp: rooted_def HasPrefix_def)
  ultimately show ?thesis using False by (intro exI [of _ "fs_Cwd fs @ ''/'' @ p"]) (simp add: Abs_def PathJoin_def)
qed

lemma Abs_elems:
  assumes "rooted (fs_Cwd fs)"
  shows "cleanElems True (components (Abs fs p)) \<and> Abs fs p = pathOf True (components (Abs fs p))"
proof -
  obtain q where q: "rooted q" "Abs fs p = Clean q" using Abs_rooted [OF assms] by blast
  then show ?thesis using cleanElems_components [of q] by (simp add: Clean_def components_pathOf)
qed

text \<open>
  C29: The check that a path is inside a directory is exact: for any directory but the root of the file system it
  passes exactly when the elements of the absolute path start with the elements of the absolute directory. Both lists
  are free of dot elements, so that a path with \<^verbatim>\<open>..\<close> or one that only shares a prefix of a name does not pass.
\<close>

theorem CheckInDir_iff:
  assumes "rooted (fs_Cwd fs)" and "Abs fs (Clean rootDir) \<noteq> ''/''"
  shows "(CheckInDir fs rootDir path = None \<longleftrightarrow> prefix (components (Abs fs (Clean rootDir))) (components (Abs fs (Clean path)))) \<and>
    list_all plainElem (components (Abs fs (Clean path)))"
proof -
  let ?cs = "components (Abs fs (Clean rootDir))" and ?ds = "components (Abs fs (Clean path))"
  have cs: "cleanElems True ?cs" "Abs fs (Clean rootDir) = pathOf True ?cs" using Abs_elems [OF assms(1)] by blast+
  have ds: "cleanElems True ?ds" "Abs fs (Clean path) = pathOf True ?ds" using Abs_elems [OF assms(1)] by blast+
  have ne: "?cs \<noteq> []" using assms(2) cs(2) by (auto simp: pathOf_def)
  have same: "Abs fs (Clean rootDir) = Abs fs (Clean path) \<longleftrightarrow> ?cs = ?ds" using cs(2) ds(2) by metis
  have "HasPrefix (Abs fs (Clean path)) (Abs fs (Clean rootDir) @ ''/'') \<longleftrightarrow> (\<exists>es. es \<noteq> [] \<and> ?ds = ?cs @ es)"
    using prefix_paths [OF cs(1) ds(1) ne] cs(2) ds(2) by simp
  then have "CheckInDir fs rootDir path = None \<longleftrightarrow> ?cs = ?ds \<or> (\<exists>es. es \<noteq> [] \<and> ?ds = ?cs @ es)"
    using same by (auto simp: CheckInDir_def Let_def)
  also have "\<dots> \<longleftrightarrow> prefix ?cs ?ds" by (auto simp: prefix_def)
  finally show ?thesis using ds(1) by (auto simp: cleanElems_def)
qed

definition sample_fs :: file_system where
  "sample_fs = \<lparr>fs_Exists = (\<lambda>_. True), fs_IsDirectory = (\<lambda>_. True), fs_IsFile = (\<lambda>_. True), fs_Cwd = ''/home/me''\<rparr>"

theorem CheckInDir_iff_witness:
  "CheckInDir sample_fs ''proj'' ''proj/a/../b'' = None \<and> CheckInDir sample_fs ''proj'' ''project'' \<noteq> None"
proof -
  have 1: "rooted (fs_Cwd sample_fs)" "Abs sample_fs (Clean ''proj'') \<noteq> ''/''" by code_simp+
  have "components (Abs sample_fs (Clean ''proj'')) = [''home'', ''me'', ''proj'']"
    "components (Abs sample_fs (Clean ''proj/a/../b'')) = [''home'', ''me'', ''proj'', ''b'']"
    "components (Abs sample_fs (Clean ''project'')) = [''home'', ''me'', ''project'']" by code_simp+
  then show ?thesis using CheckInDir_iff [OF 1] by simp
qed

text \<open>With the root of the file system as the directory nothing passes but the root itself.\<close>

lemma CheckInDir_root_example: "CheckInDir sample_fs ''/'' ''/home'' \<noteq> None"
  by code_simp

end
