(* ===== verification/Vars.thy ===== *)
theory Vars
  imports Deployment_Types K8s_Cluster Go_Base64
begin

text \<open>
  Variables (\<^verbatim>\<open>pkg/vars\<close>, \<^verbatim>\<open>pkg/kluctl_jinja2\<close>, \<^verbatim>\<open>pkg/deployment/external_args.go\<close>): the variables of a context
  and how they are updated, conditions, the loader with all its sources, and the arguments of a deployment. The
  template engine, YAML, SOPS, git clones, environment variables and the remote services are functions of the
  parameter record \<open>vars_env\<close>; the cluster is the one of \<open>K8s_Cluster\<close>. An error is thrown as \<open>Error\<close>. Deprecation
  messages are not modelled.
\<close>

section \<open>Parameters and state\<close>

text \<open>
  \<open>http_resp\<close> is what \<^verbatim>\<open>client.Do\<close> and reading the body give: an error of the transport, or status, body and the
  realms of the authentication challenges (\<open>None\<close> where a challenge has none).
\<close>

record http_resp =
  hr_Err :: "string option"
  hr_Status :: int
  hr_Body :: string
  hr_Challenges :: "string option list"

text \<open>
  \<open>ve_Aws\<close> is \<open>None\<close> without a client factory; a failed request says whether the secret does not exist. \<open>ve_ReadObject\<close>
  reads YAML into an object, \<open>ve_ReadAny\<close> into any value. \<open>ve_GetEntry\<close> and
  \<open>ve_GetClonedDir\<close> are the git cache. \<open>ve_Http\<close> takes the user and the password.
\<close>

record vars_env =
  ve_ToMap :: "uo \<Rightarrow> uo res"
  ve_RenderString :: "uo \<Rightarrow> string list \<Rightarrow> string \<Rightarrow> string res"
  ve_RenderFile :: "uo \<Rightarrow> string list \<Rightarrow> string \<Rightarrow> string res"
  ve_RenderSource :: "uo \<Rightarrow> VarsSource \<Rightarrow> VarsSource res"
  ve_RenderStrings :: "uo \<Rightarrow> string list \<Rightarrow> string res list res"
  ve_ReadObject :: "string \<Rightarrow> uo res"
  ve_ReadAny :: "string \<Rightarrow> val res"
  ve_Decrypt :: "string \<Rightarrow> string \<Rightarrow> string res"
  ve_LookupEnv :: "string \<Rightarrow> string option"
  ve_GetEntry :: "GitUrl \<Rightarrow> unit res"
  ve_GetClonedDir :: "GitUrl \<Rightarrow> GitRef option \<Rightarrow> string res"
  ve_Aws :: "(VarsSourceAwsSecretsManager \<Rightarrow> (string \<times> bool) + string) option"
  ve_Vault :: "VarsSourceVault \<Rightarrow> string option res"
  ve_Http :: "VarsSourceHttp \<Rightarrow> string \<Rightarrow> string \<Rightarrow> http_resp"
  ve_HttpHost :: "VarsSourceHttp \<Rightarrow> string"
  ve_AskForCredentials :: "string \<Rightarrow> (string \<times> string) res"
  ve_GetFirstFromAny :: "string \<Rightarrow> val \<Rightarrow> val option"
  ve_FmtLabels :: "(string, string) gomap \<Rightarrow> string"
  ve_k :: "K8sCluster option"
  ve_L :: k8s_lib
  ve_jp :: jp_lib

record VarsLoader = kstate +
  vl_credentialsCache :: "(string, string \<times> string) gomap"

type_synonym ('x, 'a) veff = "('x VarsLoader_scheme, 'a) eff"

section \<open>Conditions\<close>

definition IsConditionalTrue :: "string \<Rightarrow> bool" where
  "IsConditionalTrue c \<longleftrightarrow> c = [] \<or> c = ''True''"

definition buildConditionalTemplate :: "string \<Rightarrow> string" where
  "buildConditionalTemplate c =
     (if c = [] then [] else ''{% if '' @ c @ '' %} True {% else %} False {% endif %}'')"

text \<open>The errors of all conditions are collected; the first one is kept here.\<close>

definition conditionalResult :: "string \<Rightarrow> string res \<Rightarrow> string res" where
  "conditionalResult c r =
     (case r of
        Inl (Error e) \<Rightarrow> Inl (Error (''unable to render conditional '' @ quoted c @ '': '' @ e))
      | Inl e \<Rightarrow> Inl e
      | Inr s \<Rightarrow>
          let r = TrimSpace s in
          if r \<noteq> [] \<and> r \<noteq> ''True'' \<and> r \<noteq> ''False'' then Inl (Error (''unable to evaluate conditional: '' @ c)) else Inr r)"

definition RenderConditionals :: "vars_env \<Rightarrow> uo \<Rightarrow> string list \<Rightarrow> string list res" where
  "RenderConditionals V vars conditionals =
     bindE (ve_RenderStrings V vars (map buildConditionalTemplate conditionals)) (\<lambda>rs.
       mapE (\<lambda>(c, r). conditionalResult c r) (zip conditionals rs))"

definition RenderConditional :: "vars_env \<Rightarrow> uo \<Rightarrow> string \<Rightarrow> string res" where
  "RenderConditional V vars c =
     bindE (RenderConditionals V vars [c]) (\<lambda>rs. case rs of r # _ \<Rightarrow> Inr r | [] \<Rightarrow> Inl (Panic ''index out of range''))"

definition CheckConditional :: "vars_env \<Rightarrow> uo \<Rightarrow> string \<Rightarrow> bool res" where
  "CheckConditional V vars c =
     (if IsConditionalTrue c then Inr True
      else bindE (ve_ToMap V vars) (\<lambda>m. bindE (RenderConditional V m c) (\<lambda>r. Inr (IsConditionalTrue r))))"

section \<open>Contexts\<close>

definition UpdateChild :: "string \<Rightarrow> uo \<Rightarrow> uo \<Rightarrow> uo" where
  "UpdateChild child other vars = MergeChild child other vars"

definition RenderString :: "vars_env \<Rightarrow> uo \<Rightarrow> string \<Rightarrow> string list \<Rightarrow> string res" where
  "RenderString V vars t searchDirs = bindE (ve_ToMap V vars) (\<lambda>globals. ve_RenderString V globals searchDirs t)"

definition RenderStruct :: "vars_env \<Rightarrow> (uo \<Rightarrow> 'o \<Rightarrow> 'o res) \<Rightarrow> uo \<Rightarrow> 'o \<Rightarrow> 'o res" where
  "RenderStruct V render vars ob = bindE (ve_ToMap V vars) (\<lambda>globals. render globals ob)"

definition RenderFile :: "vars_env \<Rightarrow> uo \<Rightarrow> string \<Rightarrow> string list \<Rightarrow> string res" where
  "RenderFile V vars p searchDirs = bindE (ve_ToMap V vars) (\<lambda>globals. ve_RenderFile V globals searchDirs p)"

text \<open>\<open>read\<close> reads the rendered YAML into the structure that is asked for.\<close>

definition RenderYamlFile :: "vars_env \<Rightarrow> (string \<Rightarrow> 'o res) \<Rightarrow> uo \<Rightarrow> string \<Rightarrow> string list \<Rightarrow> 'o res" where
  "RenderYamlFile V read vars p searchDirs = bindE (RenderFile V vars p searchDirs) read"

section \<open>Sources\<close>

definition renderYamlString :: "vars_env \<Rightarrow> uo \<Rightarrow> string \<Rightarrow> val res" where
  "renderYamlString V vars s = bindE (RenderString V vars s []) (ve_ReadAny V)"

definition loadFromString :: "vars_env \<Rightarrow> uo \<Rightarrow> string \<Rightarrow> uo res" where
  "loadFromString V vars s = bindE (RenderString V vars s []) (ve_ReadObject V)"

definition loadFile :: "vars_env \<Rightarrow> uo \<Rightarrow> string \<Rightarrow> bool \<Rightarrow> string list \<Rightarrow> uo res" where
  "loadFile V vars path ignoreMissing searchDirs =
     (case RenderFile V vars path searchDirs of
        Inl (Error e) \<Rightarrow>
          if ignoreMissing \<and> e = ''template '' @ path @ '' not found'' then Inr New
          else Inl (Error (''failed to render vars file '' @ path @ '': '' @ e))
      | Inl e \<Rightarrow> Inl e
      | Inr rendered \<Rightarrow>
          (case ve_Decrypt V path rendered of
             Inl (Error e) \<Rightarrow> Inl (Error (''failed to decrypt vars file '' @ path @ '': '' @ e))
           | Inl e \<Rightarrow> Inl e
           | Inr decrypted \<Rightarrow> ve_ReadObject V decrypted))"

text \<open>The value of an environment variable: its name may carry a default after a colon.\<close>

definition envValueStr :: "vars_env \<Rightarrow> string \<Rightarrow> string \<times> string option" where
  "envValueStr V s =
     (let hasDefault = CHR '':'' \<in> set s;
          parts = SplitN s (CHR '':'') 2;
          envName = (if hasDefault then parts ! 0 else s)
      in (envName,
          case ve_LookupEnv V envName of
            Some v \<Rightarrow> Some v
          | None \<Rightarrow>
              if hasDefault then Some (if parts ! 1 = [] then [CHR 0x22, CHR 0x22] else parts ! 1)
              else None))"

definition loadEnvLeaf :: "vars_env \<Rightarrow> bool \<Rightarrow> uo callback" where
  "loadEnvLeaf V ignoreMissing ks v newVars =
     (case v of
        VStr s \<Rightarrow>
          (case envValueStr V s of
             (envName, None) \<Rightarrow>
               if ignoreMissing then (v, newVars, None)
               else (v, newVars, Some (Error (''environment variable '' @ envName @ '' not found for '' @ ToJsonPath ks)))
           | (_, Some str) \<Rightarrow>
               (case ve_ReadAny V str of
                  Inl (Error e) \<Rightarrow> (v, newVars, Some (Error (''failed to parse env value '' @ quoted str @ '': '' @ e)))
                | Inl e \<Rightarrow> (v, newVars, Some e)
                | Inr envValue \<Rightarrow>
                    (case SetNestedField envValue ks newVars of
                       (nv, Some (Error e)) \<Rightarrow> (v, nv, Some (Error (''failed to set value for '' @ ToJsonPath ks @ '': '' @ e)))
                     | (nv, e) \<Rightarrow> (v, nv, e))))
      | _ \<Rightarrow> (v, newVars, Some (Error (''value at '' @ ToJsonPath ks @ '' is not a string''))))"

definition underRootKey :: "string \<Rightarrow> uo \<Rightarrow> uo" where
  "underRootKey rootKey ob = (if rootKey \<noteq> [] then FromMap [(rootKey, VMap ob)] else ob)"

definition loadSystemEnvs :: "vars_env \<Rightarrow> uo \<Rightarrow> bool \<Rightarrow> string \<Rightarrow> uo res" where
  "loadSystemEnvs V systemEnvVars ignoreMissing rootKey =
     (case IterateLeafs (loadEnvLeaf V ignoreMissing) systemEnvVars New of
        (_, newVars, None) \<Rightarrow> Inr (underRootKey rootKey newVars)
      | (_, _, Some e) \<Rightarrow> Inl e)"

definition loadAwsSecretsManager :: "vars_env \<Rightarrow> uo \<Rightarrow> VarsSourceAwsSecretsManager \<Rightarrow> bool \<Rightarrow> uo res" where
  "loadAwsSecretsManager V vars source ignoreMissing =
     (case ve_Aws V of
        None \<Rightarrow> Inl (Error ''no AWS client factory provided'')
      | Some getSecret \<Rightarrow>
          (case getSecret source of
             Inl (e, notFound) \<Rightarrow> if notFound \<and> ignoreMissing then Inr New else Inl (Error e)
           | Inr secret \<Rightarrow> loadFromString V vars secret))"

definition loadVault :: "vars_env \<Rightarrow> uo \<Rightarrow> VarsSourceVault \<Rightarrow> bool \<Rightarrow> uo res" where
  "loadVault V vars source ignoreMissing =
     bindE (ve_Vault V source) (\<lambda>secret.
     case secret of
       None \<Rightarrow> if ignoreMissing then Inr New else Inl (Error ''the specified vault secret was not found'')
     | Some s \<Rightarrow> loadFromString V vars s)"

definition loadGit :: "vars_env \<Rightarrow> uo \<Rightarrow> VarsSourceGit \<Rightarrow> bool \<Rightarrow> uo res" where
  "loadGit V vars gitFile ignoreMissing =
     bindE (ve_GetEntry V (vg_Url gitFile)) (\<lambda>_.
     case ve_GetClonedDir V (vg_Url gitFile) (vg_Ref gitFile) of
        Inl (Error e) \<Rightarrow> Inl (Error (''failed to load vars from git repository: '' @ e))
      | Inl e \<Rightarrow> Inl e
      | Inr clonedDir \<Rightarrow> loadFile V vars (vg_Path gitFile) ignoreMissing [clonedDir])"

text \<open>What \<^verbatim>\<open>doHttp\<close> returns: the status where there is a response, the body, and an error.\<close>

definition doHttp :: "vars_env \<Rightarrow> VarsSourceHttp \<Rightarrow> string \<Rightarrow> string \<Rightarrow> http_resp option \<times> string \<times> string option" where
  "doHttp V httpSource username password =
     (let resp = ve_Http V httpSource username password in
      case hr_Err resp of
        Some e \<Rightarrow> (None, [], Some e)
      | None \<Rightarrow>
          if hr_Status resp < 200 \<or> hr_Status resp \<ge> 300 then
            (Some resp, hr_Body resp, Some (''http request to '' @ vh_Url httpSource @ '' failed with status code '' @ show_int (hr_Status resp)))
          else (Some resp, hr_Body resp, None))"

definition parseHttpBody :: "vars_env \<Rightarrow> VarsSourceHttp \<Rightarrow> string \<Rightarrow> uo res" where
  "parseHttpBody V http respBody =
     bindE (ve_ReadAny V respBody) (\<lambda>respObj.
     case vh_JsonPath http of
       Some jsonPath \<Rightarrow>
         bindE (NewMyJsonPath (ve_jp V) jsonPath) (\<lambda>p.
         case ve_GetFirstFromAny V p respObj of
           None \<Rightarrow> Inl (Error (jsonPath @ '' not found in result from http request '' @ vh_Url http))
         | Some (VStr s) \<Rightarrow> ve_ReadObject V s
         | Some _ \<Rightarrow> Inl (Error (jsonPath @ '' in result of http request '' @ vh_Url http @ '' is not a string'')))
     | None \<Rightarrow>
         (case respObj of VMap m \<Rightarrow> Inr (FromMap m)
          | _ \<Rightarrow> Inl (Error (''result of http request '' @ vh_Url http @ '' is not an object''))))"

definition httpCredentials :: "vars_env \<Rightarrow> VarsSourceHttp \<Rightarrow> string option list \<Rightarrow> ('x, string \<times> string) veff" where
  "httpCredentials V http challenges =
     (let realms = filter (\<lambda>x. x \<noteq> []) (List.map_filter id challenges);
          credsKey = ve_HttpHost V http @ ''|'' @ Join realms ''+''
      in bindM (ask (\<lambda>s. map_of (vl_credentialsCache s) credsKey)) (\<lambda>known.
         case known of
           Some creds \<Rightarrow> ret creds
         | None \<Rightarrow>
             bindM (lift (ve_AskForCredentials V (''Please enter credentials for host '' @ quoted (ve_HttpHost V http)))) (\<lambda>creds.
             seqM (modify (\<lambda>s. s\<lparr>vl_credentialsCache := AList.update credsKey creds (vl_credentialsCache s)\<rparr>)) (ret creds))))"

definition loadHttp :: "vars_env \<Rightarrow> VarsSourceHttp \<Rightarrow> bool \<Rightarrow> ('x, uo) veff" where
  "loadHttp V http ignoreMissing =
     (case doHttp V http [] [] of
        (resp, respBody, None) \<Rightarrow> lift (parseHttpBody V http respBody)
      | (resp, respBody, Some e) \<Rightarrow>
          (case resp of
             None \<Rightarrow> throw (Error e)
           | Some r \<Rightarrow>
               if hr_Status r = 401 then
                 (if hr_Challenges r = [] then throw (Error e)
                  else bindM (httpCredentials V http (hr_Challenges r)) (\<lambda>(username, password).
                    case doHttp V http username password of
                      (_, _, Some e) \<Rightarrow> throw (Error e)
                    | (_, body, None) \<Rightarrow> lift (parseHttpBody V http body)))
               else if ignoreMissing \<and> hr_Status r = 404 then ret New
               else throw (Error e)))"

text \<open>The object of the cluster: \<open>None\<close> when it is missing and that is ignored.\<close>

definition findVarsObject :: "vars_env \<Rightarrow> K8sCluster \<Rightarrow> VarsSourceClusterConfigMapOrSecret \<Rightarrow> string \<Rightarrow> bool \<Rightarrow> ('x, uo option) veff" where
  "findVarsObject V k varsSource kind ignoreMissing =
     (if vc_Name varsSource \<noteq> [] then
        bindM (GetSingleObject k (NewObjectRef [] ''v1'' kind (vc_Name varsSource) (vc_Namespace varsSource))) (\<lambda>(ob, _, err).
        case err of
          Some e \<Rightarrow> if ignoreMissing \<and> IsNotFound e then ret None else throw (Error (err_Msg e))
        | None \<Rightarrow> ret ob)
      else
        bindM (ListObjects k ([], ''v1'', kind) (vc_Namespace varsSource) (vc_Labels varsSource)) (\<lambda>(objs, _, err).
        case err of
          Some e \<Rightarrow> throw (Error (err_Msg e))
        | None \<Rightarrow>
            (case objs of
               [] \<Rightarrow> if ignoreMissing then ret None
                     else throw (Error (''no object found with labels '' @ ve_FmtLabels V (vc_Labels varsSource)))
             | [ob] \<Rightarrow> ret (Some ob)
             | _ \<Rightarrow> throw (Error (''found more than one objects with labels '' @ ve_FmtLabels V (vc_Labels varsSource))))))"

definition wrapLoadError :: "ObjectRef \<Rightarrow> string \<Rightarrow> 'a res \<Rightarrow> 'a res" where
  "wrapLoadError ref key r =
     (case r of
        Inl (Error e) \<Rightarrow>
          Inl (Error (''failed to load vars from kubernetes object '' @ ObjectRef_String ref @ '' and key '' @ key @ '': '' @ e))
      | _ \<Rightarrow> r)"

text \<open>A value that is neither bytes nor a string counts as the empty string; values of type \<^verbatim>\<open>[]byte\<close> do not occur.\<close>

definition varsOfObject :: "vars_env \<Rightarrow> uo \<Rightarrow> VarsSourceClusterConfigMapOrSecret \<Rightarrow> bool \<Rightarrow> uo \<Rightarrow> uo res" where
  "varsOfObject V vars varsSource base64Decode ob =
     bindE (GetK8sRef (ve_L V) ob) (\<lambda>ref.
     bindE (GetNestedField [KStr ''data'', KStr (vc_Key varsSource)] ob) (\<lambda>f.
     case f of
       None \<Rightarrow> Inl (Error (''key '' @ vc_Key varsSource @ '' not found in '' @ ObjectRef_String ref @ '' on cluster''))
     | Some x \<Rightarrow>
         bindE (case x of VStr s \<Rightarrow> if base64Decode then DecodeString s else Inr s | _ \<Rightarrow> Inr []) (\<lambda>value.
         wrapLoadError ref (vc_Key varsSource)
           (bindE (renderYamlString V vars value) (\<lambda>parsed.
            if vc_TargetPath varsSource = [] then
              (case parsed of VMap m \<Rightarrow> Inr (FromMap m) | _ \<Rightarrow> Inl (Error ''value is not a YAML dictionary''))
            else
              bindE (NewMyJsonPath (ve_jp V) (vc_TargetPath varsSource)) (\<lambda>p.
              case jp_Set (ve_jp V) p parsed New of (_, Some e) \<Rightarrow> Inl e | (newVars, None) \<Rightarrow> Inr newVars))))))"

definition loadFromK8sObject :: "vars_env \<Rightarrow> uo \<Rightarrow> VarsSourceClusterConfigMapOrSecret \<Rightarrow> string \<Rightarrow> bool \<Rightarrow> bool \<Rightarrow> ('x, uo) veff" where
  "loadFromK8sObject V vars varsSource kind ignoreMissing base64Decode =
     (case ve_k V of
        None \<Rightarrow> throw (Error ''loading vars from cluster is disabled'')
      | Some k \<Rightarrow>
          bindM (findVarsObject V k varsSource kind ignoreMissing) (\<lambda>ob.
          case ob of None \<Rightarrow> ret New | Some x \<Rightarrow> lift (varsOfObject V vars varsSource base64Decode x)))"

section \<open>Loading\<close>

definition newVarsOf :: "vars_env \<Rightarrow> uo \<Rightarrow> VarsSource \<Rightarrow> bool \<Rightarrow> string list \<Rightarrow> string \<Rightarrow> ('x, uo) veff" where
  "newVarsOf V vars source ignoreMissing searchDirs rootKey =
     (case vs_Values source of Some values \<Rightarrow> ret (underRootKey rootKey values) | None \<Rightarrow>
      case vs_File source of Some file \<Rightarrow> lift (loadFile V vars file ignoreMissing searchDirs) | None \<Rightarrow>
      case vs_Git source of Some git \<Rightarrow> lift (loadGit V vars git ignoreMissing) | None \<Rightarrow>
      case vs_ClusterConfigMap source of Some c \<Rightarrow> loadFromK8sObject V vars c ''ConfigMap'' ignoreMissing False | None \<Rightarrow>
      case vs_ClusterSecret source of Some c \<Rightarrow> loadFromK8sObject V vars c ''Secret'' ignoreMissing True | None \<Rightarrow>
      case vs_SystemEnvVars source of Some e \<Rightarrow> lift (loadSystemEnvs V e ignoreMissing rootKey) | None \<Rightarrow>
      case vs_Http source of Some h \<Rightarrow> loadHttp V h ignoreMissing | None \<Rightarrow>
      case vs_AwsSecretsManager source of Some a \<Rightarrow> lift (loadAwsSecretsManager V vars a ignoreMissing) | None \<Rightarrow>
      case vs_Vault source of Some a \<Rightarrow> lift (loadVault V vars a ignoreMissing) | None \<Rightarrow>
        throw (Error ''invalid vars source''))"

text \<open>The result is the variables of the context afterwards and the source with its rendered variables.\<close>

definition LoadVars :: "vars_env \<Rightarrow> VarsSource \<Rightarrow> string list \<Rightarrow> string \<Rightarrow> uo \<Rightarrow> ('x, uo \<times> VarsSource) veff" where
  "LoadVars V sourceIn searchDirs rootKey vars =
     (if (case vs_RenderedVars sourceIn of Some r \<Rightarrow> r \<noteq> [] | None \<Rightarrow> False) then throw (Error ''renderedVars is not allowed here'')
      else
        bindM (lift (ve_ToMap V vars)) (\<lambda>globals.
        bindM (lift (ve_RenderSource V globals sourceIn)) (\<lambda>source.
        bindM (lift (CheckConditional V vars (vs_When source))) (\<lambda>whenTrue.
        if \<not> whenTrue then ret (vars, sourceIn)
        else
          let ignoreMissing = (vs_IgnoreMissing source = Some True) in
          bindM (newVarsOf V vars source ignoreMissing searchDirs rootKey) (\<lambda>newVars.
          ret (if vs_NoOverride source \<noteq> Some True then Merge vars newVars else Merge newVars vars,
               sourceIn\<lparr>vs_RenderedVars := Some (Clone newVars)\<rparr>))))))"

fun LoadVarsList :: "vars_env \<Rightarrow> VarsSource list \<Rightarrow> string list \<Rightarrow> string \<Rightarrow> uo \<Rightarrow> ('x, uo \<times> VarsSource list) veff" where
  "LoadVarsList V [] searchDirs rootKey vars = ret (vars, [])"
| "LoadVarsList V (source # varsList) searchDirs rootKey vars =
     bindM (LoadVars V source searchDirs rootKey vars) (\<lambda>(vars, source').
     bindM (LoadVarsList V varsList searchDirs rootKey vars) (\<lambda>(vars, varsList').
       ret (vars, source' # varsList')))"

section \<open>Arguments\<close>

definition is_argChar :: "char \<Rightarrow> bool" where
  "is_argChar c \<longleftrightarrow> is_ident_char c \<or> c \<in> set ''./-''"

text \<open>The regular expression \<^verbatim>\<open>^[a-zA-Z0-9_./-]*=.*$\<close>; a dot does not match a line break, and \<^verbatim>\<open>$\<close> is the end of the text.\<close>

definition argPattern :: "string \<Rightarrow> bool" where
  "argPattern s \<longleftrightarrow> (let n = takeWhile is_argChar s; r = dropWhile is_argChar s
     in r \<noteq> [] \<and> hd r = CHR ''='' \<and> CHR 0x0A \<notin> set (tl r))"

definition ParseArgs :: "string list \<Rightarrow> (string, string) gomap res" where
  "ParseArgs argsList =
     foldE (\<lambda>arg args.
       if \<not> argPattern arg then Inl (Error (''invalid --arg argument. Must be --arg=some_var_name=value, not '' @ quoted arg))
       else let s = SplitN arg (CHR ''='') 2 in Inr (AList.update (s ! 0) (s ! 1) args)) argsList []"

text \<open>\<open>readFile\<close> reads a file of the file system. An error of \<^verbatim>\<open>SetNestedField\<close> is dropped.\<close>

definition ConvertArg :: "vars_env \<Rightarrow> (string \<Rightarrow> string res) \<Rightarrow> bool \<Rightarrow> string \<times> string \<Rightarrow> uo \<Rightarrow> uo res" where
  "ConvertArg V readFile allowLoadFromFiles arg vars =
     (case arg of (n, v) \<Rightarrow>
       bindE (if allowLoadFromFiles \<and> HasPrefix v ''@'' then readFile (drop 1 v)
              else if HasPrefix v [CHR 0x5C, CHR ''@''] then Inr (drop 1 v) else Inr v) (\<lambda>v.
       bindE (ve_ReadAny V v) (\<lambda>j.
       case SetNestedField j (map KStr (SplitChar n (CHR ''.''))) vars of
         (_, Some (Panic e)) \<Rightarrow> Inl (Panic e)
       | (vars', _) \<Rightarrow> Inr vars')))"

definition ConvertArgsToVars :: "vars_env \<Rightarrow> (string \<Rightarrow> string res) \<Rightarrow> (string, string) gomap \<Rightarrow> bool \<Rightarrow> uo res" where
  "ConvertArgsToVars V readFile args allowLoadFromFiles = foldE (ConvertArg V readFile allowLoadFromFiles) args New"

definition argPath :: "string \<Rightarrow> keypath" where
  "argPath name = map KStr (SplitChar name (CHR ''.''))"

definition requireArg :: "uo \<Rightarrow> DeploymentArg \<Rightarrow> unit \<Rightarrow> unit res" where
  "requireArg args a _ =
     (if noErr None (GetNestedField (argPath (da_Name a)) args) = None \<and> da_Default a = None
      then Inl (Error (''required argument '' @ da_Name a @ '' not set'')) else Inr ())"

definition checkRequiredArgs :: "DeploymentArg list \<Rightarrow> uo \<Rightarrow> unit res" where
  "checkRequiredArgs argsDef args = foldE (requireArg args) argsDef ()"

definition addDefault :: "vars_env \<Rightarrow> DeploymentArg \<Rightarrow> uo \<Rightarrow> uo res" where
  "addDefault V a defaults =
     (case da_Default a of
        None \<Rightarrow> Inr defaults
      | Some raw \<Rightarrow> bindE (ve_ReadAny V raw) (\<lambda>v. Inr (Merge defaults (FromMap [(da_Name a, v)]))))"

definition defaultArgs :: "vars_env \<Rightarrow> DeploymentArg list \<Rightarrow> uo res" where
  "defaultArgs V args = foldE (addDefault V) args New"

definition LoadDefaultArgs :: "vars_env \<Rightarrow> DeploymentArg list \<Rightarrow> uo \<Rightarrow> uo res" where
  "LoadDefaultArgs V args deployArgs =
     bindE (defaultArgs V args) (\<lambda>defaults.
     let all = Merge defaults deployArgs in
     bindE (checkRequiredArgs args all) (\<lambda>_. Inr all))"

section \<open>Precedence of variables\<close>

text \<open>Leafs of the object that is merged in win; what it does not mention stays.\<close>

definition overrides :: "uo \<Rightarrow> uo \<Rightarrow> uo \<Rightarrow> bool" where
  "overrides old new vars \<longleftrightarrow>
     (\<forall>q v. q \<noteq> [] \<and> GetNestedField q new = Inr (Some v) \<and> \<not> is_map v \<longrightarrow> GetNestedField q vars = Inr (Some v)) \<and>
     (\<forall>q v. q \<noteq> [] \<and> list_all is_str q \<and> GetNestedField q old = Inr (Some v) \<and> GetNestedField q new = Inr None \<longrightarrow>
        GetNestedField q vars = Inr (Some v))"

lemma overrides_Merge: "wf_uo new \<Longrightarrow> overrides old new (Merge old new)"
  unfolding overrides_def Merge_def GetNestedField_def
  using getPath_MergeMap_right getPath_MergeMap_left by blast


section \<open>Arguments: defaults and checks\<close>

lemma checkRequiredArgs_Inr:
  "checkRequiredArgs argsDef args = Inr u \<longleftrightarrow>
     (\<forall>a \<in> set argsDef. da_Default a = None \<longrightarrow> noErr None (GetNestedField (argPath (da_Name a)) args) \<noteq> None)"
  unfolding checkRequiredArgs_def by (induction argsDef arbitrary: u) (auto simp: requireArg_def)

lemma checkRequiredArgs_Inl:
  "checkRequiredArgs argsDef args = Inl e \<Longrightarrow>
     \<exists>a. a \<in> set argsDef \<and> da_Default a = None \<and> e = Error (''required argument '' @ da_Name a @ '' not set'')"
  unfolding checkRequiredArgs_def by (induction argsDef) (auto simp: requireArg_def split: if_splits)

lemma noErr_Some: "noErr None r \<noteq> None \<Longrightarrow> \<exists>v. r = Inr (Some v)"
  by (cases r) (auto simp: noErr_def)

lemma map_of_addDefault:
  assumes "addDefault V a d = Inr d'"
  shows "n \<noteq> da_Name a \<Longrightarrow> map_of d' n = map_of d n"
    and "da_Default a = Some raw \<Longrightarrow> map_of d (da_Name a) = None \<Longrightarrow>
      \<exists>v. ve_ReadAny V raw = Inr v \<and> map_of d' (da_Name a) = Some v"
  using assms
  by (auto simp: addDefault_def bindE_Inr_iff Merge_def FromMap_def map_of_MergeMap merged_def
      split: option.splits val.splits)

lemma addDefaults_keep:
  "foldE (addDefault V) args d = Inr d' \<Longrightarrow> n \<notin> da_Name ` set args \<Longrightarrow> map_of d' n = map_of d n"
proof (induction args arbitrary: d)
  case (Cons a args)
  then obtain d1 where d1: "addDefault V a d = Inr d1" "foldE (addDefault V) args d1 = Inr d'" by (auto simp: bindE_Inr_iff)
  then show ?case using Cons.IH [OF d1(2)] map_of_addDefault(1) [OF d1(1), of n] Cons.prems(2) by simp
qed simp

lemma addDefaults_error:
  "foldE (addDefault V) args d = Inl e \<Longrightarrow> \<exists>a raw. a \<in> set args \<and> da_Default a = Some raw \<and> ve_ReadAny V raw = Inl e"
proof (induction args arbitrary: d)
  case (Cons a args)
  show ?case
  proof (cases "addDefault V a d")
    case (Inl e')
    then show ?thesis using Cons.prems by (auto simp: addDefault_def bindE_Inl_iff split: option.splits)
  next
    case (Inr d1)
    then show ?thesis using Cons.IH [of d1] Cons.prems by auto
  qed
qed simp

lemma addDefaults_value:
  assumes "foldE (addDefault V) args d = Inr d'" "distinct (map da_Name args)" "a \<in> set args"
    "da_Default a = Some raw" "map_of d (da_Name a) = None"
  shows "\<exists>v. ve_ReadAny V raw = Inr v \<and> map_of d' (da_Name a) = Some v"
  using assms
proof (induction args arbitrary: d)
  case (Cons b args)
  obtain d1 where d1: "addDefault V b d = Inr d1" "foldE (addDefault V) args d1 = Inr d'"
    using Cons.prems(1) by (auto simp: bindE_Inr_iff)
  show ?case
  proof (cases "a = b")
    case True
    then have "da_Name a \<notin> da_Name ` set args" using Cons.prems(2) by auto
    then show ?thesis using addDefaults_keep [OF d1(2)] map_of_addDefault(2) [OF d1(1)] True Cons.prems(4,5) by simp
  next
    case False
    then have a: "a \<in> set args" using Cons.prems(3) by simp
    then have "da_Name a \<noteq> da_Name b" using Cons.prems(2) by (auto simp: image_iff)
    then show ?thesis using Cons.IH [OF d1(2)] map_of_addDefault(1) [OF d1(1)] Cons.prems(2,4,5) a by simp
  qed
qed simp

lemma LoadDefaultArgs_cases:
  obtains (bad) e where "defaultArgs V args = Inl e" "LoadDefaultArgs V args given = Inl e"
  | (missing) d e where "checkRequiredArgs args (Merge d given) = Inl e" "LoadDefaultArgs V args given = Inl e"
  | (ok) d u where "defaultArgs V args = Inr d" "checkRequiredArgs args (Merge d given) = Inr u"
      "LoadDefaultArgs V args given = Inr (Merge d given)"
proof (cases "defaultArgs V args")
  case (Inr d)
  then show ?thesis using missing ok
    by (cases "checkRequiredArgs args (Merge d given)") (simp_all add: LoadDefaultArgs_def)
qed (simp add: bad LoadDefaultArgs_def)

text \<open>
  The arguments of a deployment after the defaults are filled in: what was passed stays as it was, an argument that
  was not passed has its default (stored under the whole name), and every argument without a default is present.
  Otherwise the error says which default can not be read or which required argument is missing.
\<close>

theorem LoadDefaultArgs_spec:
  assumes "wf_uo given" "distinct (map da_Name args)"
  shows "(case LoadDefaultArgs V args given of
      Inr all \<Rightarrow>
        (\<forall>q v. q \<noteq> [] \<and> GetNestedField q given = Inr (Some v) \<and> \<not> is_map v \<longrightarrow> GetNestedField q all = Inr (Some v)) \<and>
        (\<forall>a raw. a \<in> set args \<and> da_Default a = Some raw \<and> map_of given (da_Name a) = None \<longrightarrow>
           (\<exists>v. ve_ReadAny V raw = Inr v \<and> map_of all (da_Name a) = Some v)) \<and>
        (\<forall>a. a \<in> set args \<and> da_Default a = None \<longrightarrow> (\<exists>v. GetNestedField (argPath (da_Name a)) all = Inr (Some v)))
    | Inl e \<Rightarrow>
        (\<exists>a raw. a \<in> set args \<and> da_Default a = Some raw \<and> ve_ReadAny V raw = Inl e) \<or>
        (\<exists>a. a \<in> set args \<and> da_Default a = None \<and> e = Error (''required argument '' @ da_Name a @ '' not set'')))"
proof (cases V args given rule: LoadDefaultArgs_cases)
  case (bad e)
  then show ?thesis using addDefaults_error unfolding defaultArgs_def by simp
next
  case (missing d e)
  then show ?thesis using checkRequiredArgs_Inl by simp
next
  case (ok d u)
  let ?all = "Merge d given"
  have wf: "wf_map given" using assms(1) by simp
  have 1: "\<forall>q v. q \<noteq> [] \<and> GetNestedField q given = Inr (Some v) \<and> \<not> is_map v \<longrightarrow> GetNestedField q ?all = Inr (Some v)"
    using overrides_Merge [OF assms(1), of d] unfolding overrides_def by (rule conjunct1)
  have 2: "\<exists>v. ve_ReadAny V raw = Inr v \<and> map_of ?all (da_Name a) = Some v"
    if "a \<in> set args" "da_Default a = Some raw" "map_of given (da_Name a) = None" for a raw
    using addDefaults_value [OF ok(1) [unfolded defaultArgs_def] assms(2) that(1,2)] that(3) wf
    by (auto simp: New_def Merge_def map_of_MergeMap merged_def)
  have 3: "\<exists>v. GetNestedField (argPath (da_Name a)) ?all = Inr (Some v)" if "a \<in> set args" "da_Default a = None" for a
    using ok(2) [unfolded checkRequiredArgs_Inr] that by (intro noErr_Some) blast
  show ?thesis unfolding ok(3) sum.case by (intro conjI 1) (use 2 3 in blast)+
qed

text \<open>A sample environment: templates render to themselves, and every text is read as one fixed value.\<close>

definition sample_vars_env :: vars_env where
  "sample_vars_env = \<lparr>ve_ToMap = Inr, ve_RenderString = (\<lambda>_ _ t. Inr t), ve_RenderFile = (\<lambda>_ _ p. Inr p), ve_RenderSource = (\<lambda>_. Inr),
     ve_RenderStrings = (\<lambda>_ ts. Inr (map Inr ts)), ve_ReadObject = (\<lambda>_. Inr [(''x'', VStr ''read'')]), ve_ReadAny = (\<lambda>s. Inr (VStr s)),
     ve_Decrypt = (\<lambda>_. Inr), ve_LookupEnv = (\<lambda>_. None), ve_GetEntry = (\<lambda>_. Inr ()), ve_GetClonedDir = (\<lambda>_ _. Inr ''/git''), ve_Aws = None,
     ve_Vault = (\<lambda>_. Inr None), ve_Http = (\<lambda>_ _ _. \<lparr>hr_Err = None, hr_Status = 404, hr_Body = [], hr_Challenges = []\<rparr>),
     ve_HttpHost = (\<lambda>_. ''host''), ve_AskForCredentials = (\<lambda>_. Inl (Error ''no terminal'')), ve_GetFirstFromAny = (\<lambda>_ _. None),
     ve_FmtLabels = (\<lambda>_. []), ve_k = None, ve_L = sample_lib,
     ve_jp = \<lparr>jp_ParseErr = (\<lambda>_. None), jp_Locate = (\<lambda>_ _. []), jp_Del = (\<lambda>_ ob. (ob, None)), jp_Set = (\<lambda>_ _ ob. (ob, None))\<rparr>\<rparr>"

definition noVarsSource :: VarsSource where
  "noVarsSource = \<lparr>vs_IgnoreMissing = None, vs_NoOverride = None, vs_Values = None, vs_File = None, vs_Git = None,
     vs_ClusterConfigMap = None, vs_ClusterSecret = None, vs_SystemEnvVars = None, vs_Http = None, vs_AwsSecretsManager = None,
     vs_Vault = None, vs_When = [], vs_RenderedVars = None\<rparr>"


theorem LoadDefaultArgs_spec_witness:
  "\<exists>all. LoadDefaultArgs sample_vars_env [\<lparr>da_Name = ''a'', da_Default = Some ''1''\<rparr>, \<lparr>da_Name = ''b.c'', da_Default = None\<rparr>]
       [(''b'', VMap [(''c'', VStr ''x'')])] = Inr all \<and>
     GetNestedField [KStr ''b'', KStr ''c''] all = Inr (Some (VStr ''x'')) \<and> map_of all ''a'' = Some (VStr ''1'')"
proof -
  let ?a = "\<lparr>da_Name = ''a'', da_Default = Some ''1''\<rparr>" and ?b = "\<lparr>da_Name = ''b.c'', da_Default = None\<rparr>"
  let ?given = "[(''b'', VMap [(''c'', VStr ''x'')])]"
  have s: "argPath ''b.c'' = [KStr ''b'', KStr ''c'']" by (simp add: argPath_def)
  obtain all where all: "LoadDefaultArgs sample_vars_env [?a, ?b] ?given = Inr all"
    by (simp add: LoadDefaultArgs_def defaultArgs_def addDefault_def checkRequiredArgs_def requireArg_def sample_vars_env_def s New_def
        FromMap_def Merge_def MergeMap_step merged_def GetNestedField_def child_simps noErr_def)
  have h: "wf_uo ?given" "distinct (map da_Name [?a, ?b])" by simp_all
  note all_spec = LoadDefaultArgs_spec [OF h, of sample_vars_env, unfolded all sum.case]
  have "GetNestedField [KStr ''b'', KStr ''c''] ?given = Inr (Some (VStr ''x''))" by (simp add: GetNestedField_def child_simps)
  then have "GetNestedField [KStr ''b'', KStr ''c''] all = Inr (Some (VStr ''x''))"
    using all_spec [THEN conjunct1, THEN spec, THEN spec, of "[KStr ''b'', KStr ''c'']" "VStr ''x''"] by (simp add: is_map_def)
  moreover have "\<exists>v. ve_ReadAny sample_vars_env ''1'' = Inr v \<and> map_of all (da_Name ?a) = Some v"
    using all_spec [THEN conjunct2, THEN conjunct1, THEN spec, THEN spec, of ?a "''1''"] by simp
  ultimately show ?thesis using all by (auto simp: sample_vars_env_def)
qed

text \<open>
  A default for a dotted name is stored under the literal name: reading the argument at its path, as the passed arguments
  are stored and as required arguments are looked up, finds nothing.
\<close>

lemma LoadDefaultArgs_dotted:
  "\<exists>all. LoadDefaultArgs sample_vars_env [\<lparr>da_Name = ''b.c'', da_Default = Some ''1''\<rparr>] New = Inr all \<and>
     GetNestedField (argPath ''b.c'') all = Inr None \<and> map_of all ''b.c'' = Some (VStr ''1'')"
  by (simp add: LoadDefaultArgs_def defaultArgs_def addDefault_def checkRequiredArgs_def requireArg_def sample_vars_env_def argPath_def New_def FromMap_def Merge_def MergeMap_step merged_def GetNestedField_def child_simps noErr_def)

end
