(* ===== verification/Deployment_Project.thy ===== *)
theory Deployment_Project
  imports Vars File_Paths
begin

text \<open>
  Deployment projects (\<^verbatim>\<open>pkg/deployment/deployment_project.go\<close>, \<^verbatim>\<open>source.go\<close>): loading a project with all its
  includes into a tree, and what a project takes from its parents. A project of the tree is a frame (its own fields) and
  its includes by the index of the item; where the code follows \<^verbatim>\<open>parentProject\<close>, the model passes the list of frames
  from the project up to the root. An include may include itself without end, so loading has a bound on the depth.
\<close>

section \<open>Parameters and state\<close>

text \<open>
  \<open>pe_SecureJoin\<close> is the function of \<^verbatim>\<open>filepath-securejoin\<close>, \<open>pe_ReadConfig\<close> reads YAML into the configuration and
  validates it. The pattern is \<^verbatim>\<open>DefaultSealedSecretsOutputPattern\<close> of the shared context.
\<close>

record project_env =
  pe_V :: vars_env
  pe_fs :: file_system
  pe_SecureJoin :: "string \<Rightarrow> string \<Rightarrow> string res"
  pe_ReadConfig :: "string \<Rightarrow> DeploymentProjectConfig res"
  pe_DefaultOutputPattern :: string

record LoadState = VarsLoader +
  ls_nextSourceId :: int

type_synonym ('x, 'a) peff = "('x LoadState_scheme, 'a) eff"

datatype DeploymentProject = DeploymentProject (dp_frame: ProjectFrame) (dp_includes: "(nat \<times> DeploymentProject) list")

definition wrapE :: "string \<Rightarrow> 'a res \<Rightarrow> 'a res" where
  "wrapE pre r = (case r of Inl (Error e) \<Rightarrow> Inl (Error (pre @ e)) | _ \<Rightarrow> r)"

definition wrapM :: "string \<Rightarrow> ('s, 'a) eff \<Rightarrow> ('s, 'a) eff" where
  "wrapM pre m s = (case m s of (r, s') \<Rightarrow> (wrapE pre r, s'))"

lemma wrapE_Inr_iff [simp]: "wrapE pre r = Inr x \<longleftrightarrow> r = Inr x"
  by (auto simp: wrapE_def split: sum.splits go_error.splits)

lemma wrapM_Inr_iff [simp]: "wrapM pre m s = (Inr x, s') \<longleftrightarrow> m s = (Inr x, s')"
  by (auto simp: wrapM_def split: prod.splits)

lemma run_wrapM [run_simps]:
  "m s = (Inr x, s') \<Longrightarrow> wrapM pre m s = (Inr x, s')"
  "m s = (Inl OutOfFuel, s') \<Longrightarrow> wrapM pre m s = (Inl OutOfFuel, s')"
  by (simp_all add: wrapM_def wrapE_def)

section \<open>Sources\<close>

definition getNextSourceId :: "('x, string) peff" where
  "getNextSourceId = bindM (ask (\<lambda>s. show_int (ls_nextSourceId s))) (\<lambda>n.
     seqM (modify (\<lambda>s. s\<lparr>ls_nextSourceId := ls_nextSourceId s + 1\<rparr>)) (ret n))"

definition NewSource :: "string \<Rightarrow> ('x, Source) peff" where
  "NewSource dir = bindM getNextSourceId (\<lambda>n. ret \<lparr>src_id = n, src_dir = dir\<rparr>)"

section \<open>What a project takes from its parents\<close>

text \<open>Each project of the chain with the item of it through which the previous one is included.\<close>

fun parentsFrom :: "DeploymentItemConfig option \<Rightarrow> ProjectFrame list \<Rightarrow> (ProjectFrame \<times> DeploymentItemConfig option) list" where
  "parentsFrom inc [] = []"
| "parentsFrom inc (d # ds) = (d, inc) # parentsFrom (pf_parentProjectInclude d) ds"

definition getParents :: "ProjectFrame list \<Rightarrow> (ProjectFrame \<times> DeploymentItemConfig option) list" where
  "getParents p = parentsFrom None p"

definition getRootProject :: "ProjectFrame list \<Rightarrow> ProjectFrame" where
  "getRootProject p = last p"

definition getRenderSearchDirs :: "ProjectFrame list \<Rightarrow> string list" where
  "getRenderSearchDirs p = map (pf_absDir \<circ> fst) (filter (\<lambda>(d, _). pf_source d = pf_source (hd p)) (getParents p))"

definition getRenderedOutputPattern :: "project_env \<Rightarrow> ProjectFrame list \<Rightarrow> string" where
  "getRenderedOutputPattern E p =
     (case filter (\<lambda>x. case pc_SealedSecrets (pf_Config (fst x)) of Some (Some _) \<Rightarrow> True | _ \<Rightarrow> False) (getParents p) of
        [] \<Rightarrow> pe_DefaultOutputPattern E
      | x # _ \<Rightarrow> (case pc_SealedSecrets (pf_Config (fst x)) of Some (Some pat) \<Rightarrow> pat | _ \<Rightarrow> []))"

definition GetCommonLabels :: "ProjectFrame list \<Rightarrow> (string, string) gomap" where
  "GetCommonLabels p = foldl (\<lambda>r d. MergeStrMap r (pc_CommonLabels (pf_Config (fst d)))) [] (rev (getParents p))"

definition GetCommonAnnotations :: "ProjectFrame list \<Rightarrow> (string, string) gomap" where
  "GetCommonAnnotations p = foldl (\<lambda>r d. MergeStrMap r (pc_CommonAnnotations (pf_Config (fst d)))) [] (rev (getParents p))"

definition getOverrideNamespace :: "ProjectFrame list \<Rightarrow> string option" where
  "getOverrideNamespace p =
     (case filter (\<lambda>e. pc_OverrideNamespace (pf_Config (fst e)) \<noteq> None) (getParents p) of
        [] \<Rightarrow> None | e # _ \<Rightarrow> pc_OverrideNamespace (pf_Config (fst e)))"

definition getTags :: "ProjectFrame list \<Rightarrow> bool OrderedMap" where
  "getTags p =
     foldl (\<lambda>tags e.
       let tags = (case snd e of None \<Rightarrow> tags | Some inc \<Rightarrow> om_SetMultiple (ic_Tags inc) True tags)
       in om_SetMultiple (pc_Tags (pf_Config (fst e))) True tags) om_new (getParents p)"

definition ignoreItem :: IgnoreForDiffItemConfig where
  "ignoreItem = \<lparr>ig_FieldPath = [], ig_FieldPathRegex = [], ig_Group = None, ig_Kind = None, ig_Name = None, ig_Namespace = None\<rparr>"

definition tagLabelRegex :: string where
  "tagLabelRegex = ''metadata'' @ [CHR 0x5C] @ ''.labels'' @ [CHR 0x5C] @ ''['' @ [CHR 0x22] @ ''kluctl'' @ [CHR 0x5C] @ ''.io/tag-.*'' @
     [CHR 0x22, CHR 0x5C] @ '']''"

definition GetIgnoreForDiffs :: "bool \<Rightarrow> bool \<Rightarrow> bool \<Rightarrow> ProjectFrame list \<Rightarrow> IgnoreForDiffItemConfig list" where
  "GetIgnoreForDiffs ignoreTags ignoreLabels ignoreAnnotations p =
     concat (map (\<lambda>e. pc_IgnoreForDiff (pf_Config (fst e))) (getParents p)) @
     (if ignoreTags then [ignoreItem\<lparr>ig_FieldPathRegex := [tagLabelRegex]\<rparr>] else []) @
     (if ignoreLabels then [ignoreItem\<lparr>ig_FieldPath := [''metadata.labels.*'']\<rparr>] else []) @
     (if ignoreAnnotations then [ignoreItem\<lparr>ig_FieldPath := [''metadata.annotations.*'']\<rparr>] else [])"

text \<open>The order of the includes is the order in which the map is visited.\<close>

function getChildren :: "bool \<Rightarrow> bool \<Rightarrow> DeploymentProject \<Rightarrow> DeploymentProject list" where
  "getChildren recursive includeSelf p =
     (if includeSelf then [p] else []) @
     concat (map (\<lambda>(_, d). d # (if recursive then getChildren True False d else [])) (dp_includes p))"
  by pat_completeness auto
termination
proof (relation "measure (\<lambda>(_, _, p). size p)")
  show "((True, False, d), (r, s, p)) \<in> measure (\<lambda>(_, _, p). size p)" if "z \<in> set (dp_includes p)" "(i, d) = z" for r s p z i d
  proof (cases p)
    case (DeploymentProject fr incs)
    then have "(i, d) \<in> set incs" using that by simp
    then have "size_prod (\<lambda>_. 0) size (i, d) \<le> size_list (size_prod (\<lambda>_. 0) size) incs" using size_list_estimation' by fastforce
    then show ?thesis using DeploymentProject by simp
  qed
qed simp

section \<open>Conditions and configuration\<close>

definition CheckWhenTrue :: "project_env \<Rightarrow> ProjectFrame list \<Rightarrow> bool res" where
  "CheckWhenTrue E p =
     (if tl p = [] \<and> pc_When (pf_Config (hd p)) \<noteq> [] then Inl (Error (''the root deployment project can not contain '' @ quoted ''when''))
      else CheckConditional (pe_V E) (pf_VarsCtx (hd p)) (pc_When (pf_Config (hd p))))"

definition loadVarsList :: "project_env \<Rightarrow> ProjectFrame list \<Rightarrow> uo \<Rightarrow> VarsSource list \<Rightarrow> ('x, uo \<times> VarsSource list) peff" where
  "loadVarsList E p varsCtx varsList = LoadVarsList (pe_V E) varsList (getRenderSearchDirs p) [] varsCtx"

definition checkNotRendered :: "DeploymentItemConfig \<Rightarrow> unit \<Rightarrow> unit res" where
  "checkNotRendered item _ =
     (if ic_RenderedObjects item \<noteq> [] then Inl (Error ''renderedObjects is not allowed here'')
      else if ic_RenderedHelmChartConfig item \<noteq> None then Inl (Error ''renderedHelmChartConfig is not allowed here'')
      else if ic_RenderedInclude item then Inl (Error ''renderedInclude is not allowed here'')
      else Inr ())"

definition withDefaultTags :: "DeploymentItemConfig \<Rightarrow> DeploymentItemConfig" where
  "withDefaultTags item =
     (if ic_Tags item \<noteq> [] then item
      else case ic_Path item of
        Some p \<Rightarrow> item\<lparr>ic_Tags := [Base p]\<rparr>
      | None \<Rightarrow> (case ic_Include item of Some i \<Rightarrow> item\<lparr>ic_Tags := [Base i]\<rparr> | None \<Rightarrow> item))"

definition checkDeploymentDir :: "project_env \<Rightarrow> ProjectFrame \<Rightarrow> DeploymentItemConfig \<Rightarrow> unit \<Rightarrow> unit res" where
  "checkDeploymentDir E p di _ =
     (case ic_Path di of
        None \<Rightarrow> Inr ()
      | Some path \<Rightarrow>
          bindE (pe_SecureJoin E (src_dir (pf_source p)) (PathJoin [pf_relDir p, path])) (\<lambda>diDir.
          if \<not> HasPrefix diDir (src_dir (pf_source p)) then Inl (Error (''path/include is not part of the deployment project: '' @ path))
          else if \<not> fs_Exists (pe_fs E) diDir then Inl (Error (''deployment directory does not exist: '' @ path))
          else if \<not> fs_IsDirectory (pe_fs E) diDir then Inl (Error (''deployment path is not a directory: '' @ path))
          else Inr ()))"

definition checkDeploymentDirs :: "project_env \<Rightarrow> ProjectFrame \<Rightarrow> unit res" where
  "checkDeploymentDirs E p = foldE (checkDeploymentDir E p) (pc_Deployments (pf_Config p)) ()"

definition processConfig :: "project_env \<Rightarrow> ProjectFrame list \<Rightarrow> ProjectFrame \<Rightarrow> ('x, ProjectFrame) peff" where
  "processConfig E parents p =
     bindM (lift (foldE checkNotRendered (pc_Deployments (pf_Config p)) ())) (\<lambda>_.
     bindM (wrapM ''failed to load deployment.yml vars: '' (loadVarsList E (p # parents) (pf_VarsCtx p) (pc_Vars (pf_Config p)))) (\<lambda>(vars, varsList).
     let p = p\<lparr>pf_VarsCtx := vars,
               pf_Config := (pf_Config p)\<lparr>pc_Vars := varsList, pc_Deployments := map withDefaultTags (pc_Deployments (pf_Config p))\<rparr>\<rparr>
     in bindM (lift (checkDeploymentDirs E p)) (\<lambda>_. ret p)))"

definition generateSingleKustomizeProject :: "ProjectFrame \<Rightarrow> ProjectFrame" where
  "generateSingleKustomizeProject p =
     p\<lparr>pf_Config := (pf_Config p)\<lparr>pc_Deployments := pc_Deployments (pf_Config p) @ [noItemConfig\<lparr>ic_Path := Some ''.''\<rparr>]\<rparr>\<rparr>"

definition loadConfig :: "project_env \<Rightarrow> ProjectFrame list \<Rightarrow> ProjectFrame \<Rightarrow> ('x, ProjectFrame) peff" where
  "loadConfig E parents p =
     (let configPath = PathJoin [pf_absDir p, ''deployment.yml''] in
      if \<not> YamlExists (pe_fs E) configPath then
        (if parents = [] then ret (generateSingleKustomizeProject p)
         else if YamlExists (pe_fs E) (PathJoin [pf_absDir p, ''kustomization.yml'']) then
           throw (Error (''deployment.yml not found but folder '' @ pf_absDir p @ '' contains a kustomization.yml''))
         else throw (Error (configPath @ '' not found'')))
      else
        bindM (lift (wrapE ''failed to load deployment.yml: ''
          (RenderYamlFile (pe_V E) (pe_ReadConfig E) (pf_VarsCtx p) (FixPathExt (pe_fs E) configPath) (getRenderSearchDirs (p # parents))))) (\<lambda>config.
        processConfig E parents (p\<lparr>pf_Config := config\<rparr>)))"

section \<open>Loading\<close>

definition noProjectConfig :: DeploymentProjectConfig where
  "noProjectConfig = \<lparr>pc_Vars = [], pc_SealedSecrets = None, pc_When = [], pc_Deployments = [], pc_CommonLabels = [],
     pc_CommonAnnotations = [], pc_OverrideNamespace = None, pc_Tags = [], pc_IgnoreForDiff = []\<rparr>"

text \<open>\<open>new\<close> stands for \<^verbatim>\<open>NewDeploymentProject\<close>: variables, source, directory and parents.\<close>

type_synonym 'x loader = "uo \<Rightarrow> Source \<Rightarrow> string \<Rightarrow> ProjectFrame list \<Rightarrow> ('x, DeploymentProject) peff"

definition loadLocalInclude ::
  "'x loader \<Rightarrow> project_env \<Rightarrow> ProjectFrame list \<Rightarrow> Source \<Rightarrow> string \<Rightarrow> VarsSource list \<Rightarrow> ('x, DeploymentProject \<times> VarsSource list) peff" where
  "loadLocalInclude new E p source incDir vars =
     bindM (loadVarsList E p (pf_VarsCtx (hd p)) vars) (\<lambda>(varsCtx, vars').
     bindM (new varsCtx source incDir p) (\<lambda>newProject. ret (newProject, vars')))"

text \<open>The item refers to the included project, and the included project to the item.\<close>

definition attach :: "nat \<Rightarrow> DeploymentItemConfig \<Rightarrow> DeploymentProject \<Rightarrow> ProjectFrame \<times> (nat \<times> DeploymentProject) list \<Rightarrow>
    ProjectFrame \<times> (nat \<times> DeploymentProject) list" where
  "attach i inc newProject st =
     (case st of (p, includes) \<Rightarrow>
       (p\<lparr>pf_Config := (pf_Config p)\<lparr>pc_Deployments := (pc_Deployments (pf_Config p))[i := inc]\<rparr>\<rparr>,
        includes @ [(i, case newProject of DeploymentProject fr incs \<Rightarrow> DeploymentProject (fr\<lparr>pf_parentProjectInclude := Some inc\<rparr>) incs)]))"

definition loadInclude :: "'x loader \<Rightarrow> project_env \<Rightarrow> ProjectFrame list \<Rightarrow> nat \<Rightarrow> ProjectFrame \<times> (nat \<times> DeploymentProject) list \<Rightarrow>
    ('x, ProjectFrame \<times> (nat \<times> DeploymentProject) list) peff" where
  "loadInclude new E parents i st =
     (let p = fst st; inc = pc_Deployments (pf_Config p) ! i;
          done = (\<lambda>(newProject, vars'). ret (attach i (inc\<lparr>ic_Vars := vars', ic_RenderedInclude := True\<rparr>) newProject st))
      in bindM (lift (CheckConditional (pe_V E) (pf_VarsCtx p) (ic_When inc))) (\<lambda>whenTrue.
         if \<not> whenTrue then ret st
         else case ic_Include inc of
           Some d \<Rightarrow> bindM (loadLocalInclude new E (p # parents) (pf_source p) (PathJoin [pf_relDir p, d]) (ic_Vars inc)) done
         | None \<Rightarrow>
             (case ic_Git inc of
                Some g \<Rightarrow>
                  bindM (lift (ve_GetEntry (pe_V E) (gp_Url g))) (\<lambda>_.
                  bindM (lift (ve_GetClonedDir (pe_V E) (gp_Url g) (gp_Ref g))) (\<lambda>cloneDir.
                  bindM (NewSource cloneDir) (\<lambda>source.
                  bindM (loadLocalInclude new E (p # parents) source (gp_SubDir g) (ic_Vars inc)) done)))
              | None \<Rightarrow> ret st)))"

fun forItemsM :: "(nat \<Rightarrow> 's \<Rightarrow> ('t, 's) eff) \<Rightarrow> nat list \<Rightarrow> 's \<Rightarrow> ('t, 's) eff" where
  "forItemsM f [] st = ret st"
| "forItemsM f (i # rest) st = bindM (f i st) (forItemsM f rest)"

definition loadIncludes :: "'x loader \<Rightarrow> project_env \<Rightarrow> ProjectFrame list \<Rightarrow> ProjectFrame \<Rightarrow>
    ('x, ProjectFrame \<times> (nat \<times> DeploymentProject) list) peff" where
  "loadIncludes new E parents p = forItemsM (loadInclude new E parents) [0..<length (pc_Deployments (pf_Config p))] (p, [])"

definition newFrame :: "uo \<Rightarrow> Source \<Rightarrow> string \<Rightarrow> string \<Rightarrow> ProjectFrame" where
  "newFrame vars source relDir dir = \<lparr>pf_VarsCtx = Clone vars, pf_source = source, pf_relDir = relDir, pf_absDir = dir,
     pf_Config = noProjectConfig, pf_parentProjectInclude = None\<rparr>"

text \<open>The number bounds the depth of the includes.\<close>

primrec NewDeploymentProject :: "project_env \<Rightarrow> nat \<Rightarrow> 'x loader" where
  "NewDeploymentProject E 0 = (\<lambda>_ _ _ _. throw OutOfFuel)"
| "NewDeploymentProject E (Suc n) = (\<lambda>vars source relDir parents.
     bindM (lift (pe_SecureJoin E (src_dir source) relDir)) (\<lambda>dir.
     if \<not> fs_IsDirectory (pe_fs E) dir then throw (Error (dir @ '' does not exist or is not a directory''))
     else
       bindM (wrapM (''failed to load deployment config for '' @ dir @ '': '') (loadConfig E parents (newFrame vars source relDir dir))) (\<lambda>p.
       bindM (lift (CheckWhenTrue E (p # parents))) (\<lambda>x.
       if \<not> x then ret (DeploymentProject p [])
       else
         bindM (wrapM (''failed to load includes for '' @ dir @ '': '') (loadIncludes (NewDeploymentProject E n) E parents p)) (\<lambda>(p, includes).
         ret (DeploymentProject p includes))))))"

section \<open>Inheritance\<close>

lemma map_fst_getParents [simp]: "map fst (getParents p) = p"
proof -
  have "map fst (parentsFrom inc p) = p" for inc by (induction inc p rule: parentsFrom.induct) simp_all
  then show ?thesis by (simp add: getParents_def)
qed

text \<open>The first project of the chain, starting at the project itself, that says something.\<close>

fun nearest :: "('p \<Rightarrow> 'v option) \<Rightarrow> 'p list \<Rightarrow> 'v option" where
  "nearest f [] = None"
| "nearest f (p # ps) = (case f p of Some v \<Rightarrow> Some v | None \<Rightarrow> nearest f ps)"

lemma merge_chain:
  assumes "\<And>d. d \<in> set (map fst ds) \<Longrightarrow> wf_map (g d)"
  shows "map_of (foldl (\<lambda>r d. MergeStrMap r (g (fst d))) [] (rev ds)) k = nearest (\<lambda>d. map_of (g d) k) (map fst ds)"
  using assms by (induction ds) (auto simp: map_of_MergeStrMap split: option.splits)

lemma filter_nearest:
  "(case filter (\<lambda>e. f (fst e) \<noteq> None) xs of [] \<Rightarrow> None | e # _ \<Rightarrow> f (fst e)) = nearest f (map fst xs)"
  by (induction xs) (auto split: option.splits)

text \<open>
  C31: A project inherits from its parents: a common label or annotation and the namespace override have the value that
  the nearest project says, starting from the project itself up to the root.
\<close>

theorem project_inheritance:
  assumes "list_all (\<lambda>d. wf_map (pc_CommonLabels (pf_Config d)) \<and> wf_map (pc_CommonAnnotations (pf_Config d))) p"
  shows "map_of (GetCommonLabels p) k = nearest (\<lambda>d. map_of (pc_CommonLabels (pf_Config d)) k) p \<and>
    map_of (GetCommonAnnotations p) k = nearest (\<lambda>d. map_of (pc_CommonAnnotations (pf_Config d)) k) p \<and>
    getOverrideNamespace p = nearest (\<lambda>d. pc_OverrideNamespace (pf_Config d)) p"
proof -
  have wf: "wf_map (pc_CommonLabels (pf_Config d))" "wf_map (pc_CommonAnnotations (pf_Config d))" if "d \<in> set p" for d
    using assms that by (auto simp: list_all_iff)
  show ?thesis
    unfolding GetCommonLabels_def GetCommonAnnotations_def getOverrideNamespace_def
    using filter_nearest [of "\<lambda>d. pc_OverrideNamespace (pf_Config d)" "getParents p"] wf
      merge_chain [of "getParents p" "\<lambda>d. pc_CommonLabels (pf_Config d)" k]
      merge_chain [of "getParents p" "\<lambda>d. pc_CommonAnnotations (pf_Config d)" k] by simp
qed

definition sample_frame :: "(string, string) gomap \<Rightarrow> ProjectFrame" where
  "sample_frame labels = (newFrame [] \<lparr>src_id = ''0'', src_dir = ''/p''\<rparr> ''.'' ''/p'')\<lparr>pf_Config := noProjectConfig\<lparr>pc_CommonLabels := labels\<rparr>\<rparr>"

theorem project_inheritance_witness:
  "map_of (GetCommonLabels [sample_frame [(''a'', ''child'')], sample_frame [(''a'', ''root''), (''b'', ''root'')]]) ''a'' = Some ''child'' \<and>
   map_of (GetCommonLabels [sample_frame [(''a'', ''child'')], sample_frame [(''a'', ''root''), (''b'', ''root'')]]) ''b'' = Some ''root''"
  using project_inheritance [of "[sample_frame [(''a'', ''child'')], sample_frame [(''a'', ''root''), (''b'', ''root'')]]"]
  by (simp add: sample_frame_def newFrame_def noProjectConfig_def)

section \<open>Loaded projects\<close>

text \<open>
  In a loaded tree, a project whose condition holds has an entry for each of its includes whose condition holds, and each
  entry is a loaded tree; the other projects have no entry.
\<close>

definition isInclude :: "DeploymentItemConfig \<Rightarrow> bool" where
  "isInclude inc \<longleftrightarrow> ic_Include inc \<noteq> None \<or> ic_Git inc \<noteq> None"

definition active :: "project_env \<Rightarrow> ProjectFrame \<Rightarrow> DeploymentItemConfig \<Rightarrow> bool res" where
  "active E p inc = CheckConditional (pe_V E) (pf_VarsCtx p) (ic_When inc)"

definition includesComplete :: "project_env \<Rightarrow> ProjectFrame \<Rightarrow> nat \<Rightarrow> (nat \<times> 'd) list \<Rightarrow> bool" where
  "includesComplete E p n incs \<longleftrightarrow>
     (\<forall>i < n. (\<exists>b. active E p (pc_Deployments (pf_Config p) ! i) = Inr b) \<and>
        (active E p (pc_Deployments (pf_Config p) ! i) = Inr True \<and> isInclude (pc_Deployments (pf_Config p) ! i) \<longrightarrow>
           map_of incs i \<noteq> None))"

inductive loaded :: "project_env \<Rightarrow> bool \<Rightarrow> DeploymentProject \<Rightarrow> bool" for E where
  skipped: "CheckConditional (pe_V E) (pf_VarsCtx p) (pc_When (pf_Config p)) = Inr False \<Longrightarrow> loaded E False (DeploymentProject p [])"
| used: "CheckConditional (pe_V E) (pf_VarsCtx p) (pc_When (pf_Config p)) = Inr True \<Longrightarrow> (r \<Longrightarrow> pc_When (pf_Config p) = []) \<Longrightarrow>
    includesComplete E p (length (pc_Deployments (pf_Config p))) incs \<Longrightarrow> (\<And>i d. (i, d) \<in> set incs \<Longrightarrow> loaded E False d) \<Longrightarrow>
    loaded E r (DeploymentProject p incs)"

lemma loaded_parent: "loaded E r d \<Longrightarrow>
   loaded E r (case d of DeploymentProject fr incs \<Rightarrow> DeploymentProject (fr\<lparr>pf_parentProjectInclude := x\<rparr>) incs)"
  by (induction rule: loaded.induct) (auto intro!: loaded.intros simp: includesComplete_def active_def)

text \<open>What a round of the loop over the includes keeps: conditions, includes and the number of items.\<close>

definition sameItem :: "DeploymentItemConfig \<Rightarrow> DeploymentItemConfig \<Rightarrow> bool" where
  "sameItem a b \<longleftrightarrow> ic_When a = ic_When b \<and> ic_Include a = ic_Include b \<and> ic_Git a = ic_Git b"

lemma CheckWhenTrue_cases:
  assumes "CheckWhenTrue E (p # parents) = Inr x"
  shows "CheckConditional (pe_V E) (pf_VarsCtx p) (pc_When (pf_Config p)) = Inr x" "parents = [] \<Longrightarrow> pc_When (pf_Config p) = [] \<and> x"
  using assms by (auto simp: CheckWhenTrue_def CheckConditional_def IsConditionalTrue_def split: if_splits)

definition loopInv :: "project_env \<Rightarrow> nat \<Rightarrow> ProjectFrame \<Rightarrow> ProjectFrame \<times> (nat \<times> DeploymentProject) list \<Rightarrow> bool" where
  "loopInv E n p0 st \<longleftrightarrow> (case st of (p, incs) \<Rightarrow>
     pf_VarsCtx p = pf_VarsCtx p0 \<and> pc_When (pf_Config p) = pc_When (pf_Config p0) \<and>
     length (pc_Deployments (pf_Config p)) = length (pc_Deployments (pf_Config p0)) \<and>
     includesComplete E p n incs \<and> (\<forall>(i, d) \<in> set incs. loaded E False d))"

lemma includesComplete_attach:
  assumes "includesComplete E p n incs" "n < length (pc_Deployments (pf_Config p))" "inc = pc_Deployments (pf_Config p) ! n"
    "sameItem inc inc'" "active E p inc = Inr True" "attach n inc' d (p, incs) = (p', incs')"
  shows "includesComplete E p' (Suc n) incs'"
proof -
  have p': "pf_VarsCtx p' = pf_VarsCtx p" "pc_Deployments (pf_Config p') = (pc_Deployments (pf_Config p))[n := inc']"
    "incs' = incs @ [(n, case d of DeploymentProject fr incs \<Rightarrow> DeploymentProject (fr\<lparr>pf_parentProjectInclude := Some inc'\<rparr>) incs)]"
    using assms(6) by (auto simp: attach_def)
  have "active E p' inc' = Inr True" using assms(4,5) p'(1) by (simp add: active_def sameItem_def)
  moreover have "active E p' = active E p" using p'(1) by (auto simp: active_def)
  ultimately show ?thesis using assms(1-3) p'
    by (auto simp: includesComplete_def less_Suc_eq nth_list_update map_add_Some_iff map_of_append)
qed

definition loads :: "project_env \<Rightarrow> 'x loader \<Rightarrow> bool" where
  "loads E new \<longleftrightarrow> (\<forall>vars src d ps s t s'. ps \<noteq> [] \<and> new vars src d ps s = (Inr t, s') \<longrightarrow> loaded E False t)"

lemma loadLocalInclude_loaded:
  "loads E new \<Longrightarrow> loadLocalInclude new E (p # parents) src dir vars s = (Inr (t, vars'), s') \<Longrightarrow> loaded E False t"
  unfolding loads_def loadLocalInclude_def by (fastforce simp: bindM_Inr_iff run_simps)

lemma loadInclude_inv:
  assumes new: "loads E new"
    and inv: "loopInv E n p0 st" and n: "n < length (pc_Deployments (pf_Config p0))"
    and run: "loadInclude new E parents n st s = (Inr st', s')"
  shows "loopInv E (Suc n) p0 st'"
proof -
  obtain p incs where st: "st = (p, incs)" by fastforce
  let ?inc = "pc_Deployments (pf_Config p) ! n"
  obtain w where w: "active E p ?inc = Inr w"
    using run by (auto simp: loadInclude_def st active_def Let_def bindM_Inr_iff run_simps)
  note ic = inv [unfolded loopInv_def st prod.case]
  consider (skip) "st' = st" "w = False \<or> \<not> isInclude ?inc"
    | (added) d inc' where "w = True" "st' = attach n inc' d (p, incs)" "sameItem ?inc inc'" "loaded E False d"
  proof (cases "w \<and> isInclude ?inc")
    case True
    then have "\<exists>t vars' src dir s1. loadLocalInclude new E (p # parents) src dir (ic_Vars ?inc) s1 = (Inr (t, vars'), s') \<and>
      st' = attach n (?inc\<lparr>ic_Vars := vars', ic_RenderedInclude := True\<rparr>) t st"
      using run w by (cases "ic_Include ?inc"; cases "ic_Git ?inc")
        (fastforce simp: loadInclude_def st active_def isInclude_def Let_def bindM_Inr_iff run_simps)+
    then obtain t vars' where "loaded E False t" "st' = attach n (?inc\<lparr>ic_Vars := vars', ic_RenderedInclude := True\<rparr>) t st"
      using loadLocalInclude_loaded [OF new] by blast
    then show ?thesis using added True by (simp add: st sameItem_def)
  next
    case False
    then show ?thesis using run w skip
      by (auto simp: loadInclude_def st active_def isInclude_def Let_def run_simps split: if_splits)
  qed
  then show ?thesis
  proof cases
    case skip
    then have "includesComplete E p (Suc n) incs" using ic w by (auto simp: includesComplete_def less_Suc_eq)
    then show ?thesis using ic skip(1) st by (simp add: loopInv_def)
  next
    case added
    obtain p' incs' where a: "attach n inc' d (p, incs) = (p', incs')" by fastforce
    have "includesComplete E p' (Suc n) incs'"
      using includesComplete_attach [OF _ _ refl added(3) _ a] ic n w added(1) by simp
    then show ?thesis using ic a added(2,4) loaded_parent [OF added(4)] by (auto simp: loopInv_def attach_def)
  qed
qed

lemma loadIncludes_inv:
  assumes new: "loads E new"
    and run: "loadIncludes new E parents p s = (Inr st', s')"
  shows "loopInv E (length (pc_Deployments (pf_Config p))) p st'"
proof -
  have step: "loopInv E m p st'"
    if "loopInv E n p st" "forItemsM (loadInclude new E parents) [n..<m] st s = (Inr st', s')" "n \<le> m"
      "m \<le> length (pc_Deployments (pf_Config p))" for n m st s
    using that
  proof (induction "m - n" arbitrary: n st s)
    case 0
    then show ?case by (simp add: run_simps)
  next
    case (Suc k)
    then have "[n..<m] = n # [Suc n..<m]" by (simp add: upt_conv_Cons)
    then obtain st1 s1 where 1: "loadInclude new E parents n st s = (Inr st1, s1)"
      "forItemsM (loadInclude new E parents) [Suc n..<m] st1 s1 = (Inr st', s')"
      using Suc.prems(2) by (auto simp: bindM_Inr_iff)
    have "loopInv E (Suc n) p st1" using loadInclude_inv [OF new Suc.prems(1) _ 1(1)] Suc.hyps(2) Suc.prems(4) by simp
    then show ?case using Suc.hyps(1) [OF _ _ 1(2)] Suc.hyps(2) Suc.prems(4) by simp
  qed
  have "loopInv E 0 p (p, [])" by (simp add: loopInv_def includesComplete_def)
  then show ?thesis using step run unfolding loadIncludes_def by blast
qed

lemma NewDeploymentProject_loaded:
  fixes s :: "'x LoadState_scheme"
  shows "NewDeploymentProject E n vars src dir parents s = (Inr t, s') \<Longrightarrow> loaded E (parents = []) t"
proof (induction n arbitrary: vars src dir parents s t s')
  case (Suc n)
  have new: "loads E (NewDeploymentProject E n :: 'x loader)" unfolding loads_def
    by (intro allI impI, elim conjE, drule Suc.IH) simp
  have "(\<exists>p. CheckWhenTrue E (p # parents) = Inr False \<and> t = DeploymentProject p []) \<or>
    (\<exists>p p' incs s1. CheckWhenTrue E (p # parents) = Inr True \<and>
       loadIncludes (NewDeploymentProject E n) E parents p s1 = (Inr (p', incs), s') \<and> t = DeploymentProject p' incs)"
    using Suc.prems by (auto simp: bindM_Inr_iff run_simps split: if_splits)
  then show ?case
  proof (elim disjE exE conjE)
    fix p
    assume p: "CheckWhenTrue E (p # parents) = Inr False" "t = DeploymentProject p []"
    show ?case using CheckWhenTrue_cases [OF p(1)] p(2) by (cases "parents = []") (auto intro: loaded.skipped)
  next
    fix p p' incs s1
    assume p: "CheckWhenTrue E (p # parents) = Inr True" "t = DeploymentProject p' incs"
      "loadIncludes (NewDeploymentProject E n) E parents p s1 = (Inr (p', incs), s')"
    show ?case using CheckWhenTrue_cases [OF p(1)] loadIncludes_inv [OF new p(3)] p(2)
      by (auto simp: loopInv_def intro!: loaded.used)
  qed
qed (simp add: run_simps)

section \<open>An include that includes itself\<close>

text \<open>
  A project with an include of its own directory is loaded again and again: no depth is enough. The only guard against it
  would be a condition.
\<close>

definition self_env :: "project_env" where
  "self_env = \<lparr>pe_V = sample_vars_env, pe_fs = \<lparr>fs_Exists = (\<lambda>_. True), fs_IsDirectory = (\<lambda>_. True), fs_IsFile = (\<lambda>_. True), fs_Cwd = ''/''\<rparr>,
     pe_SecureJoin = (\<lambda>_ p. Inr p), pe_ReadConfig = (\<lambda>_. Inr (noProjectConfig\<lparr>pc_Deployments := [noItemConfig\<lparr>ic_Include := Some ''.''\<rparr>]\<rparr>)),
     pe_DefaultOutputPattern = []\<rparr>"

lemma self_loadConfig:
  obtains p where "\<And>s. loadConfig self_env parents fr s = (Inr p, s)" "CheckWhenTrue self_env (p # parents) = Inr True"
    "pc_Deployments (pf_Config p) = [noItemConfig\<lparr>ic_Include := Some ''.'', ic_Tags := [''.'']\<rparr>]"
proof -
  let ?it = "noItemConfig\<lparr>ic_Include := Some ''.'', ic_Tags := [''.'']\<rparr>"
  let ?p = "fr\<lparr>pf_Config := noProjectConfig\<lparr>pc_Deployments := [?it]\<rparr>\<rparr>"
  have "loadConfig self_env parents fr s = (Inr ?p, s)" for s :: "'a LoadState_scheme"
    by (simp add: loadConfig_def self_env_def sample_vars_env_def YamlExists_def FixPathExt_def RenderYamlFile_def RenderFile_def
        processConfig_def noProjectConfig_def noItemConfig_def loadVarsList_def checkNotRendered_def withDefaultTags_def Base_def
        slash_def checkDeploymentDirs_def checkDeploymentDir_def Let_def run_simps)
  then show ?thesis using that [of ?p]
    by (simp add: CheckWhenTrue_def CheckConditional_def IsConditionalTrue_def noProjectConfig_def)
qed

lemma NewDeploymentProject_self_include:
  fixes s :: "'x LoadState_scheme"
  shows "fst (NewDeploymentProject self_env n vars src dir parents s) = Inl OutOfFuel"
proof (induction n arbitrary: vars src dir parents s)
  case (Suc n)
  obtain p where p: "\<And>s. loadConfig self_env parents (newFrame vars src dir dir) s = (Inr p, s :: 'x LoadState_scheme)"
    "CheckWhenTrue self_env (p # parents) = Inr True"
    "pc_Deployments (pf_Config p) = [noItemConfig\<lparr>ic_Include := Some ''.'', ic_Tags := [''.'']\<rparr>]"
    using self_loadConfig by blast
  let ?run = "NewDeploymentProject self_env n (pf_VarsCtx p) (pf_source p) (PathJoin [pf_relDir p, ''.'']) (p # parents) s"
  have self: "pe_SecureJoin self_env (src_dir src) dir = Inr dir" "fs_IsDirectory (pe_fs self_env) dir"
    by (simp_all add: self_env_def)
  have run: "?run = (Inl OutOfFuel, snd ?run)" using Suc.IH by (metis prod.collapse)
  have "loadIncludes (NewDeploymentProject self_env n) self_env parents p s = (Inl OutOfFuel, snd ?run)"
    using run by (simp add: loadIncludes_def p(3) loadInclude_def noItemConfig_def CheckConditional_def IsConditionalTrue_def
        loadLocalInclude_def loadVarsList_def Let_def run_simps)
  then have "fst (NewDeploymentProject self_env (Suc n) vars src dir parents s) = Inl OutOfFuel"
    using p(1,2) self by (simp add: run_simps)
  then show ?case .
qed (simp add: run_simps)

end
