(* ===== verification/Deployment_Item.thy ===== *)
theory Deployment_Item
  imports Deployment_Project Images
begin

text \<open>
  Deployment items (\<^verbatim>\<open>pkg/deployment/deployment_item.go\<close>): directories, tags, labels and annotations of an item, the
  decision whether it is deployed, sealed secrets, Helm releases, the generated kustomization and the postprocessing of the
  rendered objects. What the rendered directory holds when an operation reads it is the parameter record \<open>item_files\<close>; Helm
  and kustomize are functions of it. Writing files is not modelled.
\<close>

section \<open>Parameters\<close>

text \<open>The fields of \<^verbatim>\<open>SharedContext\<close> that the item uses.\<close>

record item_env =
  ie_P :: project_env
  ie_K :: "K8sCluster option"
  ie_L :: k8s_lib
  ie_images :: images_lib
  ie_rounds :: nat
  ie_Discriminator :: string
  ie_RenderDir :: string
  ie_SealedSecretsDir :: string

record HelmRelease =
  rel_OutputPath :: string
  rel_Config :: HelmChartConfig

text \<open>
  \<open>if_ReadDir\<close> lists names with a flag for directories. \<open>if_NewRelease\<close> is \<^verbatim>\<open>helm.NewRelease\<close> with the project root, the
  directory in the project, the configuration file and the directory of charts; \<open>if_Render\<close> renders it. \<open>if_Build\<close> is the
  kustomize build of the directory with the given kustomization.
\<close>

record item_files =
  if_fs :: file_system
  if_ReadDir :: "string \<Rightarrow> (string \<times> bool) list res"
  if_ReadObject :: "string \<Rightarrow> uo res"
  if_NewRelease :: "string \<Rightarrow> string \<Rightarrow> string \<Rightarrow> string \<Rightarrow> HelmRelease res"
  if_Render :: "HelmRelease \<Rightarrow> unit res"
  if_Build :: "string \<Rightarrow> uo \<Rightarrow> uo list res"

text \<open>The directories below a directory, in the order of \<^verbatim>\<open>filepath.WalkDir\<close>.\<close>

datatype dirtree = Dirtree (dt_name: string) (dt_subdirs: "dirtree list")

section \<open>Creating an item\<close>

definition itemDirs :: "item_env \<Rightarrow> ProjectFrame \<Rightarrow> string \<Rightarrow> int \<Rightarrow> DeploymentItem \<Rightarrow> DeploymentItem res" where
  "itemDirs E p dir index di =
     bindE (Rel (src_dir (pf_source p)) dir) (\<lambda>relToSource.
     bindE (Rel (pf_relDir p) relToSource) (\<lambda>relToProject.
     let relRendered = (if index \<noteq> 0 then relToSource @ ''-'' @ show_int index else relToSource);
         sourceRoot = PathJoin [ie_RenderDir E, src_id (pf_source p)];
         rendered = PathJoin [sourceRoot, relRendered]
     in Inr (di\<lparr>di_RelToSourceItemDir := relToSource, di_RelToProjectItemDir := relToProject, di_RelRenderedDir := relRendered,
                di_RenderedSourceRootDir := sourceRoot, di_RenderedDir := rendered,
                di_renderedYamlPath := PathJoin [rendered, ''.rendered.yml'']\<rparr>)))"

definition NewDeploymentItem ::
  "item_env \<Rightarrow> ProjectFrame list \<Rightarrow> Inclusion option \<Rightarrow> DeploymentItemConfig \<Rightarrow> string option \<Rightarrow> int \<Rightarrow> ('x, DeploymentItem) peff" where
  "NewDeploymentItem E project inclusion config dir index =
     (let di = \<lparr>di_Project = project, di_Inclusion = inclusion, di_Config = config, di_VarsCtx = Clone (pf_VarsCtx (hd project)),
           di_dir = dir, di_index = index, di_Barrier = False, di_WaitReadiness = False, di_Objects = [],
           di_Tags = om_SetMultiple (ic_Tags config) True (getTags project), di_RenderedSourceRootDir = [], di_RelToSourceItemDir = [],
           di_RelToProjectItemDir = [], di_RelRenderedDir = [], di_RenderedDir = [], di_renderedYamlPath = []\<rparr>
      in bindM (lift (case dir of None \<Rightarrow> Inr di | Some d \<Rightarrow> itemDirs E (hd project) d index di)) (\<lambda>di.
         bindM (loadVarsList (ie_P E) project (di_VarsCtx di) (ic_Vars config)) (\<lambda>(vars, varsList).
         ret (di\<lparr>di_VarsCtx := vars, di_Config := config\<lparr>ic_Vars := varsList\<rparr>\<rparr>))))"

section \<open>Labels and annotations\<close>

definition tagLabels :: "string list \<Rightarrow> (string, string) gomap" where
  "tagLabels tags = map (\<lambda>i. (''kluctl.io/tag-'' @ show_nat i, tags ! i)) [0..<length tags]"

definition getCommonLabels :: "item_env \<Rightarrow> DeploymentItem \<Rightarrow> (string, string) gomap" where
  "getCommonLabels E di =
     (let l = GetCommonLabels (di_Project di);
          l = (if ie_Discriminator E \<noteq> [] then AList.update ''kluctl.io/discriminator'' (ie_Discriminator E) l else l)
      in foldl (\<lambda>l (k, v). AList.update k v l) l (tagLabels (om_ListKeys (di_Tags di))))"

definition getCommonAnnotations :: "DeploymentItem \<Rightarrow> (string, string) gomap" where
  "getCommonAnnotations di =
     (let a = AList.update ''kluctl.io/deployment-item-dir'' (di_RelToSourceItemDir di) (GetCommonAnnotations (di_Project di))
      in if ic_SkipDeleteIfTags (di_Config di) then AList.update ''kluctl.io/skip-delete-if-tags'' ''true'' a else a)"

section \<open>Inclusion\<close>

definition buildInclusionEntries :: "DeploymentItem \<Rightarrow> InclusionEntry list" where
  "buildInclusionEntries di =
     map (\<lambda>t. \<lparr>Type = ''tag'', Value = t\<rparr>) (om_ListKeys (di_Tags di)) @
     (if di_dir di \<noteq> None then [\<lparr>Type = ''deploymentItemDir'', Value = di_RelToSourceItemDir di\<rparr>] else [])"

definition CheckInclusionForDeploy :: "DeploymentItem \<Rightarrow> bool" where
  "CheckInclusionForDeploy di =
     (if di_Inclusion di = None then True
      else if ic_OnlyRender (di_Config di) then True
      else if ic_AlwaysDeploy (di_Config di) then True
      else if ic_Barrier (di_Config di) then True
      else CheckIncluded (di_Inclusion di) (buildInclusionEntries di) False)"

section \<open>Rendering of templates\<close>

text \<open>Directories with a chart are excluded and not visited further; \<open>rel\<close> is the path relative to the item.\<close>

function chartPatterns :: "file_system \<Rightarrow> string \<Rightarrow> string \<Rightarrow> dirtree \<Rightarrow> string list" where
  "chartPatterns fs dir rel t =
     (if YamlExists fs (PathJoin [dir, rel, ''Chart.yaml'']) then [rel @ ''/**'']
      else concat (map (\<lambda>c. chartPatterns fs dir (PathJoin [rel, dt_name c]) c) (dt_subdirs t)))"
  by pat_completeness auto
termination
proof (relation "measure (\<lambda>(_, _, _, t). size t)")
  show "((fs, dir, r', c), (fs, dir, r, t)) \<in> measure (\<lambda>(_, _, _, t). size t)" if "c \<in> set (dt_subdirs t)" for fs dir r r' c t
    using that by (cases t) (auto simp: less_Suc_eq_le intro: size_list_estimation')
qed simp

text \<open>What \<^verbatim>\<open>RenderDirectory\<close> is called with: source and target directory, excluded patterns, search directories, root of ignore files.\<close>

definition render :: "item_env \<Rightarrow> (string \<Rightarrow> dirtree) \<Rightarrow> bool \<Rightarrow> DeploymentItem \<Rightarrow>
    (string \<times> string \<times> string list \<times> string list \<times> string) option" where
  "render E walk forSeal di =
     (case di_dir di of
        None \<Rightarrow> None
      | Some dir \<Rightarrow>
          let project = hd (di_Project di) in
          Some (PathJoin [src_dir (pf_source project), di_RelToSourceItemDir di], di_RenderedDir di,
            [''**/.git''] @ chartPatterns (pe_fs (ie_P E)) dir ''.'' (walk dir) @ (if forSeal then [] else [''**.sealme'']),
            dir # getRenderSearchDirs (di_Project di), src_dir (pf_source project)))"

section \<open>Kustomizations and Helm releases\<close>

definition SplitFile :: "string \<Rightarrow> string" where
  "SplitFile p = last (SplitChar p slash)"

definition isHelmChartYaml :: "string \<Rightarrow> bool" where
  "isHelmChartYaml p \<longleftrightarrow> (let file = ToLower (SplitFile p) in file = ''helm-chart.yml'' \<or> file = ''helm-chart.yaml'')"

definition isHelmValuesYaml :: "string \<Rightarrow> bool" where
  "isHelmValuesYaml p \<longleftrightarrow> (let file = ToLower (SplitFile p) in file = ''helm-values.yml'' \<or> file = ''helm-values.yaml'')"

definition newHelmRelease :: "item_files \<Rightarrow> DeploymentItem \<Rightarrow> string \<Rightarrow> HelmRelease res" where
  "newHelmRelease F di subDir =
     (let project = hd (di_Project di); rootProject = getRootProject (di_Project di);
          configPath = FixPathExt (if_fs F) (PathJoin [di_RenderedDir di, subDir, ''helm-chart.yaml'']);
          helmChartsDir = (if pf_source project = pf_source rootProject
            then PathJoin [src_dir (pf_source project), pf_relDir rootProject, ''.helm-charts'']
            else PathJoin [src_dir (pf_source project), ''.helm-charts''])
      in if_NewRelease F (src_dir (pf_source project)) (PathJoin [di_RelToSourceItemDir di, subDir]) configPath helmChartsDir)"

definition kustomizationPath :: "item_files \<Rightarrow> DeploymentItem \<Rightarrow> string \<Rightarrow> string" where
  "kustomizationPath F di subDir = FixPathExt (if_fs F) (PathJoin [di_RenderedDir di, subDir, ''kustomization.yml''])"

definition readKustomizationYaml :: "item_files \<Rightarrow> DeploymentItem \<Rightarrow> string \<Rightarrow> uo option res" where
  "readKustomizationYaml F di subDir =
     (if di_dir di = None then Inr None
      else if \<not> fs_IsFile (if_fs F) (kustomizationPath F di subDir) then Inr None
      else bindE (if_ReadObject F (kustomizationPath F di subDir)) (\<lambda>ky. Inr (Some ky)))"

definition SealmeExt :: string where
  "SealmeExt = ''.sealme''"

text \<open>The resource that a file of the directory contributes; \<open>[]\<close> for none.\<close>

definition resourceOf :: "item_files \<Rightarrow> DeploymentItem \<Rightarrow> string \<Rightarrow> string \<Rightarrow> string res" where
  "resourceOf F di subDir name =
     (let lname = ToLower name in
      if isHelmValuesYaml name then Inr []
      else if isHelmChartYaml name then
        bindE (newHelmRelease F di subDir) (\<lambda>hr.
        Inr (if fs_IsFile (if_fs F) (PathJoin [di_RenderedDir di, subDir, rel_OutputPath hr]) then [] else rel_OutputPath hr))
      else if HasSuffix lname ''.yml'' \<or> HasSuffix lname ''.yaml'' then Inr name
      else if HasSuffix lname (''.yml'' @ SealmeExt) \<or> HasSuffix lname (''.yaml'' @ SealmeExt) then
        Inr (take (length name - length SealmeExt) name)
      else Inr [])"

definition addResource :: "item_files \<Rightarrow> DeploymentItem \<Rightarrow> string \<Rightarrow> string \<times> bool \<Rightarrow> string list \<Rightarrow> string list res" where
  "addResource F di subDir de l =
     (if snd de then Inr l
      else bindE (resourceOf F di subDir (fst de)) (\<lambda>resourcePath.
        if resourcePath = [] then Inr l
        else let r = Clean resourcePath in Inr (if r \<in> set l then l else l @ [r])))"

definition generateKustomizationYaml :: "item_files \<Rightarrow> DeploymentItem \<Rightarrow> string \<Rightarrow> uo option res" where
  "generateKustomizationYaml F di subDir =
     (if fs_IsFile (if_fs F) (kustomizationPath F di subDir) then Inr None
      else bindE (if_ReadDir F (PathJoin [di_RenderedDir di, subDir])) (\<lambda>des.
        bindE (foldE (addResource F di subDir) des []) (\<lambda>l.
        Inr (Some (fst (SetNestedField (VList (map VStr l)) [KStr ''resources''] New))))))"

definition renderHelmChart :: "item_files \<Rightarrow> string \<Rightarrow> DeploymentItem \<Rightarrow> DeploymentItem res" where
  "renderHelmChart F p di =
     (if \<not> isHelmChartYaml p then Inr di
      else
        bindE (Rel (di_RenderedDir di) (Dir p)) (\<lambda>subDir.
        bindE (newHelmRelease F di subDir) (\<lambda>hr.
        bindE (case readKustomizationYaml F di subDir of
             Inr (Some ky) \<Rightarrow>
               (case noErr None (GetNestedStringList [KStr ''resources''] ky) of
                  Some resources \<Rightarrow> if rel_OutputPath hr \<in> set resources then Inr ()
                    else Inl (Error (di_RelRenderedDir di @ ''/kustomization.yaml does not include the rendered helm chart: '' @ rel_OutputPath hr))
                | None \<Rightarrow> Inl (Error (di_RelRenderedDir di @ ''/kustomization.yaml does not include the rendered helm chart: '' @ rel_OutputPath hr)))
           | Inl (Panic e) \<Rightarrow> Inl (Panic e)
           | _ \<Rightarrow> Inr ()) (\<lambda>_.
        bindE (if_Render F hr) (\<lambda>_. Inr (di\<lparr>di_Config := (di_Config di)\<lparr>ic_RenderedHelmChartConfig := Some (rel_Config hr)\<rparr>\<rparr>))))))"

text \<open>\<open>files\<close> are the paths that \<^verbatim>\<open>filepath.Walk\<close> visits in the rendered directory.\<close>

definition renderHelmCharts :: "item_files \<Rightarrow> string list \<Rightarrow> DeploymentItem \<Rightarrow> DeploymentItem res" where
  "renderHelmCharts F files di = (if di_dir di = None then Inr di else foldE (renderHelmChart F) files di)"

section \<open>Sealed secrets\<close>

definition optErr :: "go_error option \<Rightarrow> unit res" where
  "optErr e = (case e of None \<Rightarrow> Inr () | Some x \<Rightarrow> Inl x)"

text \<open>\<open>list\<close> is the recursive call for a directory.\<close>

definition sealedOfResource :: "(string \<Rightarrow> string list res) \<Rightarrow> item_files \<Rightarrow> DeploymentItem \<Rightarrow> string \<Rightarrow> string \<Rightarrow> string list res" where
  "sealedOfResource list F di renderedDir resource =
     (let p = Clean (PathJoin [renderedDir, resource]);
          isDir = fs_IsDirectory (if_fs F) p;
          isSealedSecret = (\<not> fs_Exists (if_fs F) p \<and> fs_Exists (if_fs F) (p @ SealmeExt))
      in if \<not> isDir \<and> \<not> isSealedSecret then Inr []
         else
           bindE (Rel (di_RenderedDir di) p) (\<lambda>relPath.
           let relPath = Clean relPath in
           bindE (optErr (CheckSubInDir (if_fs F) (src_dir (pf_source (hd (di_Project di)))) relPath)) (\<lambda>_.
           if isDir then list relPath else Inr [relPath])))"

text \<open>The number bounds the depth of the directories visited: a kustomization may name its own directory.\<close>

primrec ListSealedSecrets :: "item_files \<Rightarrow> DeploymentItem \<Rightarrow> nat \<Rightarrow> string \<Rightarrow> string list res" where
  "ListSealedSecrets F di 0 = (\<lambda>_. Inl OutOfFuel)"
| "ListSealedSecrets F di (Suc n) = (\<lambda>subdir.
     if di_dir di = None then Inr []
     else
       bindE (optErr (CheckSubInDir (if_fs F) (src_dir (pf_source (hd (di_Project di)))) subdir)) (\<lambda>_.
       bindE (readKustomizationYaml F di subdir) (\<lambda>y.
       bindE (case y of Some ky \<Rightarrow> Inr (Some ky) | None \<Rightarrow> generateKustomizationYaml F di subdir) (\<lambda>y.
       case y of
         None \<Rightarrow> Inl (Panic ''nil pointer dereference'')
       | Some ky \<Rightarrow>
           bindE (GetNestedStringList [KStr ''resources''] ky) (\<lambda>resources.
           bindE (mapE (sealedOfResource (ListSealedSecrets F di n) F di (PathJoin [di_RenderedDir di, subdir]))
             (case resources of None \<Rightarrow> [] | Some l \<Rightarrow> l)) (\<lambda>ls. Inr (concat ls)))))))"

definition BuildSealedSecretPath :: "item_env \<Rightarrow> DeploymentItem \<Rightarrow> string \<Rightarrow> string res" where
  "BuildSealedSecretPath E di relPath =
     (let sealedSecretsDir = getRenderedOutputPattern (ie_P E) (di_Project di);
          baseSourcePath = ie_SealedSecretsDir E;
          sourcePath = PathJoin [baseSourcePath, di_RelRenderedDir di, Dir relPath, sealedSecretsDir, Base relPath]
      in bindE (optErr (CheckInDir (pe_fs (ie_P E)) baseSourcePath sourcePath)) (\<lambda>_. Inr (Clean sourcePath)))"

text \<open>The file that is copied for a sealed secret: source and target.\<close>

definition resolveSealedSecret :: "item_env \<Rightarrow> DeploymentItem \<Rightarrow> string \<Rightarrow> (string \<times> string) res" where
  "resolveSealedSecret E di relPath =
     bindE (wrapE (''failed to resolve SealedSecret '' @ relPath @ '': '') (BuildSealedSecretPath E di relPath)) (\<lambda>sourcePath.
     if \<not> fs_IsFile (pe_fs (ie_P E)) sourcePath then
       Inl (Error (''failed to resolve SealedSecret '' @ relPath @ ''. '' @ sourcePath @ '' not found. You might need to seal it first''))
     else Inr (sourcePath, PathJoin [di_RenderedDir di, Dir relPath, Base relPath]))"

definition resolveSealedSecrets :: "item_env \<Rightarrow> item_files \<Rightarrow> nat \<Rightarrow> DeploymentItem \<Rightarrow> (string \<times> string) list res" where
  "resolveSealedSecrets E F n di =
     (if di_dir di = None then Inr []
      else bindE (ListSealedSecrets F di n []) (mapE (resolveSealedSecret E di)))"

section \<open>Building the objects\<close>

definition prepareKustomizationYaml :: "item_files \<Rightarrow> DeploymentItem \<Rightarrow> (uo \<times> DeploymentItem) res" where
  "prepareKustomizationYaml F di =
     bindE (readKustomizationYaml F di []) (\<lambda>y.
     bindE (case y of Some ky \<Rightarrow> Inr (Some ky) | None \<Rightarrow> generateKustomizationYaml F di []) (\<lambda>y.
     case y of
       None \<Rightarrow> Inl (Panic ''nil pointer dereference'')
     | Some ky \<Rightarrow>
         bindE (case getOverrideNamespace (di_Project di) of
             None \<Rightarrow> Inr ky
           | Some ns \<Rightarrow>
               bindE (GetNestedString [KStr ''namespace''] ky) (\<lambda>old.
               Inr (if old = None then fst (SetNestedField (VStr ns) [KStr ''namespace''] ky) else ky))) (\<lambda>ky.
         bindE (GetK8sAnnotation ''kluctl.io/barrier'' ky) (\<lambda>barrier.
         bindE (GetK8sAnnotation ''kluctl.io/wait-readiness'' ky) (\<lambda>waitReadiness.
         Inr (ky, di\<lparr>di_Barrier := ParseBoolOrFalse barrier, di_WaitReadiness := ParseBoolOrFalse waitReadiness\<rparr>))))))"

definition buildKustomize :: "k8s_lib \<Rightarrow> item_files \<Rightarrow> DeploymentItem \<Rightarrow> DeploymentItem res" where
  "buildKustomize L F di =
     (if di_dir di = None then Inr di
      else if ic_OnlyRender (di_Config di) then Inr di
      else
        bindE (prepareKustomizationYaml F di) (\<lambda>(ky, di).
        bindE (if_Build F (di_RenderedDir di) ky) (\<lambda>objects.
        bindE (mapE (GetK8sRef L) objects) (\<lambda>refs.
        Inr (di\<lparr>di_Objects := objects,
                di_Config := (di_Config di)\<lparr>ic_RenderedObjects := ic_RenderedObjects (di_Config di) @ refs\<rparr>\<rparr>)))))"

text \<open>Labels and annotations of one object, in the order in which the maps are visited.\<close>

definition setLabelsAnnotations :: "(string, string) gomap \<Rightarrow> (string, string) gomap \<Rightarrow> uo \<Rightarrow> uo res" where
  "setLabelsAnnotations labels annotations ob =
     bindE (foldE (\<lambda>(n, v) ob. SetK8sLabel n v ob) labels ob) (foldE (\<lambda>(n, v) ob. SetK8sAnnotation n v ob) annotations)"

text \<open>An error of the callback is collected, a panic is not. An object whose placeholders fail to resolve stays as it is.\<close>

definition tryM :: "'a \<Rightarrow> ('s, 'a) eff \<Rightarrow> ('s, 'a \<times> string list) eff" where
  "tryM d m s = (case m s of (Inl (Error e), s') \<Rightarrow> (Inr (d, [e]), s') | (Inl e, s') \<Rightarrow> (Inl e, s') | (Inr x, s') \<Rightarrow> (Inr (x, []), s'))"

definition postprocessObject :: "item_env \<Rightarrow> DeploymentItem \<Rightarrow> uo \<Rightarrow> (uo \<times> string list) ieff" where
  "postprocessObject E di ob =
     bindM (case ie_K E of None \<Rightarrow> ret ob | Some k \<Rightarrow> FixNamespace k ob ''default'') (\<lambda>ob.
     bindM (lift (setLabelsAnnotations (getCommonLabels E di) (getCommonAnnotations di) ob)) (\<lambda>ob.
     tryM ob (ResolvePlaceholders (ie_images E) (ie_rounds E) (ie_L E) (ie_K E) ob (di_RelRenderedDir di) (om_ListKeys (di_Tags di)) (di_VarsCtx di))))"

text \<open>A list is processed itself and then each of its items; an error of \<^verbatim>\<open>UnwrapListItems\<close> is dropped.\<close>

definition postprocessUnwrapped :: "item_env \<Rightarrow> DeploymentItem \<Rightarrow> uo \<Rightarrow> (uo \<times> string list) ieff" where
  "postprocessUnwrapped E di ob =
     bindM (lift (GetK8sGVK (ie_L E) ob)) (\<lambda>g.
     bindM (postprocessObject E di ob) (\<lambda>(ob, errs).
     if g = ([], ''v1'', ''List'') then
       (case GetNestedObjectList [KStr ''items''] ob of
          Inr (Some items) \<Rightarrow>
            bindM (mapM (postprocessObject E di) items) (\<lambda>rs.
            ret (AList.update ''items'' (VList (map (VMap \<circ> fst) rs)) ob, errs @ concat (map snd rs)))
        | _ \<Rightarrow> ret (ob, errs))
     else ret (ob, errs)))"

definition postprocessObjects :: "item_env \<Rightarrow> DeploymentItem \<Rightarrow> DeploymentItem ieff" where
  "postprocessObjects E di =
     (if di_dir di = None then ret di
      else bindM (mapM (postprocessUnwrapped E di) (di_Objects di)) (\<lambda>rs.
        if concat (map snd rs) \<noteq> [] then throw (Error (Join (concat (map snd rs)) ''; ''))
        else ret (di\<lparr>di_Objects := map fst rs\<rparr>)))"

section \<open>Labels of the objects\<close>

lemma map_of_updates:
  "map_of (foldl (\<lambda>l (k, v). AList.update k v l) l xs) k = (case map_of (rev xs) k of Some v \<Rightarrow> Some v | None \<Rightarrow> map_of l k)"
  by (induction xs rule: rev_induct) (auto split: option.splits)

lemma wf_updates: "wf_map l \<Longrightarrow> wf_map (foldl (\<lambda>l (k, v). AList.update k v l) l xs)"
  by (induction xs arbitrary: l) auto

lemma tagLabels_keys: "k \<in> fst ` set (tagLabels tags) \<Longrightarrow> \<exists>i. k = ''kluctl.io/tag-'' @ show_nat i"
  by (auto simp: tagLabels_def)

lemma map_of_tagLabels: "i < length tags \<Longrightarrow> map_of (rev (tagLabels tags)) (''kluctl.io/tag-'' @ show_nat i) = Some (tags ! i)"
proof -
  assume i: "i < length tags"
  have "distinct (map fst (rev (tagLabels tags)))"
    by (simp add: tagLabels_def rev_map [symmetric] distinct_map inj_on_def comp_def show_nat_inj)
  moreover have "(''kluctl.io/tag-'' @ show_nat i, tags ! i) \<in> set (rev (tagLabels tags))" using i by (auto simp: tagLabels_def)
  ultimately show ?thesis by (rule map_of_is_SomeI)
qed

lemma getCommonLabels_values:
  shows "ie_Discriminator E \<noteq> [] \<Longrightarrow> map_of (getCommonLabels E di) ''kluctl.io/discriminator'' = Some (ie_Discriminator E)"
    and "i < length (om_ListKeys (di_Tags di)) \<Longrightarrow>
      map_of (getCommonLabels E di) (''kluctl.io/tag-'' @ show_nat i) = Some (om_ListKeys (di_Tags di) ! i)"
proof -
  have "map_of (rev (tagLabels tags)) ''kluctl.io/discriminator'' = None" for tags
    using tagLabels_keys [of "''kluctl.io/discriminator''" tags] by (force simp: map_of_eq_None_iff)
  then show "ie_Discriminator E \<noteq> [] \<Longrightarrow> map_of (getCommonLabels E di) ''kluctl.io/discriminator'' = Some (ie_Discriminator E)"
    by (simp add: getCommonLabels_def Let_def map_of_updates)
  show "i < length (om_ListKeys (di_Tags di)) \<Longrightarrow>
      map_of (getCommonLabels E di) (''kluctl.io/tag-'' @ show_nat i) = Some (om_ListKeys (di_Tags di) ! i)"
    using map_of_tagLabels unfolding getCommonLabels_def Let_def map_of_updates by simp
qed

lemma wf_foldl_MergeStrMap: "wf_map a \<Longrightarrow> wf_map (foldl (\<lambda>r d. MergeStrMap r (g d)) a ds)"
  by (induction ds arbitrary: a) simp_all

lemma wf_getCommon: "wf_map (getCommonLabels E di)" "wf_map (getCommonAnnotations di)"
  by (auto simp: getCommonLabels_def getCommonAnnotations_def GetCommonLabels_def GetCommonAnnotations_def Let_def
      intro!: wf_updates wf_map_update wf_foldl_MergeStrMap simp del: wf_map_update)

text \<open>Writing labels and then annotations is writing below two diverging paths.\<close>

definition strings :: "(string, string) gomap \<Rightarrow> (key \<times> val) list" where
  "strings m = map (\<lambda>(k, v). (KStr k, VStr v)) m"

lemma distinct_strings: "wf_map m \<Longrightarrow> distinct (map fst (strings m))"
  by (induction m) (auto simp: strings_def image_iff)

lemma strings_member: "map_of m k = Some v \<Longrightarrow> (KStr k, VStr v) \<in> set (strings m)"
  by (force simp: strings_def dest: map_of_SomeD)

lemma foldE_put_all:
  assumes "\<And>k v ob. put k v ob = mustSet (SetNestedField (VStr v) (p @ [KStr k]) ob)"
  shows "foldE (\<lambda>(n, v) ob. put n v ob) m ob = mustSet (nested.put_all p (strings m) ob)"
  by (induction m arbitrary: ob)
    (auto simp: strings_def assms mustSet_def split: prod.splits option.splits go_error.splits)

lemma setLabelsAnnotations_spec:
  assumes "setLabelsAnnotations labels annotations ob = Inr ob'" "wf_map labels" "wf_map annotations"
  shows "map_of labels k = Some v \<Longrightarrow> GetNestedField [KStr ''metadata'', KStr ''labels'', KStr k] ob' = Inr (Some (VStr v))"
    and "map_of annotations k = Some v \<Longrightarrow> GetNestedField [KStr ''metadata'', KStr ''annotations'', KStr k] ob' = Inr (Some (VStr v))"
proof -
  let ?l = "[KStr ''metadata'', KStr ''labels'']" and ?a = "[KStr ''metadata'', KStr ''annotations'']"
  have "foldE (\<lambda>(n, v) ob. SetK8sLabel n v ob) labels o1 = mustSet (nested.put_all ?l (strings labels) o1)"
    "foldE (\<lambda>(n, v) ob. SetK8sAnnotation n v ob) annotations o1 = mustSet (nested.put_all ?a (strings annotations) o1)" for o1
    by (rule foldE_put_all, simp add: SetK8sLabel_def SetK8sAnnotation_def)+
  then obtain ob1 where 1: "nested.put_all ?l (strings labels) ob = (ob1, None)" "nested.put_all ?a (strings annotations) ob1 = (ob', None)"
    using assms(1) by (auto simp: setLabelsAnnotations_def bindE_Inr_iff)
  show "GetNestedField [KStr ''metadata'', KStr ''labels'', KStr k] ob' = Inr (Some (VStr v))" if "map_of labels k = Some v"
  proof -
    have "GetNestedField (?l @ [KStr k]) ob1 = Inr (Some (VStr v))"
      using nested.put_all_get [of ?l "strings labels" ob] 1(1) distinct_strings [OF assms(2)] strings_member [OF that] by simp
    then show ?thesis
      using nested.put_all_frame [of "strings annotations" ?a "[KStr ''metadata'', KStr ''labels'', KStr k]" ob1 "VStr v"] 1(2) by simp
  qed
  show "GetNestedField [KStr ''metadata'', KStr ''annotations'', KStr k] ob' = Inr (Some (VStr v))" if "map_of annotations k = Some v"
    using nested.put_all_get [of ?a "strings annotations" ob1] 1(2) distinct_strings [OF assms(3)] strings_member [OF that] by simp
qed

lemma diverge_below: "diverge p [k] \<Longrightarrow> diverge p (k # q)"
  by (cases p) (auto split: if_splits)

lemma resolveLoop_frame:
  assumes "resolveLoop X k ref deployment dir tags vars remote phs ob s = (Inr ob', s')" "list_all (\<lambda>ph. diverge (ph_FieldPath ph) q) phs"
  shows "GetNestedField q ob' = Inr (Some w) \<longleftrightarrow> GetNestedField q ob = Inr (Some w)"
  using assms
proof (induction phs arbitrary: remote ob s)
  case (Cons ph phs)
  obtain r x s1 where x: "(case x of None \<Rightarrow> throw (Error (''failed to find fixed image for '' @ ph_Image ph))
     | Some img \<Rightarrow>
         (case SetNestedField (VStr (replacedValue ph img)) (ph_FieldPath ph) ob of
            (_, Some e) \<Rightarrow> throw e
          | (ob', None) \<Rightarrow> resolveLoop X k ref deployment dir tags vars (Some r) phs ob')) s1 = (Inr ob', s')"
    using Cons.prems(1) unfolding resolveLoop.simps bindM_Inr_iff by blast
  then obtain img where img: "x = Some img" by (cases x) (simp_all add: run_simps)
  obtain ob1 where 1: "SetNestedField (VStr (replacedValue ph img)) (ph_FieldPath ph) ob = (ob1, None)"
    "resolveLoop X k ref deployment dir tags vars (Some r) phs ob1 s1 = (Inr ob', s')"
    using x by (cases "SetNestedField (VStr (replacedValue ph img)) (ph_FieldPath ph) ob"; cases "snd (SetNestedField (VStr (replacedValue ph img)) (ph_FieldPath ph) ob)")
      (simp_all add: img run_simps)
  then show ?case
    using Cons.IH [OF 1(2)] Cons.prems(2) nested.get_put_diverge [of "ph_FieldPath ph" q "VStr (replacedValue ph img)" ob w] by simp
qed (simp add: run_simps)


definition plain_item :: "string list \<Rightarrow> DeploymentItem" where
  "plain_item tags = \<lparr>di_Project = [sample_frame []], di_Inclusion = None, di_Config = noItemConfig, di_VarsCtx = [], di_dir = Some ''/p/a'',
     di_index = 0, di_Barrier = False, di_WaitReadiness = False, di_Objects = [], di_Tags = om_SetMultiple tags True om_new,
     di_RenderedSourceRootDir = ''/r/0'', di_RelToSourceItemDir = ''a'', di_RelToProjectItemDir = ''a'', di_RelRenderedDir = ''a'',
     di_RenderedDir = ''/r/0/a'', di_renderedYamlPath = ''/r/0/a/.rendered.yml''\<rparr>"

definition plain_env :: item_env where
  "plain_env = \<lparr>ie_P = self_env, ie_K = None, ie_L = sample_lib, ie_images = sample_images_lib, ie_rounds = 2, ie_Discriminator = ''disc'',
     ie_RenderDir = ''/r'', ie_SealedSecretsDir = ''/s''\<rparr>"


section \<open>Directories of rendered items\<close>

text \<open>
  The second item of directory \<^verbatim>\<open>a\<close> (number 1) and the first item of directory \<^verbatim>\<open>a-1\<close> (number 0) are rendered into the
  same directory.
\<close>

lemma itemDirs_collision:
  "\<exists>x y. itemDirs E (newFrame [] \<lparr>src_id = ''0'', src_dir = ''/p''\<rparr> ''.'' ''/p'') ''/p/a'' 1 di = Inr x \<and>
     itemDirs E (newFrame [] \<lparr>src_id = ''0'', src_dir = ''/p''\<rparr> ''.'' ''/p'') ''/p/a-1'' 0 di = Inr y \<and> di_RenderedDir x = di_RenderedDir y"
proof -
  have "Rel ''/p'' ''/p/a'' = Inr ''a''" "Rel ''/p'' ''/p/a-1'' = Inr ''a-1''" "Rel ''.'' ''a'' = Inr ''a''" "Rel ''.'' ''a-1'' = Inr ''a-1''"
    "show_int 1 = ''1''"
    by code_simp+
  then show ?thesis by (simp add: itemDirs_def newFrame_def Let_def)
qed

section \<open>Kustomizations and sealed secrets\<close>

lemma addResource_distinct: "addResource F di subDir de l = Inr l' \<Longrightarrow> distinct l \<Longrightarrow> distinct l'"
  by (auto simp: addResource_def bindE_Inr_iff Let_def split: if_splits)

lemma generateKustomizationYaml_distinct:
  assumes "generateKustomizationYaml F di subDir = Inr (Some ky)"
  shows "\<exists>l. GetNestedStringList [KStr ''resources''] ky = Inr (Some l) \<and> distinct l"
proof -
  obtain des l where l: "foldE (addResource F di subDir) des [] = Inr l" "ky = fst (SetNestedField (VList (map VStr l)) [KStr ''resources''] New)"
    using assms by (auto simp: generateKustomizationYaml_def bindE_Inr_iff split: if_splits)
  have "distinct l" using foldE_invariant [where I = distinct, OF addResource_distinct _ l(1)] by simp
  moreover have "mapE (\<lambda>x. case x of VStr s \<Rightarrow> Inr s | _ \<Rightarrow> Inl (Error ''value is not a slice of strings'')) (map VStr l) = Inr l"
    by (induction l) simp_all
  ultimately show ?thesis using l(2)
    by (simp add: SetNestedField_1 GetNestedStringList_def GetNestedList_def GetNestedField_def child_simps New_def)
qed

text \<open>A sealed secret is read from the directory of sealed secrets.\<close>

lemma BuildSealedSecretPath_inside:
  "BuildSealedSecretPath E di relPath = Inr p \<Longrightarrow>
     \<exists>q. p = Clean q \<and> CheckInDir (pe_fs (ie_P E)) (ie_SealedSecretsDir E) q = None"
  by (auto simp: BuildSealedSecretPath_def Let_def bindE_Inr_iff optErr_def split: option.splits)

text \<open>A kustomization that names its own directory as a resource is followed again and again: no depth is enough.\<close>

definition self_files :: item_files where
  "self_files = \<lparr>if_fs = pe_fs self_env, if_ReadDir = (\<lambda>_. Inr []), if_ReadObject = (\<lambda>_. Inr [(''resources'', VList [VStr ''.''])]),
     if_NewRelease = (\<lambda>_ _ _ _. Inl (Error ''unused'')), if_Render = (\<lambda>_. Inr ()), if_Build = (\<lambda>_ _. Inr [])\<rparr>"

lemma ListSealedSecrets_self:
  "sub = [] \<or> sub = ''.'' \<Longrightarrow> ListSealedSecrets self_files (plain_item []) n sub = Inl OutOfFuel"
proof (induction n arbitrary: sub)
  case (Suc n)
  let ?di = "plain_item []"
  have c: "CheckSubInDir (if_fs self_files) (src_dir (pf_source (hd (di_Project ?di)))) sub = None"
    "PathJoin [di_RenderedDir ?di, sub] = ''/r/0/a''" "di_dir ?di \<noteq> None"
    "readKustomizationYaml self_files ?di sub = Inr (Some [(''resources'', VList [VStr ''.''])])"
    "GetNestedStringList [KStr ''resources''] [(''resources'', VList [VStr ''.''])] = Inr (Some [''.''])"
    using Suc.prems by (elim disjE; hypsubst; code_simp)+
  have "sealedOfResource (ListSealedSecrets self_files ?di n) self_files ?di ''/r/0/a'' ''.'' = ListSealedSecrets self_files ?di n ''.''"
  proof -
    have "Clean (PathJoin [''/r/0/a'', ''.'']) = ''/r/0/a''" "Rel (di_RenderedDir ?di) ''/r/0/a'' = Inr ''.''" "Clean ''.'' = ''.''"
      "CheckSubInDir (if_fs self_files) (src_dir (pf_source (hd (di_Project ?di)))) ''.'' = None" "fs_IsDirectory (if_fs self_files) ''/r/0/a''"
      by code_simp+
    then show ?thesis by (simp add: sealedOfResource_def Let_def optErr_def)
  qed
  then show ?case using c Suc.IH [of "''.''"] by (simp add: optErr_def)
qed simp

end
