(* ===== verification/Deployment_Collection.thy ===== *)
theory Deployment_Collection
  imports Deployment_Item
begin

text \<open>
  The collection of all deployment items of a project (\<^verbatim>\<open>pkg/deployment/deployment_collection.go\<close>): walking the tree of
  projects, numbering items that use the same directory, barriers, the stages that prepare the objects, and what commands ask
  of the result. The map of indexes is passed along explicitly, as the code passes it.
\<close>

section \<open>Collecting items\<close>

type_synonym indexes = "(string, int) gomap"

type_synonym 'x collector = "ProjectFrame list \<Rightarrow> indexes \<Rightarrow> ('x, DeploymentItem list \<times> indexes) peff"

definition mustM :: "('s, 'a) eff \<Rightarrow> ('s, 'a) eff" where
  "mustM m s = (case m s of (r, s') \<Rightarrow> (must r, s'))"

definition createBarrierDummy :: "item_env \<Rightarrow> Inclusion option \<Rightarrow> ProjectFrame list \<Rightarrow> ('x, DeploymentItem) peff" where
  "createBarrierDummy E inclusion project = mustM (NewDeploymentItem E project inclusion (noItemConfig\<lparr>ic_Barrier := True\<rparr>) None 0)"

definition findDeploymentItemIndex :: "file_system \<Rightarrow> ProjectFrame \<Rightarrow> string option \<Rightarrow> indexes \<Rightarrow> int \<times> string option \<times> indexes" where
  "findDeploymentItemIndex fs project pth indexes =
     (case pth of
        None \<Rightarrow> (0, None, indexes)
      | Some p \<Rightarrow>
          let absDir = Abs fs (PathJoin [pf_absDir project, p]);
              indexes = (if map_of indexes absDir = None then AList.update absDir 0 indexes else indexes);
              index = (case map_of indexes absDir of None \<Rightarrow> 0 | Some i \<Rightarrow> i)
          in (index, Some absDir, AList.update absDir (index + 1) indexes))"

text \<open>One round of the loop over the items; \<open>subs\<close> holds the recursive calls for the included projects.\<close>

definition collectItem :: "item_env \<Rightarrow> Inclusion option \<Rightarrow> ProjectFrame list \<Rightarrow> (nat \<times> 'x collector) list \<Rightarrow> nat \<Rightarrow>
    DeploymentItem list \<times> indexes \<Rightarrow> ('x, DeploymentItem list \<times> indexes) peff" where
  "collectItem E inclusion project subs i st =
     (let p = hd project; diConfig = pc_Deployments (pf_Config p) ! i in
      bindM (lift (CheckConditional (pe_V (ie_P E)) (pf_VarsCtx p) (ic_When diConfig))) (\<lambda>whenTrue.
      if \<not> whenTrue then ret st
      else if ic_Include diConfig \<noteq> None \<or> ic_Git diConfig \<noteq> None then
        (case map_of subs i of
           None \<Rightarrow> throw (Panic (''Did not find find index '' @ show_nat i @ '' in project.includes''))
         | Some collect \<Rightarrow>
             bindM (collect project (snd st)) (\<lambda>(ret2, indexes).
             if ic_Barrier diConfig then
               bindM (createBarrierDummy E inclusion project) (\<lambda>b. ret (fst st @ ret2 @ [b], indexes))
             else ret (fst st @ ret2, indexes)))
      else
        (case findDeploymentItemIndex (pe_fs (ie_P E)) p (ic_Path diConfig) (snd st) of (index, dir2, indexes) \<Rightarrow>
           bindM (NewDeploymentItem E project inclusion diConfig dir2 index) (\<lambda>di. ret (fst st @ [di], indexes)))))"

primrec collectAllDeployments :: "item_env \<Rightarrow> Inclusion option \<Rightarrow> DeploymentProject \<Rightarrow> 'x collector" where
  "collectAllDeployments E inclusion (DeploymentProject p incs) = (\<lambda>parents indexes.
     bindM (lift (CheckWhenTrue (ie_P E) (p # parents))) (\<lambda>x.
     if \<not> x then ret ([], indexes)
     else forItemsM (collectItem E inclusion (p # parents) (map (map_prod id (collectAllDeployments E inclusion)) incs))
            [0..<length (pc_Deployments (pf_Config p))] ([], indexes)))"

record DeploymentCollection =
  dc_Project :: DeploymentProject
  dc_Inclusion :: "Inclusion option"
  dc_forSeal :: bool
  dc_Deployments :: "DeploymentItem list"

definition NewDeploymentCollection :: "item_env \<Rightarrow> DeploymentProject \<Rightarrow> Inclusion option \<Rightarrow> bool \<Rightarrow> ('x, DeploymentCollection) peff" where
  "NewDeploymentCollection E project inclusion forSeal =
     bindM (collectAllDeployments E inclusion project [] []) (\<lambda>(deployments, _).
     ret \<lparr>dc_Project = project, dc_Inclusion = inclusion, dc_forSeal = forSeal,
          dc_Deployments = filter CheckInclusionForDeploy deployments\<rparr>)"

section \<open>Stages\<close>

text \<open>
  \<^verbatim>\<open>GoHelper\<close> runs a function for all items and returns the errors of all of them; a panic of one ends the program.
\<close>

definition runEach :: "('a \<Rightarrow> 'b res) \<Rightarrow> 'a list \<Rightarrow> 'b list res" where
  "runEach f xs =
     (let rs = map f xs; errs = List.map_filter (\<lambda>r. case r of Inl (Error e) \<Rightarrow> Some e | _ \<Rightarrow> None) rs
      in case find (\<lambda>r. case r of Inl (Error _) \<Rightarrow> False | Inl _ \<Rightarrow> True | Inr _ \<Rightarrow> False) rs of
           Some (Inl e) \<Rightarrow> Inl e
         | _ \<Rightarrow> if errs \<noteq> [] then Inl (Error (Join errs ''; '')) else mapE id rs)"

text \<open>\<open>renderDir\<close> renders the templates of a directory with the variables of the item.\<close>

definition RenderDeployments :: "item_env \<Rightarrow> (string \<Rightarrow> dirtree) \<Rightarrow>
    (uo \<Rightarrow> string \<times> string \<times> string list \<times> string list \<times> string \<Rightarrow> unit res) \<Rightarrow> DeploymentCollection \<Rightarrow> unit list res" where
  "RenderDeployments E walk renderDir c =
     runEach (\<lambda>d. case render E walk (dc_forSeal c) d of None \<Rightarrow> Inr () | Some args \<Rightarrow> renderDir (di_VarsCtx d) args) (dc_Deployments c)"

definition renderHelmChartsAll :: "item_files \<Rightarrow> (DeploymentItem \<Rightarrow> string list) \<Rightarrow> DeploymentCollection \<Rightarrow> DeploymentCollection res" where
  "renderHelmChartsAll F files c =
     bindE (runEach (\<lambda>d. renderHelmCharts F (files d) d) (dc_Deployments c)) (\<lambda>ds. Inr (c\<lparr>dc_Deployments := ds\<rparr>))"

definition resolveSealedSecretsAll :: "item_env \<Rightarrow> item_files \<Rightarrow> nat \<Rightarrow> DeploymentCollection \<Rightarrow> (string \<times> string) list res" where
  "resolveSealedSecretsAll E F n c =
     (if dc_forSeal c then Inr []
      else bindE (mapE (resolveSealedSecrets E F n) (dc_Deployments c)) (\<lambda>ls. Inr (concat ls)))"

definition postprocessAll :: "item_env \<Rightarrow> DeploymentItem list \<Rightarrow> DeploymentItem list ieff" where
  "postprocessAll E ds =
     bindM (mapM (\<lambda>d. tryM d (wrapM (''postprocessing kustomize objects for '' @ orEmpty (di_dir d) @ '' failed: '') (postprocessObjects E d))) ds) (\<lambda>rs.
     if concat (map snd rs) \<noteq> [] then throw (Error (Join (concat (map snd rs)) ''; '')) else ret (map fst rs))"

definition buildKustomizeObjects :: "item_env \<Rightarrow> item_files \<Rightarrow> DeploymentCollection \<Rightarrow> DeploymentCollection ieff" where
  "buildKustomizeObjects E F c =
     bindM (lift (runEach (\<lambda>d. wrapE (''building kustomize objects for '' @ orEmpty (di_dir d) @ '' failed. '') (buildKustomize (ie_L E) F d))
       (dc_Deployments c))) (\<lambda>ds.
     bindM (postprocessAll E ds) (\<lambda>ds. ret (c\<lparr>dc_Deployments := ds\<rparr>)))"

text \<open>The rendered directory as each stage finds it is \<open>Fhelm\<close>, \<open>Fseal\<close> and \<open>Fbuild\<close>.\<close>

definition Prepare :: "item_env \<Rightarrow> (string \<Rightarrow> dirtree) \<Rightarrow> (uo \<Rightarrow> string \<times> string \<times> string list \<times> string list \<times> string \<Rightarrow> unit res) \<Rightarrow>
    (DeploymentItem \<Rightarrow> string list) \<Rightarrow> item_files \<Rightarrow> item_files \<Rightarrow> item_files \<Rightarrow> nat \<Rightarrow> DeploymentCollection \<Rightarrow> DeploymentCollection ieff" where
  "Prepare E walk renderDir files Fhelm Fseal Fbuild n c =
     bindM (lift (RenderDeployments E walk renderDir c)) (\<lambda>_.
     bindM (lift (renderHelmChartsAll Fhelm files c)) (\<lambda>c.
     bindM (lift (resolveSealedSecretsAll E Fseal n c)) (\<lambda>_.
     buildKustomizeObjects E Fbuild c)))"

section \<open>The objects of a collection\<close>

definition LocalObjects :: "DeploymentCollection \<Rightarrow> uo list" where
  "LocalObjects c = concat (map di_Objects (dc_Deployments c))"

definition LocalObjectsByRef :: "k8s_lib \<Rightarrow> DeploymentCollection \<Rightarrow> (ObjectRef, uo) gomap res" where
  "LocalObjectsByRef L c =
     foldE (\<lambda>ob m. bindE (GetK8sRef L ob) (\<lambda>ref. Inr (AList.update ref ob m))) (LocalObjects c) []"

definition LocalObjectRefs :: "k8s_lib \<Rightarrow> DeploymentCollection \<Rightarrow> ObjectRef list res" where
  "LocalObjectRefs L c = bindE (LocalObjectsByRef L c) (\<lambda>m. Inr (map fst m))"

definition containerImages :: "uo \<Rightarrow> string list" where
  "containerImages ob =
     (case noErr None (GetNestedObjectList [KStr ''spec'', KStr ''template'', KStr ''spec'', KStr ''containers''] ob) of
        None \<Rightarrow> []
      | Some l \<Rightarrow> List.map_filter (\<lambda>c. noErr None (GetNestedString [KStr ''image''] c)) l)"

definition FindRenderedImages :: "k8s_lib \<Rightarrow> DeploymentCollection \<Rightarrow> (ObjectRef, string list) gomap res" where
  "FindRenderedImages L c =
     foldE (\<lambda>ob m. bindE (GetK8sRef L ob) (\<lambda>ref.
       Inr (if containerImages ob = [] then m
            else AList.update ref ((case map_of m ref of None \<Rightarrow> [] | Some l \<Rightarrow> l) @ containerImages ob) m))) (LocalObjects c) []"

definition hexDigit :: "nat \<Rightarrow> char" where
  "hexDigit n = ''0123456789abcdef'' ! (n mod 16)"

definition EncodeToString :: "string \<Rightarrow> string" where
  "EncodeToString s = concat (map (\<lambda>c. let n = of_char c :: nat in [hexDigit (n div 16), hexDigit n]) s)"

text \<open>\<open>sha256\<close> and \<open>toJson\<close> are the hash function and \<^verbatim>\<open>yaml.WriteJsonString\<close>.\<close>

definition CalcObjectsHash :: "(string \<Rightarrow> string) \<Rightarrow> (uo \<Rightarrow> string res) \<Rightarrow> DeploymentCollection \<Rightarrow> string res" where
  "CalcObjectsHash sha256 toJson c =
     bindE (runEach (\<lambda>ob. bindE (toJson ob) (\<lambda>j. Inr (sha256 j))) (LocalObjects c)) (\<lambda>hashes.
     Inr (EncodeToString (sha256 (concat hashes))))"

section \<open>Numbering of items\<close>

text \<open>
  \<open>numbered ix items ix'\<close>: items with a directory have numbers from the old to the new index of their directory, and no
  two of them have the same directory and number.
\<close>

definition indexOf :: "indexes \<Rightarrow> string \<Rightarrow> int" where
  "indexOf ix d = (case map_of ix d of None \<Rightarrow> 0 | Some i \<Rightarrow> i)"

definition dirKeys :: "DeploymentItem list \<Rightarrow> (string \<times> int) list" where
  "dirKeys items = List.map_filter (\<lambda>di. map_option (\<lambda>d. (d, di_index di)) (di_dir di)) items"

definition numbered :: "indexes \<Rightarrow> DeploymentItem list \<Rightarrow> indexes \<Rightarrow> bool" where
  "numbered ix items ix' \<longleftrightarrow> distinct (dirKeys items) \<and> (\<forall>d. indexOf ix d \<le> indexOf ix' d) \<and>
     (\<forall>(d, i) \<in> set (dirKeys items). indexOf ix d \<le> i \<and> i < indexOf ix' d)"

lemma dirKeys_simps [simp]:
  "dirKeys [] = []" "dirKeys (xs @ ys) = dirKeys xs @ dirKeys ys"
  "dirKeys [di] = (case di_dir di of None \<Rightarrow> [] | Some d \<Rightarrow> [(d, di_index di)])"
  by (auto simp: dirKeys_def List.map_filter_def split: option.splits)

lemma numbered_Nil [simp]: "numbered ix [] ix"
  by (simp add: numbered_def)

lemma numbered_append:
  assumes "numbered a xs b" "numbered b ys c"
  shows "numbered a (xs @ ys) c"
proof -
  have "set (dirKeys xs) \<inter> set (dirKeys ys) = {}"
    using assms unfolding numbered_def by (force simp: disjoint_iff)
  moreover have "indexOf a d \<le> i \<and> i < indexOf c d" if "(d, i) \<in> set (dirKeys xs) \<union> set (dirKeys ys)" for d i
    using assms that unfolding numbered_def by (fastforce intro: order.trans order.strict_trans2)
  ultimately show ?thesis
    using assms unfolding numbered_def by (auto intro: order.trans)
qed

lemma numbered_nodir: "numbered a xs b \<Longrightarrow> di_dir di = None \<Longrightarrow> numbered a (xs @ [di]) b"
  by (simp add: numbered_def)

lemma NewDeploymentItem_fields:
  "NewDeploymentItem E project inclusion config dir index s = (Inr di, s') \<Longrightarrow> di_dir di = dir \<and> di_index di = index"
  by (auto simp: NewDeploymentItem_def itemDirs_def Let_def bindM_Inr_iff bindE_Inr_iff run_simps split: option.splits)

lemma findDeploymentItemIndex_numbered:
  assumes "findDeploymentItemIndex fs p pth ix = (index, dir, ix')" "di_dir di = dir" "di_index di = index"
  shows "numbered ix [di] ix'"
  using assms by (auto simp: findDeploymentItemIndex_def numbered_def indexOf_def Let_def split: option.splits if_splits)

definition collects :: "'x collector \<Rightarrow> bool" where
  "collects f \<longleftrightarrow> (\<forall>ps ix s items ix' s'. f ps ix s = (Inr (items, ix'), s') \<longrightarrow> numbered ix items ix')"

lemma createBarrierDummy_dir: "createBarrierDummy E inclusion project s = (Inr b, s') \<Longrightarrow> di_dir b = None"
  by (auto simp: createBarrierDummy_def mustM_def split: prod.splits dest!: NewDeploymentItem_fields)

lemma collectItem_numbered:
  assumes subs: "\<And>i f. (i, f) \<in> set subs \<Longrightarrow> collects f" and inv: "numbered ix0 (fst st) (snd st)"
    and run: "collectItem E inclusion project subs i st s = (Inr st', s')"
  shows "numbered ix0 (fst st') (snd st')"
proof -
  let ?c = "pc_Deployments (pf_Config (hd project)) ! i"
  consider (skip) "st' = st"
    | (included) f ret2 ix s1 s2 where "map_of subs i = Some f" "f project (snd st) s1 = (Inr (ret2, ix), s2)"
        "st' = (fst st @ ret2, ix) \<or> (\<exists>b s3. createBarrierDummy E inclusion project s2 = (Inr b, s3) \<and> st' = (fst st @ ret2 @ [b], ix))"
    | (item) index dir ix di s1 where "findDeploymentItemIndex (pe_fs (ie_P E)) (hd project) (ic_Path ?c) (snd st) = (index, dir, ix)"
        "NewDeploymentItem E project inclusion ?c dir index s1 = (Inr di, s')" "st' = (fst st @ [di], ix)"
    using run unfolding collectItem_def
    by (auto simp: Let_def bindM_Inr_iff run_simps split: if_splits option.splits prod.splits)
  then show ?thesis
  proof cases
    case included
    have "collects f" using subs included(1) map_of_SomeD by fast
    then have "numbered (snd st) ret2 ix" using included(2) unfolding collects_def by blast
    then have "numbered ix0 (fst st @ ret2) ix" by (rule numbered_append [OF inv])
    then show ?thesis using included(3) numbered_nodir [of ix0 "fst st @ ret2" ix]
      by (auto dest!: createBarrierDummy_dir)
  next
    case item
    then show ?thesis
      using numbered_append [OF inv findDeploymentItemIndex_numbered [OF item(1)]] NewDeploymentItem_fields [OF item(2)] by simp
  qed (use inv in simp)
qed

lemma forItemsM_invariant:
  assumes "\<And>i st s st' s'. i \<in> set is \<Longrightarrow> I st \<Longrightarrow> f i st s = (Inr st', s') \<Longrightarrow> I st'" "I st" "forItemsM f is st s = (Inr st', s')"
  shows "I st'"
  using assms
proof (induction "is" arbitrary: st s)
  case (Cons i rest)
  then obtain st1 s1 where "f i st s = (Inr st1, s1)" "forItemsM f rest st1 s1 = (Inr st', s')" by (auto simp: bindM_Inr_iff)
  then show ?case using Cons.IH [of st1 s1] Cons.prems(1,2) by (metis list.set_intros)
qed (simp add: run_simps)

lemma collectAllDeployments_numbered: "collects (collectAllDeployments E inclusion t :: 'x collector)"
proof (induction t)
  case (DeploymentProject p incs)
  let ?subs = "map (map_prod id (collectAllDeployments E inclusion)) incs :: (nat \<times> 'x collector) list"
  have subs: "collects f" if "(i, f) \<in> set ?subs" for i f
    using DeploymentProject that by force
  show ?case
    unfolding collects_def
  proof (intro allI impI)
    fix ps ix items ix' and s s' :: "'x LoadState_scheme"
    assume "collectAllDeployments E inclusion (DeploymentProject p incs) ps ix s = (Inr (items, ix'), s')"
    then consider "items = []" "ix' = ix"
      | "forItemsM (collectItem E inclusion (p # ps) ?subs) [0..<length (pc_Deployments (pf_Config p))] ([], ix) s = (Inr (items, ix'), s')"
      by (auto simp: bindM_Inr_iff run_simps split: if_splits)
    then show "numbered ix items ix'"
    proof cases
      case 2
      show ?thesis
        using forItemsM_invariant [where I = "\<lambda>st. numbered ix (fst st) (snd st)", OF _ _ 2] collectItem_numbered [OF subs] by fastforce
    qed simp
  qed
qed

lemma dirKeys_filter: "set (dirKeys (filter P xs)) \<subseteq> set (dirKeys xs)" "distinct (dirKeys xs) \<Longrightarrow> distinct (dirKeys (filter P xs))"
proof -
  have sub: "set (dirKeys (filter P xs)) \<subseteq> set (dirKeys xs)" for xs by (auto simp: dirKeys_def List.map_filter_def)
  show "set (dirKeys (filter P xs)) \<subseteq> set (dirKeys xs)" by (rule sub)
  have c: "dirKeys (x # xs) = (case di_dir x of None \<Rightarrow> dirKeys xs | Some d \<Rightarrow> (d, di_index x) # dirKeys xs)" for x xs
    by (simp add: dirKeys_def List.map_filter_def split: option.splits)
  show "distinct (dirKeys xs) \<Longrightarrow> distinct (dirKeys (filter P xs))"
  proof (induction xs)
    case (Cons x xs)
    then show ?case using sub [of xs] by (cases "P x") (auto simp: c split: option.splits)
  qed simp
qed

text \<open>
  C33: The items of a collection: exactly the collected ones that pass the inclusion check, in order, and no two of them
  have the same directory and the same number.
\<close>

theorem NewDeploymentCollection_items:
  assumes "NewDeploymentCollection E project inclusion forSeal s = (Inr c, s')"
  shows "\<exists>items ix. collectAllDeployments E inclusion project [] [] s = (Inr (items, ix), s') \<and>
    dc_Deployments c = filter CheckInclusionForDeploy items \<and> distinct (dirKeys (dc_Deployments c)) \<and> dc_forSeal c = forSeal"
proof -
  obtain items ix where i: "collectAllDeployments E inclusion project [] [] s = (Inr (items, ix), s')"
    "dc_Deployments c = filter CheckInclusionForDeploy items" "dc_forSeal c = forSeal"
    using assms by (auto simp: NewDeploymentCollection_def bindM_Inr_iff run_simps)
  have "numbered [] items ix" using collectAllDeployments_numbered i(1) unfolding collects_def by blast
  then show ?thesis using i dirKeys_filter(2) by (simp add: numbered_def)
qed

section \<open>Collecting never panics\<close>

definition noPanic :: "('s, 'a) eff \<Rightarrow> bool" where
  "noPanic m \<longleftrightarrow> (\<forall>s e. fst (m s) \<noteq> Inl (Panic e))"

lemma noPanic_pure: "noPanic (ret x)" "noPanic (throw (Error e))"
  by (simp_all add: noPanic_def run_simps)

lemma noPanic_bind: "noPanic m \<Longrightarrow> (\<And>x. noPanic (f x)) \<Longrightarrow> noPanic (bindM m f)"
proof -
  assume m: "noPanic m" and f: "\<And>x. noPanic (f x)"
  have "fst (bindM m f s) \<noteq> Inl (Panic e)" for s e
    using m [unfolded noPanic_def, rule_format, of s e] f [unfolded noPanic_def, rule_format]
    by (cases "m s"; cases "fst (m s)") (simp_all add: bindM_def)
  then show ?thesis by (simp add: noPanic_def)
qed

lemmas noPanic_intros = noPanic_pure noPanic_bind

lemma noPanic_lift: "(\<And>e. r \<noteq> Inl (Panic e)) \<Longrightarrow> noPanic (lift r)"
  by (simp add: noPanic_def lift_def)

type_synonym 'x vars_loader = "VarsSource list \<Rightarrow> string list \<Rightarrow> string \<Rightarrow> uo \<Rightarrow> ('x, uo \<times> VarsSource list) peff"

definition quiet :: "'x vars_loader \<Rightarrow> bool" where
  "quiet load \<longleftrightarrow> (\<forall>vs dirs key vars. noPanic (load vs dirs key vars))"

lemma Rel_no_panic: "Rel a b \<noteq> Inl (Panic e)"
  by (auto simp: Rel_def Let_def split: prod.splits if_splits)

lemma NewDeploymentItem_noPanic:
  assumes "quiet (LoadVarsList (pe_V (ie_P E)) :: 'x vars_loader)"
  shows "noPanic (NewDeploymentItem E project inclusion config dir index :: ('x, DeploymentItem) peff)"
proof -
  have "noPanic (lift (case dir of None \<Rightarrow> Inr di | Some d \<Rightarrow> itemDirs E (hd project) d index di) :: ('x, DeploymentItem) peff)" for di
    using Rel_no_panic by (intro noPanic_lift) (auto simp: itemDirs_def bindE_Inl_iff Let_def split: option.splits)
  moreover have "noPanic (loadVarsList (ie_P E) project vars vs :: ('x, uo \<times> VarsSource list) peff)" for vars vs
    using assms by (simp add: quiet_def loadVarsList_def)
  ultimately show ?thesis unfolding NewDeploymentItem_def Let_def by (intro noPanic_intros) (auto intro: noPanic_pure split: prod.splits)
qed

lemma createBarrierDummy_ok: "\<exists>b. createBarrierDummy E inclusion project s = (Inr b, s)"
  by (simp add: createBarrierDummy_def mustM_def NewDeploymentItem_def noItemConfig_def loadVarsList_def Let_def run_simps)

lemma collectItem_noPanic:
  assumes q: "quiet (LoadVarsList (pe_V (ie_P E)) :: 'x vars_loader)"
    and c: "includesComplete (ie_P E) p (length (pc_Deployments (pf_Config p))) subs" "i < length (pc_Deployments (pf_Config p))"
    and subs: "\<And>i f ix. (i, f) \<in> set subs \<Longrightarrow> noPanic (f (p # parents) ix)"
  shows "noPanic (collectItem E inclusion (p # parents) subs i st :: ('x, DeploymentItem list \<times> indexes) peff)"
proof -
  let ?c = "pc_Deployments (pf_Config p) ! i"
  obtain w where w: "CheckConditional (pe_V (ie_P E)) (pf_VarsCtx p) (ic_When ?c) = Inr w"
    using c by (auto simp: includesComplete_def active_def)
  have b: "noPanic (createBarrierDummy E inclusion (p # parents) :: ('x, DeploymentItem) peff)"
    unfolding noPanic_def using createBarrierDummy_ok by (metis fst_conv sum.distinct(1))
  have sub: "\<exists>f. map_of subs i = Some f \<and> noPanic (f (p # parents) ix)" if "w" "isInclude ?c" for ix
    using c w that subs map_of_SomeD by (fastforce simp: includesComplete_def active_def)
  show ?thesis
  proof (cases "w \<and> isInclude ?c")
    case True
    then obtain f where f: "map_of subs i = Some f" "noPanic (f (p # parents) (snd st))" using sub by blast
    show ?thesis using True f(1) w unfolding collectItem_def Let_def isInclude_def
      by (auto intro!: noPanic_intros f(2) b split: prod.splits)
  next
    case False
    then show ?thesis using w NewDeploymentItem_noPanic [OF q] unfolding collectItem_def Let_def isInclude_def
      by (auto intro!: noPanic_intros split: prod.splits)
  qed
qed

lemma noPanic_forItemsM: "(\<And>i st. i \<in> set is \<Longrightarrow> noPanic (f i st)) \<Longrightarrow> noPanic (forItemsM f is st)"
  by (induction "is" arbitrary: st) (simp_all add: noPanic_intros)

lemma includesComplete_map:
  "includesComplete P p n incs \<Longrightarrow> includesComplete P p n (map (map_prod id f) incs)"
proof -
  have "map_of (map (map_prod id f) incs) i = map_option f (map_of incs i)" for i by (induction incs) auto
  then show "includesComplete P p n incs \<Longrightarrow> includesComplete P p n (map (map_prod id f) incs)" by (simp add: includesComplete_def)
qed

lemma collectAllDeployments_noPanic:
  assumes q: "quiet (LoadVarsList (pe_V (ie_P E)) :: 'x vars_loader)"
  shows "loaded (ie_P E) r t \<Longrightarrow> r = (parents = []) \<Longrightarrow>
    noPanic (collectAllDeployments E inclusion t parents ix :: ('x, DeploymentItem list \<times> indexes) peff)"
proof (induction arbitrary: parents ix rule: loaded.induct)
  case (skipped p)
  then have "CheckWhenTrue (ie_P E) (p # parents) = Inr False" by (simp add: CheckWhenTrue_def)
  then show ?case by (simp add: noPanic_pure)
next
  case (used p r incs)
  then have w: "CheckWhenTrue (ie_P E) (p # parents) = Inr True" by (auto simp: CheckWhenTrue_def)
  have "noPanic (collectItem E inclusion (p # parents) (map (map_prod id (collectAllDeployments E inclusion)) incs) i st
      :: ('x, DeploymentItem list \<times> indexes) peff)" if "i < length (pc_Deployments (pf_Config p))" for i st
    using used.IH by (intro collectItem_noPanic [OF q includesComplete_map [OF used.hyps(3)] that]) auto
  then show ?case using w by (auto intro!: noPanic_forItemsM)
qed

text \<open>
  Collecting the items of a loaded project never panics: each include whose condition holds is found among the loaded
  includes, at every depth, as long as loading variables does not panic.
\<close>

theorem collectAllDeployments_no_panic:
  fixes s2 :: "'x LoadState_scheme"
  assumes "NewDeploymentProject (ie_P E) n vars src dir [] s = (Inr project, s1)"
    and "quiet (LoadVarsList (pe_V (ie_P E)) :: 'x vars_loader)"
  shows "fst (collectAllDeployments E inclusion project [] indexes s2) \<noteq> Inl (Panic m)"
  using collectAllDeployments_noPanic [OF assms(2) NewDeploymentProject_loaded [OF assms(1)], of "[]" inclusion indexes]
  unfolding noPanic_def by simp

section \<open>Witnesses\<close>

text \<open>A project without \<^verbatim>\<open>deployment.yml\<close>, which has one item for its own directory. Its template engine always fails.\<close>

definition single_env :: item_env where
  "single_env = \<lparr>ie_P = \<lparr>pe_V = sample_vars_env\<lparr>ve_ToMap := (\<lambda>_. Inl (Error ''no templates''))\<rparr>,
       pe_fs = \<lparr>fs_Exists = (\<lambda>_. False), fs_IsDirectory = (\<lambda>_. True), fs_IsFile = (\<lambda>_. False), fs_Cwd = ''/''\<rparr>,
       pe_SecureJoin = (\<lambda>d _. Inr d), pe_ReadConfig = (\<lambda>_. Inl (Error ''unused'')), pe_DefaultOutputPattern = []\<rparr>,
     ie_K = None, ie_L = sample_lib, ie_images = sample_images_lib, ie_rounds = 2, ie_Discriminator = ''disc'', ie_RenderDir = ''/r'',
     ie_SealedSecretsDir = ''/s''\<rparr>"

definition single_frame :: ProjectFrame where
  "single_frame = generateSingleKustomizeProject (newFrame [] \<lparr>src_id = ''0'', src_dir = ''/p''\<rparr> ''.'' ''/p'')"

definition start :: LoadState where
  "start = \<lparr>reqlog = [], vl_credentialsCache = [], ls_nextSourceId = 1\<rparr>"

lemma single_quiet: "quiet (LoadVarsList (pe_V (ie_P single_env)) :: 'x vars_loader)"
proof -
  have "noPanic (LoadVars (pe_V (ie_P single_env)) src dirs key vars :: ('x, uo \<times> VarsSource) peff)" for src dirs key vars
    by (simp add: LoadVars_def single_env_def noPanic_pure)
  then have "noPanic (LoadVarsList (pe_V (ie_P single_env)) vs dirs key vars :: ('x, uo \<times> VarsSource list) peff)" for vs dirs key vars
    by (induction vs arbitrary: vars) (auto intro!: noPanic_intros split: prod.splits)
  then show ?thesis by (simp add: quiet_def)
qed

lemma single_project:
  "NewDeploymentProject (ie_P single_env) 1 [] \<lparr>src_id = ''0'', src_dir = ''/p''\<rparr> ''.'' [] start =
     (Inr (DeploymentProject single_frame []), start)"
proof -
  have c: "loadConfig (ie_P single_env) [] (newFrame [] \<lparr>src_id = ''0'', src_dir = ''/p''\<rparr> ''.'' ''/p'') start = (Inr single_frame, start)"
    by (simp add: loadConfig_def YamlExists_def single_env_def single_frame_def run_simps Let_def)
  have w: "CheckWhenTrue (ie_P single_env) [single_frame] = Inr True"
    by (simp add: CheckWhenTrue_def single_frame_def generateSingleKustomizeProject_def newFrame_def noProjectConfig_def
        CheckConditional_def IsConditionalTrue_def)
  have l: "loadIncludes (NewDeploymentProject (ie_P single_env) 0) (ie_P single_env) [] single_frame start = (Inr (single_frame, []), start)"
    by (simp add: loadIncludes_def loadInclude_def single_frame_def generateSingleKustomizeProject_def newFrame_def noProjectConfig_def
        noItemConfig_def CheckConditional_def IsConditionalTrue_def run_simps)
  have "pe_SecureJoin (ie_P single_env) ''/p'' ''.'' = Inr ''/p''" "fs_IsDirectory (pe_fs (ie_P single_env)) ''/p''"
    by (simp_all add: single_env_def)
  then show ?thesis using c w l by (simp add: run_simps)
qed

theorem collectAllDeployments_no_panic_witness:
  "NewDeploymentProject (ie_P single_env) 1 [] \<lparr>src_id = ''0'', src_dir = ''/p''\<rparr> ''.'' [] start =
     (Inr (DeploymentProject single_frame []), start) \<and>
   fst (collectAllDeployments single_env None (DeploymentProject single_frame []) [] [] start) \<noteq> Inl (Panic ''x'')"
  using collectAllDeployments_no_panic [OF single_project single_quiet] single_project by blast

theorem NewDeploymentCollection_items_witness:
  "\<exists>c. NewDeploymentCollection single_env (DeploymentProject single_frame []) None False start = (Inr c, start) \<and>
     length (dc_Deployments c) = 1 \<and> distinct (dirKeys (dc_Deployments c))"
proof -
  have p: "PathJoin [''/p'', ''.''] = ''/p''" "Abs (pe_fs (ie_P single_env)) ''/p'' = ''/p''" "Rel ''/p'' ''/p'' = Inr ''.''" "Rel ''.'' ''.'' = Inr ''.''"
    by code_simp+
  have w: "CheckWhenTrue (ie_P single_env) [single_frame] = Inr True" "CheckConditional (pe_V (ie_P single_env)) vars [] = Inr True" for vars
    by (simp_all add: CheckWhenTrue_def single_frame_def generateSingleKustomizeProject_def newFrame_def noProjectConfig_def
        CheckConditional_def IsConditionalTrue_def)
  have f: "pc_Deployments (pf_Config single_frame) = [noItemConfig\<lparr>ic_Path := Some ''.''\<rparr>]" "pf_absDir single_frame = ''/p''"
    "src_dir (pf_source single_frame) = ''/p''" "pf_relDir single_frame = ''.''"
    by (simp_all add: single_frame_def generateSingleKustomizeProject_def newFrame_def noProjectConfig_def)
  have n: "\<exists>di. NewDeploymentItem single_env [single_frame] None (noItemConfig\<lparr>ic_Path := Some ''.''\<rparr>) (Some ''/p'') 0 start = (Inr di, start) \<and>
    di_Inclusion di = None"
    by (simp add: NewDeploymentItem_def itemDirs_def f p Let_def loadVarsList_def noItemConfig_def run_simps)
  have "\<exists>di ix. collectAllDeployments single_env None (DeploymentProject single_frame []) [] [] start = (Inr ([di], ix), start) \<and>
    di_Inclusion di = None"
    using n by (auto simp: collectItem_def f w p findDeploymentItemIndex_def noItemConfig_def Let_def run_simps)
  then obtain c where c: "NewDeploymentCollection single_env (DeploymentProject single_frame []) None False start = (Inr c, start)"
    "length (dc_Deployments c) = 1"
    by (auto simp: NewDeploymentCollection_def CheckInclusionForDeploy_def run_simps)
  then show ?thesis using NewDeploymentCollection_items [OF c(1)] by blast
qed

end
