(* ===== verification/Kluctl_Project.thy ===== *)
theory Kluctl_Project
  imports Deployment_Collection
begin

text \<open>
  The project configuration and its targets (\<^verbatim>\<open>pkg/kluctl_project\<close>): loading the configuration, building and
  rendering the targets, the variables a target starts with, and the context of one target, in which the
  deployment project is loaded and its items are collected. Progress output is not modelled.
\<close>

section \<open>Parameters and state\<close>

text \<open>
  \<open>te_Render\<close> is the template engine on a target with the given globals: the rendered target, whether it changed,
  and an error. \<open>te_FromTarget\<close> turns a target into variables. \<open>te_ClientConfig\<close> is the \<^verbatim>\<open>ClientConfigGetter\<close>
  followed by the creation of the client for a dry-run flag: an error with the answer of \<^verbatim>\<open>IsEmptyConfig\<close>, or the current context and the client.
\<close>

record target_env =
  te_I :: item_env
  te_Render :: "uo \<Rightarrow> Target \<Rightarrow> Target \<times> bool \<times> go_error option"
  te_FromTarget :: "Target \<Rightarrow> uo res"
  te_ReadProject :: "string \<Rightarrow> KluctlProject res"
  te_ClientConfig :: "string option \<Rightarrow> (bool \<times> go_error) + (string \<times> (bool \<Rightarrow> K8sCluster res))"
  te_depth :: nat

abbreviation te_V :: "target_env \<Rightarrow> vars_env" where
  "te_V E \<equiv> pe_V (ie_P (te_I E))"

abbreviation te_fs :: "target_env \<Rightarrow> file_system" where
  "te_fs E \<equiv> pe_fs (ie_P (te_I E))"

record LoadKluctlProjectArgs =
  la_RepoRoot :: string
  la_ProjectDir :: string
  la_ProjectConfig :: string
  la_ExternalArgs :: "uo option"

record LoadedKluctlProject =
  lp_LoadArgs :: LoadKluctlProjectArgs
  lp_LoadTime :: int
  lp_TmpDir :: string
  lp_sealedSecretsDir :: string
  lp_Config :: KluctlProject
  lp_Targets :: "Target list"

definition noTarget :: Target where
  "noTarget = \<lparr>t_Name = [], t_Context = None, t_Args = None, t_SealingConfig = None, t_Images = [], t_Discriminator = []\<rparr>"

section \<open>Variables of a target\<close>

definition mergeOpt :: "uo option \<Rightarrow> uo \<Rightarrow> uo" where
  "mergeOpt other vars = (case other of None \<Rightarrow> vars | Some x \<Rightarrow> Merge vars x)"

text \<open>Sealing without a sealing configuration dereferences a nil pointer.\<close>

definition givenArgs :: "LoadedKluctlProject \<Rightarrow> Target \<Rightarrow> bool \<Rightarrow> uo res" where
  "givenArgs p target forSeal =
     (let a = mergeOpt (t_Args target) New in
      bindE (if forSeal then
               (case t_SealingConfig target of
                  None \<Rightarrow> Inl (Panic ''nil pointer dereference'')
                | Some sc \<Rightarrow> Inr (mergeOpt (sc_Args sc) a))
             else Inr a) (\<lambda>a.
      Inr (mergeOpt (la_ExternalArgs (lp_LoadArgs p)) a)))"

definition buildVars :: "target_env \<Rightarrow> LoadedKluctlProject \<Rightarrow> Target \<Rightarrow> bool \<Rightarrow> uo res" where
  "buildVars E p target forSeal =
     bindE (te_FromTarget E target) (\<lambda>targetVars.
     let varsCtx = UpdateChild ''target'' targetVars New in
     bindE (givenArgs p target forSeal) (\<lambda>given.
     bindE (LoadDefaultArgs (te_V E) (kp_Args (lp_Config p)) given) (\<lambda>allArgs.
     Inr (UpdateChild ''args'' allArgs varsCtx))))"

section \<open>Targets\<close>

definition FindTarget :: "string \<Rightarrow> LoadedKluctlProject \<Rightarrow> (nat \<times> Target) res" where
  "FindTarget name p =
     (case find (\<lambda>(_, t). t_Name t = name) (enumerate 0 (lp_Targets p)) of
        None \<Rightarrow> Inl (Error (''target '' @ name @ '' not existent in kluctl project config''))
      | Some r \<Rightarrow> Inr r)"

definition buildTarget :: "LoadedKluctlProject \<Rightarrow> Target \<Rightarrow> Target" where
  "buildTarget p configTarget =
     (if t_Discriminator configTarget = [] then configTarget\<lparr>t_Discriminator := kp_Discriminator (lp_Config p)\<rparr> else configTarget)"

text \<open>The globals are converted before the template engine is called.\<close>

definition renderStructTarget :: "target_env \<Rightarrow> uo \<Rightarrow> Target \<Rightarrow> Target \<times> bool \<times> go_error option" where
  "renderStructTarget E vars t =
     (case ve_ToMap (te_V E) vars of Inl e \<Rightarrow> (t, False, Some e) | Inr globals \<Rightarrow> te_Render E globals t)"

text \<open>The rounds that are left, and the error of the last round.\<close>

fun renderRounds :: "target_env \<Rightarrow> LoadedKluctlProject \<Rightarrow> nat \<Rightarrow> go_error option \<Rightarrow> Target \<Rightarrow> Target \<times> go_error option" where
  "renderRounds E p 0 retErr t = (t, retErr)"
| "renderRounds E p (Suc n) retErr t =
     (case buildVars E p t False of
        Inl e \<Rightarrow> (t, Some e)
      | Inr vars \<Rightarrow>
          (case renderStructTarget E vars t of
             (t', changed, err) \<Rightarrow> if err = None \<and> \<not> changed then (t', None) else renderRounds E p n err t'))"

definition renderTarget :: "target_env \<Rightarrow> LoadedKluctlProject \<Rightarrow> Target \<Rightarrow> Target \<times> go_error option" where
  "renderTarget E p t = renderRounds E p 10 None t"

text \<open>A target that is left out is only warned about; a panic is none of these errors.\<close>

definition loadTarget :: "target_env \<Rightarrow> LoadedKluctlProject \<Rightarrow> Target \<Rightarrow> Target list \<Rightarrow> Target list res" where
  "loadTarget E p configTarget targets =
     (if t_Name configTarget = [] then Inr targets
      else case renderTarget E p (buildTarget p configTarget) of
        (_, Some (Panic m)) \<Rightarrow> Inl (Panic m)
      | (_, Some _) \<Rightarrow> Inr targets
      | (target, None) \<Rightarrow> Inr (if t_Name target \<in> t_Name ` set targets then targets else targets @ [target]))"

definition loadTargets :: "target_env \<Rightarrow> LoadedKluctlProject \<Rightarrow> LoadedKluctlProject res" where
  "loadTargets E p =
     bindE (foldE (loadTarget E p) (kp_Targets (lp_Config p)) []) (\<lambda>targets.
     Inr (p\<lparr>lp_Targets := sort_key t_Name targets\<rparr>))"

section \<open>Loading a project\<close>

definition getConfigPath :: "target_env \<Rightarrow> LoadKluctlProjectArgs \<Rightarrow> string" where
  "getConfigPath E a =
     (if la_ProjectConfig a = [] then
        (let p = FixPathExt (te_fs E) (PathJoin [la_ProjectDir a, ''.kluctl.yml'']) in if fs_IsFile (te_fs E) p then p else [])
      else la_ProjectConfig a)"

definition loadKluctlProject :: "target_env \<Rightarrow> LoadedKluctlProject \<Rightarrow> LoadedKluctlProject res" where
  "loadKluctlProject E c =
     bindE (if la_RepoRoot (lp_LoadArgs c) \<noteq> [] then
              (case CheckInDir (te_fs E) (la_RepoRoot (lp_LoadArgs c)) (la_ProjectDir (lp_LoadArgs c)) of Some e \<Rightarrow> Inl e | None \<Rightarrow> Inr ())
            else Inr ()) (\<lambda>_.
     let configPath = getConfigPath E (lp_LoadArgs c) in
     bindE (if configPath \<noteq> [] then te_ReadProject E configPath else Inr (lp_Config c)) (\<lambda>config.
     Inr (c\<lparr>lp_Config := config, lp_sealedSecretsDir := PathJoin [la_ProjectDir (lp_LoadArgs c), ''.sealed-secrets'']\<rparr>)))"

definition LoadKluctlProject :: "target_env \<Rightarrow> LoadKluctlProjectArgs \<Rightarrow> string \<Rightarrow> int \<Rightarrow> LoadedKluctlProject res" where
  "LoadKluctlProject E args tmpDir now =
     bindE (loadKluctlProject E \<lparr>lp_LoadArgs = args, lp_LoadTime = now, lp_TmpDir = tmpDir, lp_sealedSecretsDir = [],
        lp_Config = \<lparr>kp_Targets = [], kp_Args = [], kp_SecretsConfig = None, kp_Discriminator = []\<rparr>, lp_Targets = []\<rparr>)
     (loadTargets E)"

section \<open>The context of a target\<close>

definition findSecretsEntry :: "LoadedKluctlProject \<Rightarrow> string \<Rightarrow> SecretSet res" where
  "findSecretsEntry p name =
     (case kp_SecretsConfig (lp_Config p) of
        None \<Rightarrow> Inl (Panic ''nil pointer dereference'')
      | Some sc \<Rightarrow>
          (case find (\<lambda>e. ss_Name e = name) (sec_SecretSets sc) of
             None \<Rightarrow> Inl (Error (''secret Set with name '' @ name @ '' was not found''))
           | Some e \<Rightarrow> Inr e))"

fun loadSecretSets :: "vars_env \<Rightarrow> LoadedKluctlProject \<Rightarrow> string list \<Rightarrow> uo \<Rightarrow> ('x, uo) veff" where
  "loadSecretSets V p [] vars = ret vars"
| "loadSecretSets V p (n # ns) vars =
     bindM (lift (findSecretsEntry p n)) (\<lambda>e.
     bindM (LoadVarsList V (ss_Vars e) [la_ProjectDir (lp_LoadArgs p)] ''secrets'' vars) (\<lambda>(vars, _).
     loadSecretSets V p ns vars))"

definition loadSecrets :: "vars_env \<Rightarrow> LoadedKluctlProject \<Rightarrow> Target \<Rightarrow> uo \<Rightarrow> ('x, uo) veff" where
  "loadSecrets V p target vars =
     (case t_SealingConfig target of
        None \<Rightarrow> throw (Panic ''nil pointer dereference'')
      | Some sc \<Rightarrow> loadSecretSets V p (sc_SecretSets sc) vars)"

definition loadK8sConfig :: "target_env \<Rightarrow> Target \<Rightarrow> bool \<Rightarrow> ((bool \<Rightarrow> K8sCluster res) option \<times> string) res" where
  "loadK8sConfig E target offlineK8s =
     (if offlineK8s then Inr (None, [])
      else case te_ClientConfig E (t_Context target) of
        Inl (emptyConfig, e) \<Rightarrow> if t_Context target = None \<and> emptyConfig then Inr (None, []) else Inl e
      | Inr (currentContext, newCluster) \<Rightarrow>
          Inr (Some newCluster, case t_Context target of None \<Rightarrow> currentContext | Some c \<Rightarrow> c))"

record TargetContextParams =
  tp_TargetName :: string
  tp_TargetNameOverride :: string
  tp_ContextOverride :: string
  tp_OfflineK8s :: bool
  tp_DryRun :: bool
  tp_ForSeal :: bool
  tp_Images :: "Images option"
  tp_Inclusion :: "Inclusion option"
  tp_RenderOutputDir :: string

text \<open>The cluster is the field of \<^verbatim>\<open>SharedContext\<close> that the commands use; the rest of it is in the environment of the items.\<close>

record TargetContext =
  tc_Params :: TargetContextParams
  tc_K :: "K8sCluster option"
  tc_KluctlProject :: LoadedKluctlProject
  tc_Target :: Target
  tc_ClusterContext :: string
  tc_DeploymentProject :: DeploymentProject
  tc_DeploymentCollection :: DeploymentCollection

record ProjectState = LoadState +
  ps_project :: LoadedKluctlProject

type_synonym ('x, 'a) teff = "('x ProjectState_scheme, 'a) eff"

text \<open>
  \<^verbatim>\<open>target = &*t\<close> is the pointer \<^verbatim>\<open>t\<close> itself, so the overrides are written into the loaded project: at position \<open>i\<close>,
  when the target is one of the project's.
\<close>

definition putTarget :: "nat option \<Rightarrow> Target \<Rightarrow> ('x, unit) teff" where
  "putTarget i t =
     (case i of
        None \<Rightarrow> ret ()
      | Some i \<Rightarrow> modify (\<lambda>s. s\<lparr>ps_project := (ps_project s)\<lparr>lp_Targets := (lp_Targets (ps_project s))[i := t]\<rparr>\<rparr>))"

definition overrideTarget :: "TargetContextParams \<Rightarrow> Target \<Rightarrow> Target" where
  "overrideTarget params t =
     (let t = (if tp_TargetNameOverride params \<noteq> [] then t\<lparr>t_Name := tp_TargetNameOverride params\<rparr> else t)
      in if tp_ContextOverride params \<noteq> [] then t\<lparr>t_Context := Some (tp_ContextOverride params)\<rparr> else t)"

definition selectTarget :: "target_env \<Rightarrow> TargetContextParams \<Rightarrow> ('x, nat option \<times> Target) teff" where
  "selectTarget E params =
     bindM (ask ps_project) (\<lambda>p.
     if tp_TargetName params \<noteq> [] then
       bindM (lift (FindTarget (tp_TargetName params) p)) (\<lambda>(i, t).
       let t = overrideTarget params t in seqM (putTarget (Some i) t) (ret (Some i, t)))
     else
       (case renderTarget E p (overrideTarget params (noTarget\<lparr>t_Discriminator := kp_Discriminator (lp_Config p)\<rparr>)) of
          (t, None) \<Rightarrow> ret (None, t)
        | (_, Some e) \<Rightarrow> throw e))"

definition itemEnv :: "target_env \<Rightarrow> TargetContextParams \<Rightarrow> string \<Rightarrow> Target \<Rightarrow> K8sCluster option \<Rightarrow> item_env" where
  "itemEnv E params sealedSecretsDir target k =
     (let I = te_I E; P = (ie_P I)\<lparr>pe_V := (te_V E)\<lparr>ve_k := k\<rparr>, pe_DefaultOutputPattern := t_Name target\<rparr>
      in I\<lparr>ie_P := P, ie_K := k, ie_Discriminator := t_Discriminator target, ie_RenderDir := tp_RenderOutputDir params,
           ie_SealedSecretsDir := sealedSecretsDir\<rparr>)"

definition NewTargetContext :: "target_env \<Rightarrow> TargetContextParams \<Rightarrow> ('x, TargetContext) teff" where
  "NewTargetContext E params =
     bindM (ask ps_project) (\<lambda>p.
     let repoRoot = Abs (te_fs E) (la_RepoRoot (lp_LoadArgs p)) in
     bindM (lift (Rel repoRoot (la_ProjectDir (lp_LoadArgs p)))) (\<lambda>relProjectDir.
     bindM (selectTarget E params) (\<lambda>(i, target).
     case tp_Images params of
       None \<Rightarrow> throw (Panic ''nil pointer dereference'')
     | Some im \<Rightarrow>
       let params = params\<lparr>tp_Images := Some (PrependFixedImages (t_Images target) im)\<rparr> in
       bindM (lift (loadK8sConfig E target (tp_OfflineK8s params))) (\<lambda>(clientConfig, clusterContext).
       let target = target\<lparr>t_Context := Some clusterContext\<rparr> in
       seqM (putTarget i target)
       (bindM (lift (buildVars E p target (tp_ForSeal params))) (\<lambda>varsCtx.
        bindM (case clientConfig of None \<Rightarrow> ret None | Some newCluster \<Rightarrow> bindM (lift (newCluster (tp_DryRun params))) (\<lambda>k. ret (Some k))) (\<lambda>k.
        let I = itemEnv E params (lp_sealedSecretsDir p) target k in
        bindM (if tp_ForSeal params then loadSecrets (pe_V (ie_P I)) p target varsCtx else ret varsCtx) (\<lambda>varsCtx.
        bindM (NewSource repoRoot) (\<lambda>source.
        bindM (NewDeploymentProject (ie_P I) (te_depth E) varsCtx source relProjectDir []) (\<lambda>d.
        bindM (NewDeploymentCollection I d (tp_Inclusion params) (tp_ForSeal params)) (\<lambda>c.
        bindM (ask ps_project) (\<lambda>p.
        ret \<lparr>tc_Params = params, tc_K = k, tc_KluctlProject = p, tc_Target = target, tc_ClusterContext = clusterContext,
             tc_DeploymentProject = d, tc_DeploymentCollection = c\<rparr>))))))))))))"

section \<open>Laws\<close>

text \<open>A source of arguments sets a value at a path, or says nothing about it.\<close>

definition sets :: "uo option \<Rightarrow> keypath \<Rightarrow> val \<Rightarrow> bool" where
  "sets source q v \<longleftrightarrow> (case source of None \<Rightarrow> False | Some x \<Rightarrow> GetNestedField q x = Inr (Some v) \<and> \<not> is_map v)"

definition silent :: "uo option \<Rightarrow> keypath \<Rightarrow> bool" where
  "silent source q \<longleftrightarrow> (case source of None \<Rightarrow> True | Some x \<Rightarrow> GetNestedField q x = Inr None)"

definition wf_opt :: "uo option \<Rightarrow> bool" where
  "wf_opt source \<longleftrightarrow> (case source of None \<Rightarrow> True | Some x \<Rightarrow> wf_uo x)"

lemma mergeOpt_sets: "wf_opt b \<Longrightarrow> sets b q v \<Longrightarrow> q \<noteq> [] \<Longrightarrow> sets (Some (mergeOpt b a)) q v"
  using overrides_Merge [of _ a] by (auto simp: sets_def mergeOpt_def wf_opt_def overrides_def split: option.splits)

lemma mergeOpt_silent:
  "wf_opt b \<Longrightarrow> silent b q \<Longrightarrow> q \<noteq> [] \<Longrightarrow> list_all is_str q \<Longrightarrow> sets (Some a) q v \<Longrightarrow> sets (Some (mergeOpt b a)) q v"
  using overrides_Merge [of _ a] by (auto simp: sets_def silent_def mergeOpt_def wf_opt_def overrides_def split: option.splits)

lemma wf_mergeOpt: "wf_opt b \<Longrightarrow> wf_uo a \<Longrightarrow> wf_uo (mergeOpt b a)"
  using wf_MergeMap [of a] by (cases b) (simp_all add: mergeOpt_def wf_opt_def Merge_def)

lemma LoadDefaultArgs_keeps:
  assumes "LoadDefaultArgs V args given = Inr all" "wf_uo given" "sets (Some given) q v" "q \<noteq> []"
  shows "sets (Some all) q v"
proof -
  obtain d where "all = Merge d given" using assms(1) by (auto simp: LoadDefaultArgs_def Let_def bindE_Inr_iff)
  then show ?thesis using overrides_Merge [OF assms(2), of d] assms(3,4) by (auto simp: sets_def overrides_def)
qed

lemma buildVars_args:
  assumes "buildVars E p t forSeal = Inr vars"
  obtains given all where "givenArgs p t forSeal = Inr given" "LoadDefaultArgs (te_V E) (kp_Args (lp_Config p)) given = Inr all"
    "\<And>q v. q \<noteq> [] \<Longrightarrow> sets (Some all) q v \<Longrightarrow> GetNestedField (KStr ''args'' # q) vars = Inr (Some v)"
proof -
  obtain tv given all where x: "te_FromTarget E t = Inr tv" "givenArgs p t forSeal = Inr given"
    "LoadDefaultArgs (te_V E) (kp_Args (lp_Config p)) given = Inr all"
    "vars = UpdateChild ''args'' all (UpdateChild ''target'' tv New)"
    using assms by (auto simp: buildVars_def Let_def bindE_Inr_iff)
  have "map_of vars ''args'' = Some (VMap all)"
    by (simp add: x(4) UpdateChild_def MergeChild_def New_def map_of_MergeMap merged_def MergeMap_step)
  then have "q \<noteq> [] \<Longrightarrow> GetNestedField (KStr ''args'' # q) vars = GetNestedField q all" for q
    by (simp add: GetNestedField_def child_simps)
  then show ?thesis using that x(2,3) by (auto simp: sets_def)
qed

text \<open>
  C37: The arguments a target starts with. The arguments given on the command line win; the ones of the
  sealing configuration count when sealing and win over the ones of the target; whatever none of these sets is
  filled from the defaults, which never replace a value that was set.
\<close>

theorem buildVars_precedence:
  assumes run: "buildVars E p t forSeal = Inr vars"
    and wf: "wf_opt (la_ExternalArgs (lp_LoadArgs p))" "wf_opt (t_Args t)" "wf_opt sealing"
    and sealing: "sealing = (if forSeal then Option.bind (t_SealingConfig t) sc_Args else None)"
    and q: "q \<noteq> []" "list_all is_str q"
    and leaf: "sets (la_ExternalArgs (lp_LoadArgs p)) q v \<or>
      silent (la_ExternalArgs (lp_LoadArgs p)) q \<and> (sets sealing q v \<or> silent sealing q \<and> sets (t_Args t) q v)"
  shows "GetNestedField (KStr ''args'' # q) vars = Inr (Some v)"
proof -
  obtain given all where a: "givenArgs p t forSeal = Inr given" "LoadDefaultArgs (te_V E) (kp_Args (lp_Config p)) given = Inr all"
    "sets (Some all) q v \<Longrightarrow> GetNestedField (KStr ''args'' # q) vars = Inr (Some v)"
    using buildVars_args [OF run] q(1) by metis
  let ?ext = "la_ExternalArgs (lp_LoadArgs p)"
  have given: "given = mergeOpt ?ext (mergeOpt sealing (mergeOpt (t_Args t) New))"
    using a(1) sealing by (auto simp: givenArgs_def bindE_Inr_iff mergeOpt_def [of None] split: option.splits if_splits)
  have "wf_uo New" by (simp add: New_def)
  then have wfg: "wf_uo given" unfolding given by (intro wf_mergeOpt wf)
  have t: "sets (t_Args t) q v \<Longrightarrow> sets (Some (mergeOpt (t_Args t) New)) q v" using mergeOpt_sets [OF wf(2) _ q(1)] .
  have s: "sets sealing q v \<or> silent sealing q \<and> sets (t_Args t) q v \<Longrightarrow> sets (Some (mergeOpt sealing (mergeOpt (t_Args t) New))) q v"
    using mergeOpt_sets [OF wf(3) _ q(1)] mergeOpt_silent [OF wf(3) _ q] t by blast
  have "sets (Some given) q v"
    unfolding given using leaf mergeOpt_sets [OF wf(1) _ q(1)] mergeOpt_silent [OF wf(1) _ q] s by blast
  then show ?thesis using a(3) LoadDefaultArgs_keeps [OF a(2) wfg _ q(1)] by blast
qed

text \<open>What one target of the configuration contributes.\<close>

definition loadedFrom :: "target_env \<Rightarrow> LoadedKluctlProject \<Rightarrow> Target \<Rightarrow> Target option" where
  "loadedFrom E p c =
     (if t_Name c = [] then None
      else case renderTarget E p (buildTarget p c) of (t, None) \<Rightarrow> Some t | _ \<Rightarrow> None)"

lemma loadTarget_step:
  assumes "loadTarget E p c ts = Inr ts'"
  shows "ts' = (case loadedFrom E p c of None \<Rightarrow> ts | Some t \<Rightarrow> if t_Name t \<in> t_Name ` set ts then ts else ts @ [t])"
  using assms by (auto simp: loadTarget_def loadedFrom_def split: if_splits prod.splits option.splits go_error.splits)

lemma loadTarget_fold:
  assumes "foldE (loadTarget E p) cs ts = Inr ts'" "distinct (map t_Name ts)"
  shows "distinct (map t_Name ts') \<and> set ts \<subseteq> set ts' \<and>
    (\<forall>t \<in> set ts'. t \<in> set ts \<or> (\<exists>c \<in> set cs. loadedFrom E p c = Some t)) \<and>
    (\<forall>c \<in> set cs. \<forall>t. loadedFrom E p c = Some t \<longrightarrow> t_Name t \<in> t_Name ` set ts')"
  using assms
proof (induction cs arbitrary: ts)
  case (Cons c cs)
  obtain ts1 where 1: "loadTarget E p c ts = Inr ts1" "foldE (loadTarget E p) cs ts1 = Inr ts'"
    using Cons.prems(1) by (auto simp: bindE_Inr_iff)
  have ts1: "distinct (map t_Name ts1)" "set ts \<subseteq> set ts1" "\<And>t. t \<in> set ts1 \<Longrightarrow> t \<in> set ts \<or> loadedFrom E p c = Some t"
    "\<And>t. loadedFrom E p c = Some t \<Longrightarrow> t_Name t \<in> t_Name ` set ts1"
    using loadTarget_step [OF 1(1)] Cons.prems(2) by (auto split: option.splits if_splits)
  have IH: "distinct (map t_Name ts')" "set ts1 \<subseteq> set ts'"
    "\<And>t. t \<in> set ts' \<Longrightarrow> t \<in> set ts1 \<or> (\<exists>c \<in> set cs. loadedFrom E p c = Some t)"
    "\<And>c t. c \<in> set cs \<Longrightarrow> loadedFrom E p c = Some t \<Longrightarrow> t_Name t \<in> t_Name ` set ts'"
    using Cons.IH [OF 1(2) ts1(1)] by blast+
  have "t_Name t \<in> t_Name ` set ts'" if "c' \<in> set (c # cs)" "loadedFrom E p c' = Some t" for c' t
  proof (cases "c' = c")
    case True
    then have "t_Name t \<in> t_Name ` set ts1" using ts1(4) that(2) by simp
    then show ?thesis using IH(2) by blast
  qed (use that IH(4) in auto)
  moreover have "t \<in> set ts \<or> (\<exists>c' \<in> set (c # cs). loadedFrom E p c' = Some t)" if "t \<in> set ts'" for t
    using IH(3) [OF that] ts1(3) by auto
  ultimately show ?case using IH(1,2) ts1(2) by blast
qed auto

lemma FindTarget_Inr: "FindTarget n p = Inr (i, t) \<Longrightarrow> i < length (lp_Targets p) \<and> lp_Targets p ! i = t \<and> t_Name t = n"
  by (auto simp: FindTarget_def find_Some_iff nth_enumerate_eq split: option.splits)

lemma FindTarget_Inl: "FindTarget n p = Inl e \<Longrightarrow> t \<in> set (lp_Targets p) \<Longrightarrow> t_Name t \<noteq> n"
proof
  assume "FindTarget n p = Inl e" "t \<in> set (lp_Targets p)" "t_Name t = n"
  moreover from this(2) obtain i where "(i, t) \<in> set (enumerate 0 (lp_Targets p))" by (auto simp: in_set_enumerate_eq in_set_conv_nth [of t])
  ultimately show False by (fastforce simp: FindTarget_def find_None_iff split: option.splits)
qed

text \<open>
  C38: The targets of a project. They are sorted by name, names are unique, each is a named target of the
  configuration after rendering, and every such target is found under its name (the first one, when several
  render to the same name); a target that can not be rendered is left out and does not stop the others.
\<close>

theorem loadTargets_spec:
  assumes "loadTargets E p = Inr p'"
  shows "sorted (map t_Name (lp_Targets p')) \<and> distinct (map t_Name (lp_Targets p')) \<and>
    (\<forall>t \<in> set (lp_Targets p'). \<exists>c \<in> set (kp_Targets (lp_Config p)). loadedFrom E p c = Some t) \<and>
    (\<forall>c \<in> set (kp_Targets (lp_Config p)). \<forall>t. loadedFrom E p c = Some t \<longrightarrow>
       (\<exists>i t'. FindTarget (t_Name t) p' = Inr (i, t') \<and> t_Name t' = t_Name t \<and> t' \<in> set (lp_Targets p')))"
proof -
  obtain ts where ts: "foldE (loadTarget E p) (kp_Targets (lp_Config p)) [] = Inr ts" "lp_Targets p' = sort_key t_Name ts"
    using assms by (auto simp: loadTargets_def bindE_Inr_iff)
  have f: "distinct (map t_Name ts)" "\<And>t. t \<in> set ts \<Longrightarrow> \<exists>c \<in> set (kp_Targets (lp_Config p)). loadedFrom E p c = Some t"
    "\<And>c t. c \<in> set (kp_Targets (lp_Config p)) \<Longrightarrow> loadedFrom E p c = Some t \<Longrightarrow> t_Name t \<in> t_Name ` set ts"
    using loadTarget_fold [OF ts(1)] by auto
  have "distinct (map t_Name (lp_Targets p'))" using f(1) ts(2) by (simp add: distinct_map)
  moreover have "\<exists>i t'. FindTarget (t_Name t) p' = Inr (i, t') \<and> t_Name t' = t_Name t \<and> t' \<in> set (lp_Targets p')"
    if c: "c \<in> set (kp_Targets (lp_Config p))" "loadedFrom E p c = Some t" for c t
  proof (cases "FindTarget (t_Name t) p'")
    case (Inl e)
    then have "t_Name t \<notin> t_Name ` set ts" using FindTarget_Inl ts(2) by fastforce
    then show ?thesis using f(3) [OF c] by blast
  next
    case (Inr r)
    obtain i t' where "r = (i, t')" by (cases r)
    then show ?thesis using FindTarget_Inr [of "t_Name t" p' i t'] Inr nth_mem by blast
  qed
  ultimately show ?thesis using ts(2) f(2) by simp
qed

text \<open>
  A target whose rendering still changes something in the tenth round is taken as it is, without an error.
\<close>

lemma renderTarget_gives_up:
  assumes "\<And>t. \<exists>vars globals. buildVars E p t False = Inr vars \<and> ve_ToMap (te_V E) vars = Inr globals \<and> te_Render E globals t = (f t, True, None)"
  shows "renderTarget E p t = ((f ^^ 10) t, None)"
proof -
  have "renderRounds E p n None t = ((f ^^ n) t, None)" for n
  proof (induction n arbitrary: t)
    case (Suc n)
    then show ?case using assms [of t] by (auto simp: renderStructTarget_def funpow_swap1)
  qed simp
  then show ?thesis by (simp add: renderTarget_def)
qed

text \<open>
  A name override is written into the loaded project: the target is not found under its own name any more.
\<close>

lemma selectTarget_renames:
  assumes "selectTarget E params s = (Inr (i, t), s')" "tp_TargetName params \<noteq> []" "tp_TargetNameOverride params \<noteq> []"
    "tp_TargetNameOverride params \<noteq> tp_TargetName params" "distinct (map t_Name (lp_Targets (ps_project s)))"
  shows "\<exists>e. FindTarget (tp_TargetName params) (ps_project s') = Inl e"
proof -
  let ?p = "ps_project s" and ?n = "tp_TargetName params"
  obtain j t0 where f: "FindTarget ?n ?p = Inr (j, t0)" and s': "ps_project s' = ?p\<lparr>lp_Targets := (lp_Targets ?p)[j := overrideTarget params t0]\<rparr>"
    using assms(1,2) by (auto simp: selectTarget_def bindM_Inr_iff seqM_def run_simps putTarget_def Let_def)
  have j: "j < length (lp_Targets ?p)" "t_Name (lp_Targets ?p ! j) = ?n" using FindTarget_Inr [OF f] by auto
  have "t_Name x \<noteq> ?n" if x: "x \<in> set ((lp_Targets ?p)[j := overrideTarget params t0])" for x
  proof -
    obtain m where m: "m < length (lp_Targets ?p)" "x = (lp_Targets ?p)[j := overrideTarget params t0] ! m"
      using x by (auto simp: in_set_conv_nth)
    show ?thesis
    proof (cases "m = j")
      case False
      then have "t_Name (lp_Targets ?p ! m) \<noteq> t_Name (lp_Targets ?p ! j)"
        using assms(5) m(1) j(1) by (metis length_map nth_eq_iff_index_eq nth_map)
      then show ?thesis using m False j(2) by simp
    qed (use m assms(3,4) in \<open>simp add: overrideTarget_def Let_def\<close>)
  qed
  then have none: "t_Name x \<noteq> ?n" if "x \<in> set (lp_Targets (ps_project s'))" for x using that s' by simp
  show ?thesis
  proof (cases "FindTarget ?n (ps_project s')")
    case (Inr r)
    obtain m x where "r = (m, x)" by (cases r)
    then show ?thesis using FindTarget_Inr [of ?n "ps_project s'" m x] Inr none [of x] nth_mem by auto
  qed blast
qed

subsection \<open>Concrete projects\<close>

definition plain_target_env :: target_env where
  "plain_target_env = \<lparr>te_I = plain_env, te_Render = (\<lambda>_ t. (t, False, None)), te_FromTarget = (\<lambda>t. Inr [(''name'', VStr (t_Name t))]),
     te_ReadProject = (\<lambda>_. Inl (Error ''no file'')), te_ClientConfig = (\<lambda>_. Inl (True, Error ''no config'')), te_depth = 1\<rparr>"

definition sample_target :: "string \<Rightarrow> Target" where
  "sample_target name = noTarget\<lparr>t_Name := name, t_Args := Some [(''a'', VStr ''target''), (''b'', VStr ''target'')]\<rparr>"

definition sample_project :: LoadedKluctlProject where
  "sample_project = \<lparr>lp_LoadArgs = \<lparr>la_RepoRoot = ''/p'', la_ProjectDir = ''/p'', la_ProjectConfig = [], la_ExternalArgs = Some [(''a'', VStr ''cli'')]\<rparr>,
     lp_LoadTime = 0, lp_TmpDir = [], lp_sealedSecretsDir = [],
     lp_Config = \<lparr>kp_Targets = [sample_target ''prod'', sample_target ''dev'', sample_target ''dev''], kp_Args = [], kp_SecretsConfig = None, kp_Discriminator = ''d''\<rparr>,
     lp_Targets = []\<rparr>"

theorem buildVars_precedence_witness:
  "\<exists>vars. buildVars plain_target_env sample_project (sample_target ''dev'') False = Inr vars \<and>
     GetNestedField [KStr ''args'', KStr ''a''] vars = Inr (Some (VStr ''cli'')) \<and>
     GetNestedField [KStr ''args'', KStr ''b''] vars = Inr (Some (VStr ''target''))"
proof -
  have "\<not> isl (buildVars plain_target_env sample_project (sample_target ''dev'') False)" by code_simp
  then obtain vars where v: "buildVars plain_target_env sample_project (sample_target ''dev'') False = Inr vars"
    by (cases "buildVars plain_target_env sample_project (sample_target ''dev'') False") auto
  have wf: "wf_opt (la_ExternalArgs (lp_LoadArgs sample_project))" "wf_opt (t_Args (sample_target ''dev''))" "wf_opt None"
    by (simp_all add: wf_opt_def sample_project_def sample_target_def)
  have a: "sets (la_ExternalArgs (lp_LoadArgs sample_project)) [KStr ''a''] (VStr ''cli'')" by code_simp
  have b: "silent (la_ExternalArgs (lp_LoadArgs sample_project)) [KStr ''b''] \<and>
      sets (t_Args (sample_target ''dev'')) [KStr ''b''] (VStr ''target'')" by code_simp
  have s: "silent None [KStr ''b'']" by (simp add: silent_def)
  have q: "list_all is_str [KStr ''a'']" "list_all is_str [KStr ''b'']" by code_simp+
  show ?thesis
    using v buildVars_precedence [OF v wf _ _ q(1) disjI1 [OF a]] buildVars_precedence [OF v wf _ _ q(2)] b s by simp
qed

theorem loadTargets_spec_witness:
  "\<exists>p'. loadTargets plain_target_env sample_project = Inr p' \<and> map t_Name (lp_Targets p') = [''dev'', ''prod''] \<and>
     sorted (map t_Name (lp_Targets p'))"
proof -
  have "case loadTargets plain_target_env sample_project of Inr p' \<Rightarrow> map t_Name (lp_Targets p') = [''dev'', ''prod''] | Inl _ \<Rightarrow> False"
    by code_simp
  then obtain p' where p: "loadTargets plain_target_env sample_project = Inr p'" "map t_Name (lp_Targets p') = [''dev'', ''prod'']"
    by (auto split: sum.splits)
  show ?thesis using p loadTargets_spec [OF p(1), THEN conjunct1] by (intro exI [of _ p'] conjI)
qed

end
