(* ===== verification/Diff_Utils.thy ===== *)
theory Diff_Utils
  imports Deployment_Project Diff Apply_Deployments
begin

text \<open>
  The differences between what is in the cluster and what was applied (\<^verbatim>\<open>diff_utils.go\<close>): which object of the
  cluster a local object is compared with, the comparison of one object, and the collection of all changes.
  The comparisons run in parallel; each records its outcome under a lock, so a run is determined by the order in
  which they finish, the parameter \<open>sched\<close>. The order in which Go visits the map of remote objects is the
  parameter \<open>visit\<close>.
\<close>

record DiffUtil =
  du_appliedObjects :: "(ObjectRef, uo) gomap"
  du_IgnoreTags :: bool
  du_IgnoreLabels :: bool
  du_IgnoreAnnotations :: bool
  du_Swapped :: bool
  du_remoteDiffObjects :: "(ObjectRef, uo) gomap"
  du_ChangedObjects :: "ChangedObject list"

definition GetDiffRef :: "k8s_lib \<Rightarrow> uo \<Rightarrow> ObjectRef res" where
  "GetDiffRef L ob =
     bindE (GetK8sRef L ob) (\<lambda>ref.
     bindE (GetK8sAnnotation ''kluctl.io/diff-name'' ob) (\<lambda>diffName.
     Inr (case diffName of None \<Rightarrow> ref | Some n \<Rightarrow> ref\<lparr>Name := n\<rparr>)))"

text \<open>One round of the loop: the zero time is 0, as in \<open>GetK8sCreationTime\<close>.\<close>

definition addRemoteDiffObject :: "k8s_lib \<Rightarrow> uo \<Rightarrow> (ObjectRef, uo) gomap \<Rightarrow> (ObjectRef, uo) gomap res" where
  "addRemoteDiffObject L ob m =
     bindE (GetDiffRef L ob) (\<lambda>diffRef.
     let oldCreationTime = (case map_of m diffRef of None \<Rightarrow> 0 | Some old \<Rightarrow> GetK8sCreationTime L old)
     in Inr (if oldCreationTime = 0 \<or> GetK8sCreationTime L ob > oldCreationTime then AList.update diffRef ob m else m))"

definition calcRemoteObjectsForDiff :: "k8s_lib \<Rightarrow> uo list \<Rightarrow> (ObjectRef, uo) gomap res" where
  "calcRemoteObjectsForDiff L objs = foldE (addRemoteDiffObject L) objs []"

definition NewDiffUtil :: "k8s_lib \<Rightarrow> (uo list \<Rightarrow> uo list) \<Rightarrow> RemoteObjectUtils \<Rightarrow> (ObjectRef, uo) gomap \<Rightarrow> DiffUtil res" where
  "NewDiffUtil L visit ru applied =
     bindE (calcRemoteObjectsForDiff L (visit (map snd (ru_remoteObjects ru)))) (\<lambda>m.
     Inr \<lparr>du_appliedObjects = applied, du_IgnoreTags = False, du_IgnoreLabels = False, du_IgnoreAnnotations = False,
          du_Swapped = False, du_remoteDiffObjects = m, du_ChangedObjects = []\<rparr>)"

definition getRemoteObjectForDiff :: "k8s_lib \<Rightarrow> DiffUtil \<Rightarrow> uo \<Rightarrow> (ObjectRef \<times> uo option) res" where
  "getRemoteObjectForDiff L u localObject =
     bindE (GetDiffRef L localObject) (\<lambda>ref. Inr (ref, map_of (du_remoteDiffObjects u) ref))"

text \<open>The changes of one object: both sides are normalised with the rules of the local object.\<close>

definition changesOf :: "diff_env \<Rightarrow> diff_lib \<Rightarrow> uo \<Rightarrow> uo \<Rightarrow> uo \<Rightarrow> IgnoreForDiffItemConfig list \<Rightarrow> Change list res" where
  "changesOf D X lo ao ro ignoreForDiffs =
     bindE (NormalizeObject D ao ignoreForDiffs lo) (\<lambda>nao.
     bindE (NormalizeObject D ro ignoreForDiffs lo) (\<lambda>nro.
     Diff X nro nao))"

type_synonym diff_out = "DeploymentErrorsAndWarnings \<times> ChangedObject list"

definition diffObject :: "diff_env \<Rightarrow> diff_lib \<Rightarrow> uo \<Rightarrow> ObjectRef \<Rightarrow> uo option \<Rightarrow> uo option \<Rightarrow>
    IgnoreForDiffItemConfig list \<Rightarrow> diff_out \<Rightarrow> diff_out res" where
  "diffObject D X lo diffRef ao ro ignoreForDiffs out =
     (case (ao, ro) of
        (Some a, Some r) \<Rightarrow>
          (case changesOf D X lo a r ignoreForDiffs of
             Inl (Error m) \<Rightarrow> bindE (GetK8sRef (df_L D) lo) (\<lambda>ref. Inr (dew_AddError ref m (fst out), snd out))
           | Inl e \<Rightarrow> Inl e
           | Inr changes \<Rightarrow>
               Inr (if changes = [] then out
                    else (fst out, snd out @ [\<lparr>co_Ref = diffRef, co_Changes = changes\<rparr>])))
      | _ \<Rightarrow> Inr out)"

type_synonym diff_job = "uo \<times> ObjectRef \<times> uo option \<times> uo option \<times> IgnoreForDiffItemConfig list"

definition diffJob :: "k8s_lib \<Rightarrow> DiffUtil \<Rightarrow> IgnoreForDiffItemConfig list \<Rightarrow> uo \<Rightarrow> diff_job list res" where
  "diffJob L u ignoreForDiffs ob =
     bindE (GetK8sRef L ob) (\<lambda>ref.
     case map_of (du_appliedObjects u) ref of
       None \<Rightarrow> Inr []
     | Some ao \<Rightarrow>
         bindE (getRemoteObjectForDiff L u ob) (\<lambda>(diffRef, ro).
         Inr [if du_Swapped u then (ob, diffRef, ro, Some ao, ignoreForDiffs) else (ob, diffRef, Some ao, ro, ignoreForDiffs)]))"

definition diffObjects :: "k8s_lib \<Rightarrow> DiffUtil \<Rightarrow> uo list \<Rightarrow> IgnoreForDiffItemConfig list \<Rightarrow> diff_job list res" where
  "diffObjects L u objects ignoreForDiffs =
     bindE (mapE (diffJob L u ignoreForDiffs) objects) (\<lambda>jobs. Inr (concat jobs))"

definition runJobs :: "diff_env \<Rightarrow> diff_lib \<Rightarrow> diff_job list \<Rightarrow> diff_out \<Rightarrow> diff_out res" where
  "runJobs D X jobs out = foldE (\<lambda>(lo, diffRef, ao, ro, ifd). diffObject D X lo diffRef ao ro ifd) jobs out"

text \<open>The order of changes with equal reference texts is not fixed by \<^verbatim>\<open>sort.Slice\<close>; it is the order of \<open>sched\<close>.\<close>

definition sortChanges :: "ChangedObject list \<Rightarrow> ChangedObject list" where
  "sortChanges l = sort_key (\<lambda>c. ObjectRef_String (co_Ref c)) l"

definition finishDiff :: "diff_env \<Rightarrow> diff_lib \<Rightarrow> (diff_job list \<Rightarrow> diff_job list) \<Rightarrow> diff_job list \<Rightarrow>
    DeploymentErrorsAndWarnings \<Rightarrow> DiffUtil \<Rightarrow> (DeploymentErrorsAndWarnings \<times> DiffUtil) res" where
  "finishDiff D X sched jobs dw u =
     bindE (runJobs D X (sched jobs) (dw, du_ChangedObjects u)) (\<lambda>(dw', changed).
     Inr (dw', u\<lparr>du_ChangedObjects := sortChanges changed\<rparr>))"

definition DiffDeploymentItems :: "diff_env \<Rightarrow> diff_lib \<Rightarrow> (diff_job list \<Rightarrow> diff_job list) \<Rightarrow> DeploymentItem list \<Rightarrow>
    DeploymentErrorsAndWarnings \<Rightarrow> DiffUtil \<Rightarrow> (DeploymentErrorsAndWarnings \<times> DiffUtil) res" where
  "DiffDeploymentItems D X sched deployments dw u =
     bindE (mapE (\<lambda>d. diffObjects (df_L D) u (di_Objects d)
         (GetIgnoreForDiffs (du_IgnoreTags u) (du_IgnoreLabels u) (du_IgnoreAnnotations u) (di_Project d))) deployments) (\<lambda>jobs.
     finishDiff D X sched (concat jobs) dw u)"

definition DiffObjects :: "diff_env \<Rightarrow> diff_lib \<Rightarrow> (diff_job list \<Rightarrow> diff_job list) \<Rightarrow> uo list \<Rightarrow>
    DeploymentErrorsAndWarnings \<Rightarrow> DiffUtil \<Rightarrow> (DeploymentErrorsAndWarnings \<times> DiffUtil) res" where
  "DiffObjects D X sched objects dw u =
     bindE (diffObjects (df_L D) u objects []) (\<lambda>jobs. finishDiff D X sched jobs dw u)"

section \<open>Laws\<close>

text \<open>The state of the loop after the objects \<open>seen\<close>: per reference, the newest object seen.\<close>

definition newest_of :: "k8s_lib \<Rightarrow> uo set \<Rightarrow> (ObjectRef, uo) gomap \<Rightarrow> bool" where
  "newest_of L seen m \<longleftrightarrow>
     (\<forall>ref ob. map_of m ref = Some ob \<longrightarrow> ob \<in> seen \<and> GetDiffRef L ob = Inr ref) \<and>
     (\<forall>ob \<in> seen. \<forall>ref. GetDiffRef L ob = Inr ref \<longrightarrow>
        (\<exists>best. map_of m ref = Some best \<and> GetK8sCreationTime L ob \<le> GetK8sCreationTime L best))"

lemma newest_of_step:
  assumes "addRemoteDiffObject L ob m = Inr m'" "newest_of L seen m" "\<And>x. x \<in> insert ob seen \<Longrightarrow> 0 \<le> GetK8sCreationTime L x"
  shows "newest_of L (insert ob seen) m'"
proof -
  obtain r where r: "GetDiffRef L ob = Inr r" using assms(1) by (auto simp: addRemoteDiffObject_def bindE_Inr_iff)
  let ?t = "GetK8sCreationTime L"
  show ?thesis
  proof (cases "map_of m r")
    case None
    then have "m' = AList.update r ob m" using assms(1) r by (simp add: addRemoteDiffObject_def)
    moreover have "\<not> (\<exists>x \<in> seen. GetDiffRef L x = Inr r)" using None assms(2) unfolding newest_of_def by fastforce
    ultimately show ?thesis using assms(2) r unfolding newest_of_def by (auto simp: update_conv')
  next
    case (Some old)
    then have m': "m' = (if ?t old = 0 \<or> ?t ob > ?t old then AList.update r ob m else m)"
      using assms(1) r by (auto simp: addRemoteDiffObject_def Let_def)
    have old: "old \<in> seen" "GetDiffRef L old = Inr r" using Some assms(2) unfolding newest_of_def by blast+
    have le: "?t x \<le> ?t old" if "x \<in> seen" "GetDiffRef L x = Inr r" for x
      using that Some assms(2) unfolding newest_of_def by fastforce
    have "0 \<le> ?t ob" using assms(3) by simp
    then show ?thesis using assms(2) r old le m' Some unfolding newest_of_def
      by (auto simp: update_conv' split: if_splits) (fastforce intro: order_trans)+
  qed
qed

lemma newest_of_fold:
  assumes "foldE (addRemoteDiffObject L) objs m = Inr m'" "newest_of L seen m"
    and "\<And>x. x \<in> set objs \<union> seen \<Longrightarrow> 0 \<le> GetK8sCreationTime L x"
  shows "newest_of L (set objs \<union> seen) m'"
  using assms
proof (induction objs arbitrary: m seen)
  case (Cons ob objs)
  obtain m1 where m1: "addRemoteDiffObject L ob m = Inr m1" "foldE (addRemoteDiffObject L) objs m1 = Inr m'"
    using Cons.prems(1) by (auto simp: bindE_Inr_iff)
  have "newest_of L (insert ob seen) m1" using newest_of_step [OF m1(1) Cons.prems(2)] Cons.prems(3) by auto
  then show ?case using Cons.IH [OF m1(2), of "insert ob seen"] Cons.prems(3) by auto
qed (simp add: newest_of_def)

section \<open>Properties\<close>

text \<open>
  C37: The object of the cluster a local object is compared with. Several objects can share one reference for the
  comparison (\<^verbatim>\<open>kluctl.io/diff-name\<close>); in whatever order the map is visited, the newest of them is taken, and there is
  one whenever any object of the cluster has that reference.
\<close>

theorem NewDiffUtil_newest:
  assumes "NewDiffUtil L visit ru applied = Inr u" and "\<And>l. set (visit l) = set l"
    and "\<And>ob. ob \<in> snd ` set (ru_remoteObjects ru) \<Longrightarrow> 0 \<le> GetK8sCreationTime L ob"
  shows "(\<forall>lo ref ro. getRemoteObjectForDiff L u lo = Inr (ref, Some ro) \<longrightarrow>
      ro \<in> snd ` set (ru_remoteObjects ru) \<and> GetDiffRef L ro = GetDiffRef L lo \<and>
      (\<forall>ob \<in> snd ` set (ru_remoteObjects ru). GetDiffRef L ob = GetDiffRef L lo \<longrightarrow>
         GetK8sCreationTime L ob \<le> GetK8sCreationTime L ro)) \<and>
    (\<forall>lo ref. getRemoteObjectForDiff L u lo = Inr (ref, None) \<longrightarrow>
      (\<forall>ob \<in> snd ` set (ru_remoteObjects ru). GetDiffRef L ob \<noteq> GetDiffRef L lo))"
proof -
  let ?objs = "visit (map snd (ru_remoteObjects ru))"
  have s: "set ?objs = snd ` set (ru_remoteObjects ru)" using assms(2) [of "map snd (ru_remoteObjects ru)"] by simp
  have "foldE (addRemoteDiffObject L) ?objs [] = Inr (du_remoteDiffObjects u)"
    using assms(1) by (auto simp: NewDiffUtil_def calcRemoteObjectsForDiff_def bindE_Inr_iff)
  then have "newest_of L (set ?objs \<union> {}) (du_remoteDiffObjects u)"
    by (rule newest_of_fold) (use assms(3) s in \<open>auto simp: newest_of_def\<close>)
  then have n: "newest_of L (snd ` set (ru_remoteObjects ru)) (du_remoteDiffObjects u)" using s by simp
  then show ?thesis unfolding newest_of_def getRemoteObjectForDiff_def by (fastforce simp: bindE_Inr_iff)
qed

text \<open>The two sides of the comparison of a local object, old side last, and the reference it is reported under.\<close>

definition compared :: "k8s_lib \<Rightarrow> DiffUtil \<Rightarrow> uo \<Rightarrow> ObjectRef \<Rightarrow> uo \<Rightarrow> uo \<Rightarrow> bool" where
  "compared L u lo diffRef a r \<longleftrightarrow>
     (\<exists>ref ao ro. GetK8sRef L lo = Inr ref \<and> map_of (du_appliedObjects u) ref = Some ao \<and>
        getRemoteObjectForDiff L u lo = Inr (diffRef, Some ro) \<and> (a, r) = (if du_Swapped u then (ro, ao) else (ao, ro)))"

definition jobChange :: "diff_env \<Rightarrow> diff_lib \<Rightarrow> diff_job \<Rightarrow> ChangedObject \<Rightarrow> bool" where
  "jobChange D X j c = (case j of (lo, diffRef, ao, ro, ifd) \<Rightarrow>
     (\<exists>a r. ao = Some a \<and> ro = Some r \<and> changesOf D X lo a r ifd = Inr (co_Changes c) \<and> co_Changes c \<noteq> [] \<and> co_Ref c = diffRef))"

definition jobFails :: "diff_env \<Rightarrow> diff_lib \<Rightarrow> diff_job \<Rightarrow> ObjectRef \<Rightarrow> bool" where
  "jobFails D X j ref = (case j of (lo, diffRef, ao, ro, ifd) \<Rightarrow>
     (\<exists>a r e. ao = Some a \<and> ro = Some r \<and> changesOf D X lo a r ifd = Inl (Error e) \<and> GetK8sRef (df_L D) lo = Inr ref))"

lemma runJobs_out:
  assumes "runJobs D X jobs (dw, l) = Inr (dw', l')"
  shows "set l' = set l \<union> {c. \<exists>j \<in> set jobs. jobChange D X j c} \<and>
    (\<forall>ref. dew_HadError dw' ref \<longleftrightarrow> dew_HadError dw ref \<or> (\<exists>j \<in> set jobs. jobFails D X j ref))"
  using assms
proof (induction jobs arbitrary: dw l)
  case (Cons j jobs)
  obtain lo diffRef ao ro ifd where j: "j = (lo, diffRef, ao, ro, ifd)" by (cases j) auto
  obtain dw1 l1 where 1: "diffObject D X lo diffRef ao ro ifd (dw, l) = Inr (dw1, l1)" "runJobs D X jobs (dw1, l1) = Inr (dw', l')"
    using Cons.prems by (auto simp: runJobs_def bindE_Inr_iff j)
  have "set l1 = set l \<union> {c. jobChange D X j c} \<and> (\<forall>ref. dew_HadError dw1 ref \<longleftrightarrow> dew_HadError dw ref \<or> jobFails D X j ref)"
    using 1(1)
    by (auto simp: diffObject_def jobChange_def jobFails_def j bindE_Inr_iff HadError_AddError
        split: option.splits sum.splits go_error.splits if_splits)
  then show ?case using Cons.IH [OF 1(2)] by auto
qed (simp add: runJobs_def)

lemma diffJob_jobs:
  assumes "diffJob L u ifd lo = Inr js"
  shows "(\<exists>j \<in> set js. jobChange D X j c) \<longleftrightarrow>
      (\<exists>a r. compared L u lo (co_Ref c) a r \<and> changesOf D X lo a r ifd = Inr (co_Changes c) \<and> co_Changes c \<noteq> [])"
    and "df_L D = L \<Longrightarrow> (\<exists>j \<in> set js. jobFails D X j ref) \<longleftrightarrow>
      (\<exists>diffRef a r e. compared L u lo diffRef a r \<and> changesOf D X lo a r ifd = Inl (Error e) \<and> GetK8sRef L lo = Inr ref)"
  using assms
  by (cases "du_Swapped u"; force simp: diffJob_def compared_def jobChange_def jobFails_def bindE_Inr_iff split: option.splits)+

lemma finishDiff_out:
  assumes "finishDiff D X sched jobs dw u = Inr (dw', u')" "\<And>l. set (sched l) = set l" "du_ChangedObjects u = []"
  shows "set (du_ChangedObjects u') = {c. \<exists>j \<in> set jobs. jobChange D X j c} \<and>
    sorted (map (\<lambda>c. ObjectRef_String (co_Ref c)) (du_ChangedObjects u')) \<and>
    (\<forall>ref. dew_HadError dw' ref \<longleftrightarrow> dew_HadError dw ref \<or> (\<exists>j \<in> set jobs. jobFails D X j ref))"
proof -
  obtain l where l: "runJobs D X (sched jobs) (dw, []) = Inr (dw', l)" "du_ChangedObjects u' = sortChanges l"
    using assms(1,3) by (auto simp: finishDiff_def bindE_Inr_iff)
  show ?thesis using runJobs_out [OF l(1)] by (simp add: l(2) sortChanges_def assms(2))
qed

lemma mapE_concat:
  assumes "mapE f xs = Inr yss"
  shows "(\<exists>y \<in> set (concat yss). P y) \<longleftrightarrow> (\<exists>x \<in> set xs. \<exists>ys. f x = Inr ys \<and> (\<exists>y \<in> set ys. P y))"
proof -
  have "list_all2 (\<lambda>x ys. f x = Inr ys) xs yss" using assms by (simp add: mapE_Inr_iff)
  then show ?thesis by (induction rule: list_all2_induct) auto
qed

lemma diffObjects_jobs:
  assumes "diffObjects L u objs ifd = Inr js"
  shows "(\<exists>j \<in> set js. P j) \<longleftrightarrow> (\<exists>lo \<in> set objs. \<exists>l. diffJob L u ifd lo = Inr l \<and> (\<exists>j \<in> set l. P j))"
proof -
  obtain jss where "mapE (diffJob L u ifd) objs = Inr jss" "js = concat jss" using assms by (auto simp: diffObjects_def bindE_Inr_iff)
  then show ?thesis using mapE_concat [of "diffJob L u ifd" objs jss P] by simp
qed

lemma mapE_defined: "mapE f xs = Inr ys \<Longrightarrow> x \<in> set xs \<Longrightarrow> \<exists>y. f x = Inr y"
  by (induction xs arbitrary: ys) (auto simp: bindE_Inr_iff)

lemma diffObjects_defined: "diffObjects L u objs ifd = Inr js \<Longrightarrow> lo \<in> set objs \<Longrightarrow> \<exists>l. diffJob L u ifd lo = Inr l"
  by (auto simp: diffObjects_def bindE_Inr_iff dest: mapE_defined)

text \<open>
  C36: The reported changes of a deployment. However the comparisons are scheduled, a change is reported exactly for the local objects
  that were applied, have a counterpart in the cluster and differ from it after both were normalised with the rules
  of the project; the changes come sorted by reference; an error is reported exactly for the objects whose comparison failed.
\<close>

theorem DiffDeploymentItems_spec:
  assumes "DiffDeploymentItems D X sched ds dw u = Inr (dw', u')" and "\<And>l. set (sched l) = set l" and "du_ChangedObjects u = []"
  defines "ignores \<equiv> \<lambda>d. GetIgnoreForDiffs (du_IgnoreTags u) (du_IgnoreLabels u) (du_IgnoreAnnotations u) (di_Project d)"
  shows "(\<forall>c. c \<in> set (du_ChangedObjects u') \<longleftrightarrow> co_Changes c \<noteq> [] \<and>
      (\<exists>d \<in> set ds. \<exists>lo \<in> set (di_Objects d). \<exists>a r. compared (df_L D) u lo (co_Ref c) a r \<and>
         changesOf D X lo a r (ignores d) = Inr (co_Changes c))) \<and>
    sorted (map (\<lambda>c. ObjectRef_String (co_Ref c)) (du_ChangedObjects u')) \<and>
    (\<forall>ref. dew_HadError dw' ref \<longleftrightarrow> dew_HadError dw ref \<or>
      (\<exists>d \<in> set ds. \<exists>lo \<in> set (di_Objects d). \<exists>diffRef a r e. compared (df_L D) u lo diffRef a r \<and>
         changesOf D X lo a r (ignores d) = Inl (Error e) \<and> GetK8sRef (df_L D) lo = Inr ref))"
proof -
  let ?L = "df_L D"
  let ?f = "\<lambda>d. diffObjects ?L u (di_Objects d) (ignores d)"
  obtain jss where jss: "mapE ?f ds = Inr jss" "finishDiff D X sched (concat jss) dw u = Inr (dw', u')"
    using assms(1) by (auto simp: DiffDeploymentItems_def bindE_Inr_iff ignores_def)
  have jobs: "(\<exists>j \<in> set (concat jss). P j) \<longleftrightarrow>
      (\<exists>d \<in> set ds. \<exists>lo \<in> set (di_Objects d). \<exists>l. diffJob ?L u (ignores d) lo = Inr l \<and> (\<exists>j \<in> set l. P j))" for P
    unfolding mapE_concat [OF jss(1)] using mapE_defined [OF jss(1)] diffObjects_jobs by blast
  have ok: "\<exists>l. diffJob ?L u (ignores d) lo = Inr l" if "d \<in> set ds" "lo \<in> set (di_Objects d)" for d lo
    using mapE_defined [OF jss(1) that(1)] diffObjects_defined that(2) by blast
  have C: "(\<exists>j \<in> set (concat jss). jobChange D X j c) \<longleftrightarrow> co_Changes c \<noteq> [] \<and>
      (\<exists>d \<in> set ds. \<exists>lo \<in> set (di_Objects d). \<exists>a r. compared ?L u lo (co_Ref c) a r \<and>
         changesOf D X lo a r (ignores d) = Inr (co_Changes c))" for c
    unfolding jobs using ok diffJob_jobs(1) by meson
  have F: "(\<exists>j \<in> set (concat jss). jobFails D X j ref) \<longleftrightarrow>
      (\<exists>d \<in> set ds. \<exists>lo \<in> set (di_Objects d). \<exists>diffRef a r e. compared ?L u lo diffRef a r \<and>
         changesOf D X lo a r (ignores d) = Inl (Error e) \<and> GetK8sRef ?L lo = Inr ref)" for ref
    unfolding jobs using ok diffJob_jobs(2) [of ?L u _ _ _ D] by meson
  show ?thesis using finishDiff_out [OF jss(2) assms(2,3)] unfolding C F by simp
qed

subsection \<open>Concrete runs\<close>

definition versioned :: "string \<Rightarrow> string \<Rightarrow> string \<Rightarrow> uo" where
  "versioned name created v =
     [(''apiVersion'', VStr ''v1''), (''kind'', VStr ''ConfigMap''),
      (''metadata'', VMap [(''name'', VStr name), (''creationTimestamp'', VStr created),
         (''annotations'', VMap [(''kluctl.io/diff-name'', VStr ''config'')])]),
      (''data'', VMap [(''k'', VStr v)])]"

definition two_versions :: RemoteObjectUtils where
  "two_versions = \<lparr>ru_remoteObjects =
     [(NewObjectRef [] ''v1'' ''ConfigMap'' ''c-2'' [], versioned ''c-2'' ''later'' ''2''),
      (NewObjectRef [] ''v1'' ''ConfigMap'' ''c-1'' [], versioned ''c-1'' ''old'' ''1'')], ru_remoteNamespaces = []\<rparr>"

definition sample_denv :: diff_env where
  "sample_denv = \<lparr>df_L = sample_lib, df_jp = sample_jp, df_compile = (\<lambda>_. Inr (\<lambda>_. False)), df_f2i = (\<lambda>_. 0)\<rparr>"

definition applied_version :: "(ObjectRef, uo) gomap" where
  "applied_version = [(NewObjectRef [] ''v1'' ''ConfigMap'' ''c-3'' [], versioned ''c-3'' [] ''3'')]"

theorem NewDiffUtil_newest_witness:
  "\<exists>u. NewDiffUtil sample_lib rev two_versions [] = Inr u \<and>
     getRemoteObjectForDiff sample_lib u (versioned ''c-3'' [] ''3'') =
       Inr (NewObjectRef [] ''v1'' ''ConfigMap'' ''config'' [], Some (versioned ''c-2'' ''later'' ''2'')) \<and>
     GetK8sCreationTime sample_lib (versioned ''c-1'' ''old'' ''1'') \<le> GetK8sCreationTime sample_lib (versioned ''c-2'' ''later'' ''2'')"
proof -
  obtain u where u: "NewDiffUtil sample_lib rev two_versions [] = Inr u"
    and r: "getRemoteObjectForDiff sample_lib u (versioned ''c-3'' [] ''3'') =
       Inr (NewObjectRef [] ''v1'' ''ConfigMap'' ''config'' [], Some (versioned ''c-2'' ''later'' ''2''))"
  proof -
    have "case NewDiffUtil sample_lib rev two_versions [] of Inr u \<Rightarrow>
        getRemoteObjectForDiff sample_lib u (versioned ''c-3'' [] ''3'') =
          Inr (NewObjectRef [] ''v1'' ''ConfigMap'' ''config'' [], Some (versioned ''c-2'' ''later'' ''2'')) | Inl _ \<Rightarrow> False"
      by code_simp
    then show ?thesis using that by (auto split: sum.splits)
  qed
  have pos: "0 \<le> GetK8sCreationTime sample_lib ob" for ob
    by (auto simp: GetK8sCreationTime_def sample_lib_def split: sum.splits option.splits)
  have m: "versioned ''c-1'' ''old'' ''1'' \<in> snd ` set (ru_remoteObjects two_versions)" by (simp add: two_versions_def)
  have d: "GetDiffRef sample_lib (versioned ''c-1'' ''old'' ''1'') = GetDiffRef sample_lib (versioned ''c-3'' [] ''3'')" by code_simp
  show ?thesis using u r m d NewDiffUtil_newest [OF u set_rev pos] by blast
qed

theorem DiffDeploymentItems_spec_witness:
  "\<exists>u dw' u' c. NewDiffUtil sample_lib rev two_versions applied_version = Inr u \<and>
     DiffDeploymentItems sample_denv sample_diff_lib rev [sample_item [versioned ''c-3'' [] ''3'']] dew_Init u = Inr (dw', u') \<and>
     du_ChangedObjects u' = [c] \<and> co_Changes c \<noteq> [] \<and> co_Ref c = NewObjectRef [] ''v1'' ''ConfigMap'' ''config'' []"
proof -
  have "case NewDiffUtil sample_lib rev two_versions applied_version of Inl _ \<Rightarrow> False | Inr u \<Rightarrow> du_ChangedObjects u = [] \<and>
      (case DiffDeploymentItems sample_denv sample_diff_lib rev [sample_item [versioned ''c-3'' [] ''3'']] dew_Init u of
         Inl _ \<Rightarrow> False
       | Inr (dw', u') \<Rightarrow> map co_Ref (du_ChangedObjects u') = [NewObjectRef [] ''v1'' ''ConfigMap'' ''config'' []])"
    by code_simp
  then obtain u dw' u' c where u: "NewDiffUtil sample_lib rev two_versions applied_version = Inr u" "du_ChangedObjects u = []"
    "DiffDeploymentItems sample_denv sample_diff_lib rev [sample_item [versioned ''c-3'' [] ''3'']] dew_Init u = Inr (dw', u')"
    "du_ChangedObjects u' = [c]" "co_Ref c = NewObjectRef [] ''v1'' ''ConfigMap'' ''config'' []"
    by (auto split: sum.splits prod.splits)
  have "c \<in> set (du_ChangedObjects u')" using u(4) by simp
  then have "co_Changes c \<noteq> []" using DiffDeploymentItems_spec [OF u(3) set_rev u(2)] by blast
  then show ?thesis using u by blast
qed

end
