(* ===== verification/Commands.thy ===== *)
theory Commands
  imports Kluctl_Project Diff_Utils Results
begin

text \<open>
  The commands (\<^verbatim>\<open>pkg/deployment/commands\<close>): deploy, diff, delete, prune, poke-images and validate, composed of
  the snapshot, the application of the items, the comparison, the selection and the deletion of orphans, and the
  collection of all outcomes into one result. The state of a command is the state of the snapshot: the request log
  of the cluster, the reports and the snapshot itself.
\<close>

section \<open>Parameters\<close>

text \<open>
  The surroundings of a command: the libraries, the orders in which concurrent work finishes and maps are
  visited, a way to run the items of a deployment, unique names, the clock and git. The repository found below a
  directory is \<open>None\<close> when there is none; \<open>gr_Branch\<close> and \<open>gr_Tag\<close> are the short name of the head when it is a
  branch or a tag.
\<close>

record git_repo =
  gr_IsClean :: "bool res"
  gr_Head :: "string res"
  gr_Branch :: "string option"
  gr_Tag :: "string option"
  gr_Remotes :: "(string \<times> string list) list res"

record cmd_env =
  ce_D :: diff_env
  ce_X :: diff_lib
  ce_A :: ApplyEnv
  ce_fs :: file_system
  ce_run :: "ApplyEnv \<Rightarrow> DeploymentItem list \<Rightarrow> shared \<Rightarrow> (shared \<times> ApplyUtil list) res"
  ce_sched1 :: "gvk list \<Rightarrow> gvk list"
  ce_sched2 :: "ObjectRef list \<Rightarrow> ObjectRef list"
  ce_schedDiff :: "diff_job list \<Rightarrow> diff_job list"
  ce_visit :: "uo list \<Rightarrow> uo list"
  ce_visitRefs :: "ObjectRef list \<Rightarrow> ObjectRef list"
  ce_uuid :: "request list \<Rightarrow> string"
  ce_now :: "request list \<Rightarrow> int"
  ce_gvkString :: "gvk \<Rightarrow> string"
  ce_PlainOpen :: "string \<Rightarrow> git_repo option res"
  ce_ParseGitUrl :: "string \<Rightarrow> GitUrl res"

text \<open>A command ends with a result, an error, or both.\<close>

type_synonym cmd_out = "CommandResult option \<times> go_error option"

definition failWith :: "go_error \<Rightarrow> cmd_out reff" where
  "failWith e = ret (None, Some e)"

definition apiError :: "api_err \<Rightarrow> go_error" where
  "apiError e = Error (err_Msg e)"

definition nilPanic :: go_error where
  "nilPanic = Panic ''nil pointer dereference''"

section \<open>Collecting the objects of a result\<close>

definition noObject :: "ObjectRef \<Rightarrow> ResultObject" where
  "noObject ref = \<lparr>ro_Base = \<lparr>bo_Ref = ref, bo_Changes = [], bo_New = False, bo_Orphan = False, bo_Deleted = False, bo_Hook = False\<rparr>,
     ro_Rendered = None, ro_Remote = None, ro_Applied = None\<rparr>"

type_synonym objmap = "(ObjectRef, ResultObject) gomap"

text \<open>\<^verbatim>\<open>getOrCreate\<close>, followed by the update of the object it points to.\<close>

definition getOrCreate :: "ObjectRef \<Rightarrow> (ResultObject \<Rightarrow> ResultObject) \<Rightarrow> objmap \<Rightarrow> objmap" where
  "getOrCreate ref f m = AList.update ref (f (case map_of m ref of None \<Rightarrow> noObject ref | Some x \<Rightarrow> x)) m"

abbreviation onBase :: "(BaseObject \<Rightarrow> BaseObject) \<Rightarrow> ResultObject \<Rightarrow> ResultObject" where
  "onBase f x \<equiv> x\<lparr>ro_Base := f (ro_Base x)\<rparr>"

definition underName :: "(ObjectRef, ObjectRef) gomap \<Rightarrow> ObjectRef \<Rightarrow> ObjectRef" where
  "underName names ref = (case map_of names ref of None \<Rightarrow> ref | Some dn \<Rightarrow> dn)"

text \<open>A loop over objects that enters them under the reference for the comparison and keeps that name.\<close>

definition enterObjects :: "k8s_lib \<Rightarrow> (uo \<Rightarrow> ResultObject \<Rightarrow> ResultObject) \<Rightarrow> uo list \<Rightarrow>
    objmap \<times> (ObjectRef, ObjectRef) gomap \<Rightarrow> (objmap \<times> (ObjectRef, ObjectRef) gomap) res" where
  "enterObjects L f objs st =
     foldE (\<lambda>x (m, names).
       bindE (GetDiffRef L x) (\<lambda>dn.
       bindE (GetK8sRef L x) (\<lambda>ref.
       Inr (getOrCreate dn (f x) m, AList.update ref dn names)))) objs st"

definition enterChanges :: "(ObjectRef, ObjectRef) gomap \<Rightarrow> ChangedObject list \<Rightarrow> objmap \<Rightarrow> objmap" where
  "enterChanges names l m =
     fold (\<lambda>c. getOrCreate (underName names (co_Ref c)) (onBase (\<lambda>b. b\<lparr>bo_Changes := co_Changes c\<rparr>))) l m"

definition enterNew :: "(ObjectRef, ObjectRef) gomap \<Rightarrow> ObjectRef list \<Rightarrow> objmap \<Rightarrow> objmap" where
  "enterNew names l m =
     fold (\<lambda>x. getOrCreate (underName names x) (onBase (\<lambda>b. if bo_Changes b \<noteq> [] then b else b\<lparr>bo_New := True\<rparr>))) l m"

definition enterDeleted :: "(ObjectRef, ObjectRef) gomap \<Rightarrow> ObjectRef list \<Rightarrow> objmap \<Rightarrow> objmap" where
  "enterDeleted names l m = fold (\<lambda>x. getOrCreate (underName names x) (onBase (\<lambda>b. b\<lparr>bo_Deleted := True\<rparr>))) l m"

definition enterOrphans :: "ObjectRef list \<Rightarrow> ObjectRef list \<Rightarrow> objmap \<Rightarrow> objmap" where
  "enterOrphans deleted l m =
     fold (\<lambda>x m. if x \<in> set deleted then m else getOrCreate x (onBase (\<lambda>b. b\<lparr>bo_Orphan := True\<rparr>)) m) l m"

definition underControl :: "ResultObject \<Rightarrow> bool" where
  "underControl x \<longleftrightarrow> \<not> (ro_Rendered x = None \<and> ro_Applied x = None \<and> \<not> bo_Deleted (ro_Base x) \<and> \<not> bo_Orphan (ro_Base x))"

text \<open>What \<^verbatim>\<open>au\<close> contributes before and after the changes are entered.\<close>

definition enterApplied :: "k8s_lib \<Rightarrow> (ObjectRef, ObjectRef) gomap \<Rightarrow> ApplyUtil list option \<Rightarrow> objmap \<Rightarrow>
    (objmap \<times> (ObjectRef, ObjectRef) gomap) res" where
  "enterApplied L remoteNames au m =
     (case au of
        None \<Rightarrow> Inr (m, [])
      | Some results \<Rightarrow>
          bindE (enterObjects L (\<lambda>x ob. ob\<lparr>ro_Applied := Some x\<rparr>) (GetAppliedObjects results) (m, [])) (\<lambda>st.
          bindE (enterObjects L (\<lambda>_. onBase (\<lambda>b. b\<lparr>bo_Hook := True\<rparr>)) (GetAppliedHookObjects results) st) (\<lambda>(m, names).
          Inr (enterDeleted remoteNames (GetDeletedObjects results) m, names))))"

definition collectMap :: "cmd_env \<Rightarrow> k8s_lib \<Rightarrow> DeploymentCollection option \<Rightarrow> RemoteObjectUtils \<Rightarrow> ApplyUtil list option \<Rightarrow>
    DiffUtil option \<Rightarrow> ObjectRef list \<Rightarrow> ObjectRef list \<Rightarrow> objmap res" where
  "collectMap C L c ru au du orphans deleted =
     bindE (enterObjects L (\<lambda>x ob. ob\<lparr>ro_Rendered := Some x\<rparr>) (case c of None \<Rightarrow> [] | Some c \<Rightarrow> LocalObjects c) ([], [])) (\<lambda>(m, _).
     bindE (GetFilteredRemoteObjects None ru) (\<lambda>remote.
     bindE (enterObjects L (\<lambda>x ob. ob\<lparr>ro_Remote := Some x\<rparr>) (ce_visit C remote) (m, [])) (\<lambda>(m, remoteNames).
     bindE (enterApplied L remoteNames au m) (\<lambda>(m, names).
     let m = (case du of None \<Rightarrow> m | Some du \<Rightarrow> enterChanges names (du_ChangedObjects du) m) in
     bindE (case au of None \<Rightarrow> Inr [] | Some results \<Rightarrow> GetNewObjectRefs L results) (\<lambda>new.
     Inr (enterOrphans deleted orphans (enterDeleted [] deleted (enterNew names new m))))))))"

text \<open>The order of objects of one kind is not fixed by \<^verbatim>\<open>sort.Slice\<close>: it is the order in which the map is visited.\<close>

definition collectObjects :: "cmd_env \<Rightarrow> k8s_lib \<Rightarrow> DeploymentCollection option \<Rightarrow> RemoteObjectUtils \<Rightarrow> ApplyUtil list option \<Rightarrow>
    DiffUtil option \<Rightarrow> ObjectRef list \<Rightarrow> ObjectRef list \<Rightarrow> ResultObject list res" where
  "collectObjects C L c ru au du orphans deleted =
     bindE (collectMap C L c ru au du orphans deleted) (\<lambda>m.
     let objs = filter underControl (map (\<lambda>ref. the (map_of m ref)) (ce_visitRefs C (map fst m)))
     in Inr (sort_key (\<lambda>x. ce_gvkString C (GroupVersionKind (bo_Ref (ro_Base x)))) objs))"

section \<open>Information about the command\<close>

definition noCommandInfo :: CommandInfo where
  "noCommandInfo = \<lparr>ci_Initiator = CommandLine, ci_StartTime = 0, ci_EndTime = 0, ci_KluctlDeployment = None, ci_Command = [], ci_Target = [],
     ci_TargetNameOverride = [], ci_ContextOverride = [], ci_Args = None, ci_Images = [], ci_DryRun = False, ci_NoWait = False,
     ci_ForceApply = False, ci_ReplaceOnError = False, ci_ForceReplaceOnError = False, ci_AbortOnError = False,
     ci_IncludeTags = [], ci_ExcludeTags = [], ci_IncludeDeploymentDirs = [], ci_ExcludeDeploymentDirs = []\<rparr>"

definition noResult :: CommandResult where
  "noResult = \<lparr>cr_Id = [], cr_ProjectKey = \<lparr>pk_GitRepoKey = \<lparr>rk_Host = [], rk_Path = []\<rparr>, pk_SubDir = []\<rparr>,
     cr_TargetKey = \<lparr>tk_TargetName = [], tk_ClusterId = [], tk_Discriminator = []\<rparr>, cr_Target = noTarget, cr_Command = noCommandInfo,
     cr_GitInfo = \<lparr>gi_Url = None, gi_Ref = None, gi_SubDir = [], gi_Commit = [], gi_Dirty = False\<rparr>,
     cr_ClusterInfo = \<lparr>cl_ClusterId = []\<rparr>, cr_Deployment = None, cr_Objects = [], cr_Errors = [], cr_Warnings = [], cr_SeenImages = []\<rparr>"

text \<open>The last remote named origin counts; a remote without addresses is an index error.\<close>

definition originUrl :: "cmd_env \<Rightarrow> (string \<times> string list) list \<Rightarrow> GitUrl option res" where
  "originUrl C remotes =
     foldE (\<lambda>(name, urls) acc.
       if name = ''origin'' then
         (case urls of [] \<Rightarrow> Inl (Panic ''index out of range'') | u # _ \<Rightarrow> bindE (ce_ParseGitUrl C u) (\<lambda>g. Inr (Some g)))
       else Inr acc) remotes None"

definition headRef :: "git_repo \<Rightarrow> GitRef option" where
  "headRef g =
     (case gr_Branch g of
        Some b \<Rightarrow> Some (noGitRef\<lparr>ref_Branch := b\<rparr>)
      | None \<Rightarrow> map_option (\<lambda>t. noGitRef\<lparr>ref_Tag := t\<rparr>) (gr_Tag g))"

definition addGitInfo :: "cmd_env \<Rightarrow> TargetContext \<Rightarrow> CommandResult \<Rightarrow> CommandResult res" where
  "addGitInfo C T r =
     (let a = lp_LoadArgs (tc_KluctlProject T) in
      if la_RepoRoot a = [] then Inr r
      else
        bindE (Rel (la_RepoRoot a) (Abs (ce_fs C) (la_ProjectDir a))) (\<lambda>subDir.
        let subDir = (if subDir = ''.'' then [] else subDir) in
        bindE (ce_PlainOpen C (la_RepoRoot a)) (\<lambda>repo.
        case repo of
          None \<Rightarrow> Inr r
        | Some g \<Rightarrow>
            bindE (gr_IsClean g) (\<lambda>clean.
            bindE (gr_Head g) (\<lambda>hash.
            bindE (gr_Remotes g) (\<lambda>remotes.
            bindE (originUrl C remotes) (\<lambda>url.
            Inr (r\<lparr>cr_GitInfo := \<lparr>gi_Url = url, gi_Ref = headRef g, gi_SubDir = subDir, gi_Commit = hash, gi_Dirty = \<not> clean\<rparr>,
                   cr_ProjectKey := \<lparr>pk_GitRepoKey = (case url of None \<Rightarrow> \<lparr>rk_Host = [], rk_Path = []\<rparr> | Some u \<Rightarrow> RepoKey u), pk_SubDir = subDir\<rparr>\<rparr>))))))))"

definition addClusterInfo :: "K8sCluster \<Rightarrow> CommandResult \<Rightarrow> (CommandResult \<times> go_error option) reff" where
  "addClusterInfo k r =
     bindM (GetSingleObject k (NewObjectRef [] ''v1'' ''Namespace'' ''kube-system'' [])) (\<lambda>(ob, _, err).
     case err of
       Some e \<Rightarrow> ret (r, Some (apiError e))
     | None \<Rightarrow>
         (case ob of
            None \<Rightarrow> throw nilPanic
          | Some ns \<Rightarrow>
              bindM (lift (GetK8sUid ns)) (\<lambda>clusterId.
              if clusterId = [] then ret (r, Some (Error ''kube-system namespace has no uid''))
              else ret (r\<lparr>cr_ClusterInfo := \<lparr>cl_ClusterId = clusterId\<rparr>\<rparr>, None))))"

definition inclusionInfo :: "Inclusion option \<Rightarrow> CommandInfo \<Rightarrow> CommandInfo" where
  "inclusionInfo inc ci = ci\<lparr>ci_IncludeTags := GetIncludes inc ''tags'', ci_ExcludeTags := GetExcludes inc ''tags'',
     ci_IncludeDeploymentDirs := GetIncludes inc ''deploymentItemDir'', ci_ExcludeDeploymentDirs := GetExcludes inc ''deploymentItemDir''\<rparr>"

text \<open>\<^verbatim>\<open>r.Command\<close> is assigned as a whole: what was set in it before is lost.\<close>

definition baseInfo :: "TargetContext \<Rightarrow> int \<Rightarrow> string \<Rightarrow> CommandResult \<Rightarrow> CommandResult" where
  "baseInfo T now command r =
     r\<lparr>cr_Target := tc_Target T,
       cr_Command := inclusionInfo (tp_Inclusion (tc_Params T))
         (noCommandInfo\<lparr>ci_StartTime := lp_LoadTime (tc_KluctlProject T), ci_EndTime := now, ci_Command := command,
            ci_Args := la_ExternalArgs (lp_LoadArgs (tc_KluctlProject T)),
            ci_TargetNameOverride := tp_TargetNameOverride (tc_Params T), ci_ContextOverride := tp_ContextOverride (tc_Params T),
            ci_Images := FixedImages (tp_Images (tc_Params T)), ci_DryRun := tp_DryRun (tc_Params T)\<rparr>),
       cr_Deployment := Some (pf_Config (dp_frame (tc_DeploymentProject T)))\<rparr>"

definition addBaseCommandInfoToResult :: "cmd_env \<Rightarrow> TargetContext \<Rightarrow> CommandResult \<Rightarrow> string \<Rightarrow> cmd_out reff" where
  "addBaseCommandInfoToResult C T r command =
     bindM (ask (\<lambda>s. ce_now C (reqlog s))) (\<lambda>now.
     let r = baseInfo T now command r in
     case addGitInfo C T r of
       Inl (Panic m) \<Rightarrow> throw (Panic m)
     | Inl e \<Rightarrow> ret (Some r, Some e)
     | Inr r \<Rightarrow>
         bindM (case tc_K T of None \<Rightarrow> throw nilPanic | Some k \<Rightarrow> addClusterInfo k r) (\<lambda>(r, err).
         case err of
           Some e \<Rightarrow> ret (Some r, Some e)
         | None \<Rightarrow>
             ret (Some (r\<lparr>cr_TargetKey := \<lparr>tk_TargetName = t_Name (tc_Target T), tk_ClusterId = cl_ClusterId (cr_ClusterInfo r),
                            tk_Discriminator = t_Discriminator (tc_Target T)\<rparr>\<rparr>), None)))"

definition addDeleteCommandInfoToResult :: "cmd_env \<Rightarrow> K8sCluster \<Rightarrow> int \<Rightarrow> Inclusion option \<Rightarrow> CommandResult \<Rightarrow> cmd_out reff" where
  "addDeleteCommandInfoToResult C k startTime inclusion r =
     bindM (ask (\<lambda>s. ce_now C (reqlog s))) (\<lambda>now.
     bindM (addClusterInfo k (r\<lparr>cr_Command := inclusionInfo inclusion
        (noCommandInfo\<lparr>ci_StartTime := startTime, ci_EndTime := now, ci_Command := ''delete''\<rparr>)\<rparr>)) (\<lambda>(r, err). ret (Some r, err)))"

section \<open>Stages\<close>

text \<open>The beginning of a command: the snapshot, then the rest with the cluster. Without a cluster the rest dereferences nil.\<close>

definition withSnapshot :: "cmd_env \<Rightarrow> K8sCluster option \<Rightarrow> string option \<Rightarrow> ObjectRef list \<Rightarrow> (K8sCluster \<Rightarrow> cmd_out reff) \<Rightarrow> cmd_out reff" where
  "withSnapshot C k discriminator refs rest =
     bindM (UpdateRemoteObjects (ce_sched1 C) (ce_sched2 C) k discriminator refs False) (\<lambda>err.
     case err of
       Some e \<Rightarrow> failWith (apiError e)
     | None \<Rightarrow> (case k of None \<Rightarrow> throw nilPanic | Some k \<Rightarrow> rest k))"

definition sharedFor :: "rstate \<Rightarrow> shared" where
  "sharedFor s = \<lparr>sh_log = reqlog s, sh_dew = rs_dew s, sh_abort = False, sh_namespaces = [], sh_crds = []\<rparr>"

definition applyEnvFor :: "cmd_env \<Rightarrow> K8sCluster \<Rightarrow> ApplyUtilOptions \<Rightarrow> rstate \<Rightarrow> ApplyEnv" where
  "applyEnvFor C k opts s = (ce_A C)\<lparr>ae_k := k, ae_ru := rs_ru s, ae_o := opts\<rparr>"

definition applyStage :: "cmd_env \<Rightarrow> K8sCluster \<Rightarrow> ApplyUtilOptions \<Rightarrow> DeploymentItem list \<Rightarrow> ApplyUtil list reff" where
  "applyStage C k opts ds s =
     (case ce_run C (applyEnvFor C k opts s) ds (sharedFor s) of
        Inl e \<Rightarrow> (Inl e, s)
      | Inr (sh, as) \<Rightarrow> (Inr as, s\<lparr>reqlog := sh_log sh, rs_dew := sh_dew sh\<rparr>))"

text \<open>The comparison; \<open>f\<close> sets the options of the \<^verbatim>\<open>DiffUtil\<close>.\<close>

definition diffStage :: "cmd_env \<Rightarrow> k8s_lib \<Rightarrow> (DiffUtil \<Rightarrow> DiffUtil) \<Rightarrow> ApplyUtil list \<Rightarrow> DeploymentItem list \<Rightarrow> DiffUtil reff" where
  "diffStage C L f as ds =
     bindM (lift (GetAppliedObjectsMap L as)) (\<lambda>applied.
     bindM (ask rs_ru) (\<lambda>ru.
     bindM (lift (NewDiffUtil L (ce_visit C) ru applied)) (\<lambda>u.
     bindM (ask rs_dew) (\<lambda>dw.
     bindM (lift (DiffDeploymentItems (ce_D C) (ce_X C) (ce_schedDiff C) ds dw (f u))) (\<lambda>(dw', u').
     seqM (modify (\<lambda>s. s\<lparr>rs_dew := dw'\<rparr>)) (ret u'))))))"

definition FindOrphanObjects :: "K8sCluster \<Rightarrow> DeploymentCollection \<Rightarrow> (api_err + ObjectRef list) reff" where
  "FindOrphanObjects k c =
     bindM (ask rs_ru) (\<lambda>ru.
     bindM (lift (GetFilteredRemoteObjects (dc_Inclusion c) ru)) (\<lambda>objs.
     bindM (lift (LocalObjectRefs (k_lib k) c)) (\<lambda>refs.
     FindObjectsForDelete k objs (HasType (dc_Inclusion c) ''tags'') refs)))"

definition deleteStage :: "cmd_env \<Rightarrow> K8sCluster \<Rightarrow> ObjectRef list \<Rightarrow> bool \<Rightarrow> ObjectRef list reff" where
  "deleteStage C k refs doWait s =
     (case DeleteObjects (ce_sched2 C) k refs doWait \<lparr>reqlog = reqlog s, ds_dew = rs_dew s, ds_ret = []\<rparr> of
        (r, d) \<Rightarrow> (r, s\<lparr>reqlog := reqlog d, rs_dew := ds_dew d\<rparr>))"

definition collectStage :: "cmd_env \<Rightarrow> k8s_lib \<Rightarrow> DeploymentCollection option \<Rightarrow> ApplyUtil list option \<Rightarrow> DiffUtil option \<Rightarrow>
    ObjectRef list \<Rightarrow> ObjectRef list \<Rightarrow> CommandResult reff" where
  "collectStage C L c au du orphans deleted =
     bindM (ask id) (\<lambda>s.
     bindM (lift (collectObjects C L c (rs_ru s) au du orphans deleted)) (\<lambda>objs.
     ret (noResult\<lparr>cr_Id := ce_uuid C (reqlog s), cr_Objects := objs, cr_Errors := GetErrorsList (rs_dew s),
            cr_Warnings := GetWarningsList (rs_dew s)\<rparr>)))"

definition warnDiscriminator :: "TargetContext \<Rightarrow> unit reff" where
  "warnDiscriminator T =
     whenM (t_Discriminator (tc_Target T) = [])
       (r_dew (dew_AddWarning noRef ''no discriminator configured. Orphan object detection will not work''))"

section \<open>diff\<close>

record DiffCommand =
  dfc_ForceApply :: bool
  dfc_ReplaceOnError :: bool
  dfc_ForceReplaceOnError :: bool
  dfc_IgnoreTags :: bool
  dfc_IgnoreLabels :: bool
  dfc_IgnoreAnnotations :: bool

definition seenImages :: "TargetContext \<Rightarrow> FixedImage list" where
  "seenImages T = SeenImages False (tp_Images (tc_Params T))"

definition DiffCommand_Run :: "cmd_env \<Rightarrow> TargetContext \<Rightarrow> DiffCommand \<Rightarrow> cmd_out reff" where
  "DiffCommand_Run C T cmd =
     (let c = tc_DeploymentCollection T; L = df_L (ce_D C) in
      seqM (warnDiscriminator T)
      (bindM (lift (LocalObjectRefs L c)) (\<lambda>refs.
       withSnapshot C (tc_K T) (Some (t_Discriminator (tc_Target T))) refs (\<lambda>k.
       let opts = \<lparr>o_ForceApply = dfc_ForceApply cmd, o_ReplaceOnError = dfc_ReplaceOnError cmd, o_ForceReplaceOnError = dfc_ForceReplaceOnError cmd,
                   o_DryRun = True, o_AbortOnError = False, o_ReadinessTimeout = 0, o_NoWait = False\<rparr> in
       bindM (applyStage C k opts (dc_Deployments c)) (\<lambda>au.
       bindM (diffStage C L (\<lambda>u. u\<lparr>du_IgnoreTags := dfc_IgnoreTags cmd, du_IgnoreLabels := dfc_IgnoreLabels cmd,
                du_IgnoreAnnotations := dfc_IgnoreAnnotations cmd\<rparr>) au (dc_Deployments c)) (\<lambda>du.
       bindM (FindOrphanObjects k c) (\<lambda>orphans.
       case orphans of
         Inl e \<Rightarrow> failWith (apiError e)
       | Inr orphans \<Rightarrow>
           bindM (collectStage C L (Some c) (Some au) (Some du) orphans []) (\<lambda>r.
           let r = r\<lparr>cr_SeenImages := seenImages T, cr_Command := noCommandInfo\<lparr>ci_ForceApply := dfc_ForceApply cmd,
                 ci_ReplaceOnError := dfc_ReplaceOnError cmd, ci_ForceReplaceOnError := dfc_ForceReplaceOnError cmd\<rparr>\<rparr> in
           addBaseCommandInfoToResult C T r ''diff''))))))))"

section \<open>deploy\<close>

record DeployCommand =
  dy_ForceApply :: bool
  dy_ReplaceOnError :: bool
  dy_ForceReplaceOnError :: bool
  dy_AbortOnError :: bool
  dy_ReadinessTimeout :: int
  dy_NoWait :: bool
  dy_Prune :: bool
  dy_WaitPrune :: bool

definition deployOptions :: "DeployCommand \<Rightarrow> bool \<Rightarrow> bool \<Rightarrow> ApplyUtilOptions" where
  "deployOptions cmd dryRun abortOnError =
     \<lparr>o_ForceApply = dy_ForceApply cmd, o_ReplaceOnError = dy_ReplaceOnError cmd, o_ForceReplaceOnError = dy_ForceReplaceOnError cmd,
      o_DryRun = dryRun, o_AbortOnError = abortOnError, o_ReadinessTimeout = dy_ReadinessTimeout cmd, o_NoWait = dy_NoWait cmd\<rparr>"

text \<open>The simulation before the deployment. An error of the orphan detection is overwritten by the answer of the callback.\<close>

definition deployPreview :: "cmd_env \<Rightarrow> TargetContext \<Rightarrow> DeployCommand \<Rightarrow> K8sCluster \<Rightarrow> (CommandResult \<Rightarrow> go_error option) \<Rightarrow> go_error option reff" where
  "deployPreview C T cmd k cb =
     (let c = tc_DeploymentCollection T; L = df_L (ce_D C) in
      bindM (applyStage C k (deployOptions cmd True False) (dc_Deployments c)) (\<lambda>au.
      bindM (diffStage C L id au (dc_Deployments c)) (\<lambda>du.
      bindM (FindOrphanObjects k c) (\<lambda>orphans.
      bindM (collectStage C L (Some c) (Some au) (Some du) (case orphans of Inl _ \<Rightarrow> [] | Inr l \<Rightarrow> l) []) (\<lambda>r.
      ret (cb (r\<lparr>cr_SeenImages := seenImages T\<rparr>)))))))"

text \<open>Pruning inside of a deployment: the deleted objects, and the orphans that are left.\<close>

definition deployPrune :: "cmd_env \<Rightarrow> TargetContext \<Rightarrow> DeployCommand \<Rightarrow> K8sCluster \<Rightarrow> ObjectRef list \<Rightarrow> (ObjectRef list \<times> ObjectRef list) reff" where
  "deployPrune C T cmd k orphans =
     (if dy_Prune cmd \<and> t_Discriminator (tc_Target T) = [] then
        seqM (r_dew (dew_AddError noRef ''pruning without a discriminator is not supported'')) (ret ([], orphans))
      else if dy_Prune cmd then
        bindM (deleteStage C k orphans (dy_WaitPrune cmd)) (\<lambda>deleted. ret (deleted, filter (\<lambda>x. x \<notin> set deleted) orphans))
      else ret ([], orphans))"

definition deployMain :: "cmd_env \<Rightarrow> TargetContext \<Rightarrow> DeployCommand \<Rightarrow> K8sCluster \<Rightarrow> cmd_out reff" where
  "deployMain C T cmd k =
     (let c = tc_DeploymentCollection T; L = df_L (ce_D C) in
      seqM (r_dew (\<lambda>_. dew_Init))
      (bindM (applyStage C k (deployOptions cmd (k_DryRun k) (dy_AbortOnError cmd)) (dc_Deployments c)) (\<lambda>au.
       bindM (diffStage C L id au (dc_Deployments c)) (\<lambda>du.
       bindM (FindOrphanObjects k c) (\<lambda>orphans.
       case orphans of
         Inl e \<Rightarrow> failWith (apiError e)
       | Inr orphans \<Rightarrow>
           bindM (deployPrune C T cmd k orphans) (\<lambda>(deleted, orphans).
           bindM (collectStage C L (Some c) (Some au) (Some du) orphans deleted) (\<lambda>r.
           let r = r\<lparr>cr_SeenImages := seenImages T, cr_Command := noCommandInfo\<lparr>ci_ForceApply := dy_ForceApply cmd,
                 ci_ReplaceOnError := dy_ReplaceOnError cmd, ci_ForceReplaceOnError := dy_ForceReplaceOnError cmd,
                 ci_AbortOnError := dy_AbortOnError cmd, ci_NoWait := dy_NoWait cmd\<rparr>\<rparr> in
           addBaseCommandInfoToResult C T r ''deploy'')))))))"

definition DeployCommand_Run :: "cmd_env \<Rightarrow> TargetContext \<Rightarrow> DeployCommand \<Rightarrow> (CommandResult \<Rightarrow> go_error option) option \<Rightarrow> cmd_out reff" where
  "DeployCommand_Run C T cmd diffResultCb =
     seqM (warnDiscriminator T)
     (bindM (lift (LocalObjectRefs (df_L (ce_D C)) (tc_DeploymentCollection T))) (\<lambda>refs.
      withSnapshot C (tc_K T) (Some (t_Discriminator (tc_Target T))) refs (\<lambda>k.
      bindM (case diffResultCb of None \<Rightarrow> ret None | Some cb \<Rightarrow> deployPreview C T cmd k cb) (\<lambda>err.
      case err of
        Some e \<Rightarrow> failWith e
      | None \<Rightarrow> deployMain C T cmd k))))"

section \<open>prune and delete\<close>

definition confirm :: "(ObjectRef list \<Rightarrow> go_error option) option \<Rightarrow> ObjectRef list \<Rightarrow> go_error option" where
  "confirm cb refs = (case cb of None \<Rightarrow> None | Some f \<Rightarrow> f refs)"

text \<open>The end of both commands: the objects that were found are confirmed and deleted.\<close>

definition deleteConfirmed :: "cmd_env \<Rightarrow> K8sCluster \<Rightarrow> bool \<Rightarrow> (ObjectRef list \<Rightarrow> go_error option) option \<Rightarrow>
    (ObjectRef list \<Rightarrow> cmd_out reff) \<Rightarrow> api_err + ObjectRef list \<Rightarrow> cmd_out reff" where
  "deleteConfirmed C k doWait confirmCb rest refs =
     (case refs of
        Inl e \<Rightarrow> failWith (apiError e)
      | Inr refs \<Rightarrow>
          (case confirm confirmCb refs of
             Some e \<Rightarrow> failWith e
           | None \<Rightarrow> bindM (deleteStage C k refs doWait) rest))"

text \<open>The result of prune has the warnings, not the errors.\<close>

definition PruneCommand_Run :: "cmd_env \<Rightarrow> TargetContext \<Rightarrow> string \<Rightarrow> bool \<Rightarrow> (ObjectRef list \<Rightarrow> go_error option) option \<Rightarrow> cmd_out reff" where
  "PruneCommand_Run C T discriminator doWait confirmCb =
     (let discriminator = (if discriminator = [] then t_Discriminator (tc_Target T) else discriminator); c = tc_DeploymentCollection T in
      if discriminator = [] then failWith (Error ''pruning without a discriminator is not supported'')
      else
        withSnapshot C (tc_K T) (Some discriminator) [] (\<lambda>k.
        bindM (FindOrphanObjects k c) (deleteConfirmed C k doWait confirmCb (\<lambda>deleted.
        bindM (collectStage C (df_L (ce_D C)) (Some c) None None [] deleted) (\<lambda>r.
        addBaseCommandInfoToResult C T (r\<lparr>cr_Errors := []\<rparr>) ''prune'')))))"

record DeleteCommand =
  dlc_discriminator :: string
  dlc_targetCtx :: "TargetContext option"
  dlc_inclusion :: "Inclusion option"
  dlc_wait :: bool

definition deleteInclusion :: "DeleteCommand \<Rightarrow> Inclusion option" where
  "deleteInclusion cmd =
     (case (dlc_inclusion cmd, dlc_targetCtx cmd) of
        (None, Some T) \<Rightarrow> dc_Inclusion (tc_DeploymentCollection T)
      | (inc, _) \<Rightarrow> inc)"

definition deleteDiscriminator :: "DeleteCommand \<Rightarrow> string" where
  "deleteDiscriminator cmd =
     (if dlc_discriminator cmd = [] then (case dlc_targetCtx cmd of None \<Rightarrow> [] | Some T \<Rightarrow> t_Discriminator (tc_Target T))
      else dlc_discriminator cmd)"

definition DeleteCommand_Run :: "cmd_env \<Rightarrow> K8sCluster option \<Rightarrow> DeleteCommand \<Rightarrow> (ObjectRef list \<Rightarrow> go_error option) option \<Rightarrow> int \<Rightarrow> cmd_out reff" where
  "DeleteCommand_Run C k cmd confirmCb startTime =
     (let inclusion = deleteInclusion cmd; discriminator = deleteDiscriminator cmd in
      if discriminator = [] then failWith (Error ''deletion without a discriminator is not supported'')
      else
        withSnapshot C k (Some discriminator) [] (\<lambda>k.
        bindM (ask rs_ru) (\<lambda>ru.
        bindM (lift (GetFilteredRemoteObjects inclusion ru)) (\<lambda>objs.
        bindM (FindObjectsForDelete k objs (HasType inclusion ''tags'') []) (deleteConfirmed C k (dlc_wait cmd) confirmCb (\<lambda>deleted.
        bindM (collectStage C (df_L (ce_D C)) (map_option tc_DeploymentCollection (dlc_targetCtx cmd)) None None [] deleted) (\<lambda>r.
        case dlc_targetCtx cmd of
          Some T \<Rightarrow> addBaseCommandInfoToResult C T r ''delete''
        | None \<Rightarrow> addDeleteCommandInfoToResult C k startTime inclusion r)))))))"

section \<open>poke-images\<close>

text \<open>The images that were seen, per object; an image of an object that is not part of the deployment is an error.\<close>

definition associateImage :: "(ObjectRef, uo) gomap \<Rightarrow> FixedImage \<Rightarrow> DeploymentErrorsAndWarnings \<times> (ObjectRef, FixedImage list) gomap \<Rightarrow>
    (DeploymentErrorsAndWarnings \<times> (ObjectRef, FixedImage list) gomap) res" where
  "associateImage allObjects fi st =
     (case fi_Object fi of
        None \<Rightarrow> Inl nilPanic
      | Some ref \<Rightarrow>
          (case st of (dw, m) \<Rightarrow>
             if map_of allObjects ref = None then
               Inr (dew_AddError ref ''object not found while trying to associate image with deployed object'' dw, m)
             else Inr (dw, AList.update ref ((case map_of m ref of None \<Rightarrow> [] | Some l \<Rightarrow> l) @ [fi]) m)))"

definition fieldPathes :: "keypath list" where
  "fieldPathes = [[KStr ''spec'', KStr ''template'', KStr ''spec'', KStr ''containers''],
                  [KStr ''spec'', KStr ''template'', KStr ''spec'', KStr ''initContainers'']]"

text \<open>The containers are maps inside of the object: setting a field of one changes the object.\<close>

definition pokeContainer :: "FixedImage \<Rightarrow> keypath \<Rightarrow> nat \<times> uo \<Rightarrow> uo \<Rightarrow> uo" where
  "pokeContainer fi path ic ob =
     (case ic of (i, c) \<Rightarrow>
        if fi_Container fi = Some (strAt [KStr ''name''] c) then
          fst (SetNestedField (VStr (fi_ResultImage fi)) (path @ [KInt (int i), KStr ''image'']) ob)
        else ob)"

definition pokePath :: "FixedImage \<Rightarrow> keypath \<Rightarrow> uo \<Rightarrow> uo" where
  "pokePath fi path ob = fold (pokeContainer fi path) (enumerate 0 (GetNestedObjectListNoErr path ob)) ob"

definition doPokeImage :: "FixedImage list \<Rightarrow> uo \<Rightarrow> uo" where
  "doPokeImage images ob = fold (\<lambda>fi. fold (pokePath fi) fieldPathes) images ob"

text \<open>One worker: it works on an \<^verbatim>\<open>ApplyUtil\<close> of its own, which is kept with the results.\<close>

definition pokeObject :: "ApplyEnv \<Rightarrow> (ObjectRef, FixedImage list) gomap \<Rightarrow> ObjectRef \<Rightarrow> unit aeff" where
  "pokeObject E containersAndImages ref =
     (case GetRemoteObject (ae_ru E) ref of
        None \<Rightarrow> modify (\<lambda>s. s\<lparr>dew := dew_AddWarning ref ''remote object not found, skipped image replacement'' (dew s)\<rparr>)
      | Some remote \<Rightarrow>
          ReplaceObject E ref (Some remote) (\<lambda>ob. Inr (doPokeImage (case map_of containersAndImages ref of None \<Rightarrow> [] | Some l \<Rightarrow> l) ob)))"

fun pokeWorkers :: "ApplyEnv \<Rightarrow> (ObjectRef, FixedImage list) gomap \<Rightarrow> ObjectRef list \<Rightarrow> shared \<Rightarrow> (shared \<times> ApplyUtil list) res" where
  "pokeWorkers E m [] sh = Inr (sh, [])"
| "pokeWorkers E m (ref # refs) sh =
     (case pokeObject E m ref (worker sh) of
        (Inl e, _) \<Rightarrow> Inl e
      | (Inr _, a) \<Rightarrow> bindE (pokeWorkers E m refs (sharedOf a)) (\<lambda>(sh', as). Inr (sh', a # as)))"

definition pokeOptions :: ApplyUtilOptions where
  "pokeOptions = \<lparr>o_ForceApply = False, o_ReplaceOnError = False, o_ForceReplaceOnError = False, o_DryRun = False,
     o_AbortOnError = False, o_ReadinessTimeout = 0, o_NoWait = False\<rparr>"

definition pokeStage :: "cmd_env \<Rightarrow> K8sCluster \<Rightarrow> (ObjectRef, FixedImage list) gomap \<Rightarrow> ApplyUtil list reff" where
  "pokeStage C k m s =
     (case pokeWorkers (applyEnvFor C k pokeOptions s) m (ce_visitRefs C (map fst m)) (sharedFor s) of
        Inl e \<Rightarrow> (Inl e, s)
      | Inr (sh, as) \<Rightarrow> (Inr as, s\<lparr>reqlog := sh_log sh, rs_dew := sh_dew sh\<rparr>))"

definition PokeImagesCommand_Run :: "cmd_env \<Rightarrow> TargetContext \<Rightarrow> cmd_out reff" where
  "PokeImagesCommand_Run C T =
     (let c = tc_DeploymentCollection T; L = df_L (ce_D C) in
      bindM (lift (LocalObjectRefs L c)) (\<lambda>refs.
      withSnapshot C (tc_K T) None refs (\<lambda>k.
      bindM (lift (LocalObjectsByRef L c)) (\<lambda>allObjects.
      bindM (ask rs_dew) (\<lambda>dw.
      bindM (lift (foldE (associateImage allObjects) (seenImages T) (dw, []))) (\<lambda>(dw', m).
      seqM (modify (\<lambda>s. s\<lparr>rs_dew := dw'\<rparr>))
      (bindM (pokeStage C k m) (\<lambda>au.
       bindM (diffStage C L id au (dc_Deployments c)) (\<lambda>du.
       bindM (FindOrphanObjects k c) (\<lambda>orphans.
       case orphans of
         Inl e \<Rightarrow> failWith (apiError e)
       | Inr orphans \<Rightarrow>
           bindM (collectStage C L (Some c) (Some au) (Some du) orphans []) (\<lambda>r.
           addBaseCommandInfoToResult C T (r\<lparr>cr_SeenImages := seenImages T\<rparr>) ''deploy'')))))))))))"

section \<open>validate\<close>

record ValidateCommand =
  vc_c :: "DeploymentCollection option"
  vc_r :: "CommandResult option"
  vc_discriminator :: string

record FullValidateResult = ValidateResult +
  fvr_Id :: string
  fvr_StartTime :: int
  fvr_EndTime :: int
  fvr_Drift :: "ChangedObject list"

text \<open>What is validated: all references, the rendered objects and the applied objects, and the discriminator of the result.\<close>

definition fromResult :: "ResultObject list \<Rightarrow> ObjectRef list \<times> uo list \<times> (ObjectRef, uo) gomap" where
  "fromResult objs =
     (let shown = filter (\<lambda>x. \<not> bo_Hook (ro_Base x)) objs in
      (map (\<lambda>x. bo_Ref (ro_Base x)) objs, List.map_filter ro_Rendered shown,
       foldl (\<lambda>m x. case ro_Applied x of None \<Rightarrow> m | Some a \<Rightarrow> AList.update (bo_Ref (ro_Base x)) a m) [] shown))"

definition validateInput :: "k8s_lib \<Rightarrow> ValidateCommand \<Rightarrow> (ObjectRef list \<times> uo list \<times> (ObjectRef, uo) gomap) res" where
  "validateInput L cmd =
     (case (vc_c cmd, vc_r cmd) of
        (Some c, Some r) \<Rightarrow> Inl (Error ''passing both deployment collection and command result is not allowed'')
      | (Some c, None) \<Rightarrow> bindE (mapE (GetK8sRef L) (LocalObjects c)) (\<lambda>refs. Inr (refs, LocalObjects c, []))
      | (None, Some r) \<Rightarrow> Inr (fromResult (cr_Objects r))
      | (None, None) \<Rightarrow> Inl (Error ''either deployment collection or command result must be passed''))"

definition validateOne :: "cmd_env \<Rightarrow> K8sCluster option \<Rightarrow> uo \<Rightarrow> ValidateResult \<Rightarrow> ValidateResult reff" where
  "validateOne C k ob res =
     bindM (\<lambda>s. case GetHook ((ce_A C)\<lparr>ae_ru := rs_ru s, ae_o := pokeOptions\<rparr>) ob (worker (sharedFor s)) of
        (r, a) \<Rightarrow> (r, s\<lparr>reqlog := reqlog a, rs_dew := dew a\<rparr>)) (\<lambda>hook.
     if (case hook of None \<Rightarrow> False | Some h \<Rightarrow> \<not> IsPersistent h) then ret res
     else
       bindM (lift (GetK8sRef (df_L (ce_D C)) ob)) (\<lambda>ref.
       bindM (ask (\<lambda>s. GetRemoteObject (rs_ru s) ref)) (\<lambda>remote.
       case remote of
         None \<Rightarrow> ret (res\<lparr>vr_Errors := vr_Errors res @ [\<lparr>de_Ref = ref, de_Message = ''object not found''\<rparr>]\<rparr>)
       | Some remoteObject \<Rightarrow>
           bindM (ValidateObject k (df_L (ce_D C)) (ae_f2i (ce_A C)) remoteObject True False) (\<lambda>r.
           ret \<lparr>vr_Ready = vr_Ready res \<and> vr_Ready r, vr_Warnings = vr_Warnings res @ vr_Warnings r,
                vr_Errors = vr_Errors res @ vr_Errors r, vr_Results = vr_Results res @ vr_Results r\<rparr>))))"

fun validateAll :: "cmd_env \<Rightarrow> K8sCluster option \<Rightarrow> uo list \<Rightarrow> ValidateResult \<Rightarrow> ValidateResult reff" where
  "validateAll C k [] res = ret res"
| "validateAll C k (ob # obs) res = bindM (validateOne C k ob res) (validateAll C k obs)"

text \<open>
  The discriminator of the result is computed and not used; objects are asked for with the one of the command.
\<close>

definition ValidateCommand_Run :: "cmd_env \<Rightarrow> K8sCluster option \<Rightarrow> ValidateCommand \<Rightarrow> (go_error + FullValidateResult) reff" where
  "ValidateCommand_Run C k cmd =
     bindM (ask (\<lambda>s. (ce_uuid C (reqlog s), ce_now C (reqlog s)))) (\<lambda>(uuid, start).
     seqM (r_dew (\<lambda>_. dew_Init))
     (case validateInput (df_L (ce_D C)) cmd of
        Inl (Error m) \<Rightarrow> ret (Inl (Error m))
      | Inl e \<Rightarrow> throw e
      | Inr (refs, rendered, applied) \<Rightarrow>
          bindM (UpdateRemoteObjects (ce_sched1 C) (ce_sched2 C) k (Some (vc_discriminator cmd)) refs True) (\<lambda>err.
          case err of
            Some e \<Rightarrow> ret (Inl (apiError e))
          | None \<Rightarrow>
              bindM (validateAll C k rendered allGood) (\<lambda>res.
              bindM (ask id) (\<lambda>s.
              bindM (lift (NewDiffUtil (df_L (ce_D C)) (ce_visit C) (rs_ru s) applied)) (\<lambda>u.
              bindM (lift (DiffObjects (ce_D C) (ce_X C) (ce_schedDiff C) rendered (rs_dew s) (u\<lparr>du_Swapped := True\<rparr>))) (\<lambda>(dw, u).
              seqM (modify (\<lambda>s. s\<lparr>rs_dew := dw\<rparr>))
              (ret (Inr (ValidateResult.extend
                 (res\<lparr>vr_Warnings := vr_Warnings res @ GetWarningsList dw, vr_Errors := vr_Errors res @ GetErrorsList dw\<rparr>)
                 \<lparr>fvr_Id = uuid, fvr_StartTime = start, fvr_EndTime = ce_now C (reqlog s), fvr_Drift = du_ChangedObjects u\<rparr>))))))))))"

definition ValidateCommand_ForgetRemoteObject :: "ObjectRef \<Rightarrow> unit reff" where
  "ValidateCommand_ForgetRemoteObject ref = modify (\<lambda>s. s\<lparr>rs_ru := ForgetRemoteObject ref (rs_ru s)\<rparr>)"

end
