(* ===== verification/Command_Properties.thy ===== *)
theory Command_Properties
  imports Commands
begin

text \<open>
  What the commands do on the cluster and report: the requests of every stage, the safety of diff, deploy, prune,
  delete and validate, and the contents of a result.
\<close>

section \<open>Requests of the stages\<close>

lemma logs_stages [logs_intros]:
  "always (logs P) (failWith e)" "always (logs P) (warnDiscriminator T)"
  "always (logs P) (diffStage C L f as ds)" "always (logs P) (collectStage C L c au du orphans deleted)"
  unfolding failWith_def warnDiscriminator_def diffStage_def collectStage_def
  by (intro logs.always_intros logs_r_ops; simp add: logs_def)+

lemma logs_findRounds: "always (logs P) (findRounds k objects tags fs excluded acc)"
proof (induction fs arbitrary: excluded acc)
  case (Cons f fs)
  show ?case
    unfolding findRounds.simps filterObjectsForDelete_def selectForDelete_def objectRefForExclusion_def
    by (intro logs.always_intros logs_intros Cons.IH)
qed (simp add: logs.always_pure)

lemma logs_FindObjectsForDelete [logs_intros]: "always (logs P) (FindObjectsForDelete k objects tags excluded)"
  unfolding FindObjectsForDelete_def objectRefForExclusion_def by (intro logs.always_intros logs_intros logs_findRounds)

lemma logs_FindOrphanObjects [logs_intros]: "always (logs P) (FindOrphanObjects k c)"
  unfolding FindOrphanObjects_def by (intro logs.always_intros logs_intros)

lemma logs_addClusterInfo [logs_intros]: "(\<And>r. read_only r \<Longrightarrow> P r) \<Longrightarrow> always (logs P) (addClusterInfo k r)"
  unfolding addClusterInfo_def by (intro logs.always_intros logs_intros)

lemma logs_addInfo [logs_intros]:
  assumes "\<And>r. read_only r \<Longrightarrow> P r"
  shows "always (logs P) (addBaseCommandInfoToResult C T r command)" "always (logs P) (addDeleteCommandInfoToResult C k t inc r)"
proof -
  show "always (logs P) (addBaseCommandInfoToResult C T r command)"
    unfolding addBaseCommandInfoToResult_def Let_def
    by (intro logs.always_intros logs_intros assms)
      (auto intro!: logs.always_intros logs_intros assms split: sum.split go_error.split)
  show "always (logs P) (addDeleteCommandInfoToResult C k t inc r)"
    unfolding addDeleteCommandInfoToResult_def by (intro logs.always_intros logs_intros assms)
qed

lemma logs_withSnapshot:
  assumes "\<And>r. read_only r \<Longrightarrow> P r" "\<And>k'. k = Some k' \<Longrightarrow> always (logs P) (rest k')"
  shows "always (logs P) (withSnapshot C k d refs rest)"
  unfolding withSnapshot_def by (intro logs.always_intros logs_intros logs_UpdateRemoteObjects assms)

lemma logs_applyStage:
  assumes "schedule (ce_run C)" "\<And>q E. flagged E q \<Longrightarrow> ae_k E = k \<Longrightarrow> ae_o E = opts \<Longrightarrow> P q"
  shows "always (logs P) (applyStage C k opts ds)"
proof (rule alwaysI)
  fix s
  let ?E = "applyEnvFor C k opts s"
  show "logs P s (snd (applyStage C k opts ds s))"
  proof (cases "ce_run C ?E ds (sharedFor s)")
    case (Inr x)
    obtain sh as where x: "x = (sh, as)" by (cases x)
    obtain new where "sh_log sh = reqlog s @ new" "list_all (flagged ?E) new"
      using schedule.run_logs [OF assms(1), of ?E ds "sharedFor s" sh as] Inr x by (auto simp: sharedFor_def)
    then show ?thesis using Inr x assms(2) [of ?E] by (auto simp: applyStage_def logs_def applyEnvFor_def list_all_iff)
  qed (simp add: applyStage_def logs_same)
qed

lemma logs_deleteStage:
  assumes "\<And>l. set (ce_sched2 C l) = set l" "\<And>q. deleteReq k (set refs) q \<Longrightarrow> P q"
  shows "always (logs P) (deleteStage C k refs doWait)"
proof (rule alwaysI)
  fix s :: rstate
  let ?d = "\<lparr>reqlog = reqlog s, ds_dew = rs_dew s, ds_ret = []\<rparr>"
  have "logs (deleteReq k (set refs)) ?d (snd (DeleteObjects (ce_sched2 C) k refs doWait ?d))"
    using logs_DeleteObjects [OF assms(1)] by (rule alwaysD)
  then show "logs P s (snd (deleteStage C k refs doWait s))"
    using assms(2) by (auto simp: deleteStage_def logs_def list_all_iff split: prod.splits)
qed

section \<open>Properties of the commands\<close>

lemma read_only_harmless: "read_only q \<Longrightarrow> harmless q"
  by (cases q) (simp_all add: read_only_def)

lemma dry_flagged: "flagged E q \<Longrightarrow> k_DryRun (ae_k E) \<or> o_DryRun (ae_o E) \<Longrightarrow> harmless q"
  by (rule flagged_harmless) (simp_all add: dryFlag_def)

lemma logs_new: "always (logs P) m \<Longrightarrow> m s = (r, s') \<Longrightarrow> \<exists>new. reqlog s' = reqlog s @ new \<and> (\<forall>q \<in> set new. P q)"
  by (erule logs_E) blast+

text \<open>
  C1: A diff changes nothing. However the items are scheduled and whatever options are set, every request of the
  command is harmless: it reads, or it is a simulation.
\<close>

theorem DiffCommand_harmless:
  assumes "DiffCommand_Run C T cmd s = (Inr out, s')" and "schedule (ce_run C)"
  shows "\<exists>new. reqlog s' = reqlog s @ new \<and> (\<forall>q \<in> set new. harmless q)"
proof -
  have "always (logs harmless) (DiffCommand_Run C T cmd)"
    unfolding DiffCommand_Run_def Let_def
    by (intro logs.always_intros logs_intros logs_withSnapshot logs_applyStage assms(2)) (auto intro: dry_flagged read_only_harmless)
  then show ?thesis using assms(1) by (rule logs_new)
qed

text \<open>A deployment: what is before the callback has answered, and what is after it.\<close>

lemma logs_deployPreview:
  "schedule (ce_run C) \<Longrightarrow> always (logs harmless) (deployPreview C T cmd k cb)"
  unfolding deployPreview_def Let_def by (intro logs.always_intros logs_intros logs_applyStage) (auto intro: dry_flagged simp: deployOptions_def)

lemma logs_deployMain:
  assumes "schedule (ce_run C)" "\<And>l. set (ce_sched2 C l) = set l" "k_DryRun k"
  shows "always (logs harmless) (deployMain C T cmd k)"
  unfolding deployMain_def deployPrune_def Let_def using assms
  by (intro logs.always_intros logs_intros logs_applyStage logs_deleteStage logs_r_ops)
    (auto intro: dry_flagged read_only_harmless simp: deployOptions_def deleteReq_def)

lemma deployPreview_answer: "deployPreview C T cmd k cb s = (Inr err, s') \<Longrightarrow> \<exists>r. err = cb r"
  by (auto simp: deployPreview_def Let_def bindM_Inr_iff run_simps)

lemma DeployCommand_stages:
  assumes "DeployCommand_Run C T cmd cb s = (Inr out, s')" and "schedule (ce_run C)"
  obtains "logs harmless s s'" "\<exists>e. out = (None, Some e)"
  | k s1 where "tc_K T = Some k" "logs harmless s s1" "deployMain C T cmd k s1 = (Inr out, s')" "\<And>f. cb = Some f \<Longrightarrow> \<exists>r. f r = None"
proof -
  let ?L = "df_L (ce_D C)"
  obtain x s0 refs where 0: "warnDiscriminator T s = (Inr x, s0)"
    and w: "withSnapshot C (tc_K T) (Some (t_Discriminator (tc_Target T))) refs (\<lambda>k.
      bindM (case cb of None \<Rightarrow> ret None | Some cb \<Rightarrow> deployPreview C T cmd k cb) (\<lambda>err.
      case err of Some e \<Rightarrow> failWith e | None \<Rightarrow> deployMain C T cmd k)) s0 = (Inr out, s')"
    using assms(1) by (auto simp: DeployCommand_Run_def seqM_def bindM_Inr_iff run_simps)
  have l0: "logs harmless s s0" using alwaysD [OF logs_stages(2), of harmless s T] 0 by simp
  obtain err s1 where 1: "UpdateRemoteObjects (ce_sched1 C) (ce_sched2 C) (tc_K T) (Some (t_Discriminator (tc_Target T))) refs False s0 = (Inr err, s1)"
    and w1: "(case err of Some e \<Rightarrow> failWith (apiError e) | None \<Rightarrow> (case tc_K T of None \<Rightarrow> throw nilPanic | Some k \<Rightarrow>
      bindM (case cb of None \<Rightarrow> ret None | Some cb \<Rightarrow> deployPreview C T cmd k cb) (\<lambda>err.
      case err of Some e \<Rightarrow> failWith e | None \<Rightarrow> deployMain C T cmd k))) s1 = (Inr out, s')"
    using w unfolding withSnapshot_def bindM_Inr_iff by blast
  have l1: "logs harmless s s1"
    using alwaysD [OF logs_UpdateRemoteObjects [of harmless], of s0] 1 l0 read_only_harmless logs.trans by (metis snd_conv)
  show ?thesis
  proof (cases err)
    case (Some e)
    then have "out = (None, Some (apiError e)) \<and> s' = s1" using w1 by (simp add: failWith_def run_simps)
    then show ?thesis using that(1) l1 by blast
  next
    case None
    then obtain k err2 s2 where k: "tc_K T = Some k" and 2: "(case cb of None \<Rightarrow> ret None | Some cb \<Rightarrow> deployPreview C T cmd k cb) s1 = (Inr err2, s2)"
      and w2: "(case err2 of Some e \<Rightarrow> failWith e | None \<Rightarrow> deployMain C T cmd k) s2 = (Inr out, s')"
      using w1 by (auto simp: bindM_Inr_iff run_simps split: option.splits)
    have "always (logs harmless) (case cb of None \<Rightarrow> ret None | Some cb \<Rightarrow> deployPreview C T cmd k cb)"
      using assms(2) by (intro logs.always_intros logs_deployPreview)
    then have "logs harmless s1 s2" using 2 by (metis alwaysD snd_conv)
    with l1 have l2: "logs harmless s s2" by (rule logs.trans)
    show ?thesis
    proof (cases err2)
      case (Some e)
      then have "out = (None, Some e) \<and> s' = s2" using w2 by (simp add: failWith_def run_simps)
      then show ?thesis using that(1) l2 by blast
    next
      case None
      have "\<exists>r. f r = None" if "cb = Some f" for f
        using deployPreview_answer [of C T cmd k f s1 err2 s2] 2 None that by (metis option.simps(5))
      then show ?thesis using that(2) [OF k l2] w2 None by simp
    qed
  qed
qed

text \<open>
  C2: A deployment writes nothing before it was agreed to. Every request before the callback has agreed is
  harmless; when the callback never agrees, so is the whole command, which then ends with an error; and in a dry
  run every request of the command is harmless, the pruning of orphans included.
\<close>

theorem DeployCommand_writes:
  assumes "DeployCommand_Run C T cmd cb s = (Inr out, s')" and "schedule (ce_run C)" and "\<And>l. set (ce_sched2 C l) = set l"
  shows "\<exists>before after. reqlog s' = reqlog s @ before @ after \<and> (\<forall>q \<in> set before. harmless q) \<and>
    ((\<exists>f. cb = Some f \<and> (\<forall>r. f r \<noteq> None)) \<longrightarrow> after = [] \<and> fst out = None \<and> snd out \<noteq> None) \<and>
    ((\<exists>k. tc_K T = Some k \<and> k_DryRun k) \<longrightarrow> (\<forall>q \<in> set after. harmless q))"
  using assms(1,2)
proof (rule DeployCommand_stages)
  assume "logs harmless s s'" "\<exists>e. out = (None, Some e)"
  then show ?thesis unfolding logs_def list_all_iff by (metis append_Nil2 empty_iff fst_conv list.set(1) option.distinct(1) snd_conv)
next
  fix k s1
  assume k: "tc_K T = Some k" "logs harmless s s1" "deployMain C T cmd k s1 = (Inr out, s')" "\<And>f. cb = Some f \<Longrightarrow> \<exists>r. f r = None"
  have "always (logs (\<lambda>_. True)) (deployMain C T cmd k)"
    unfolding deployMain_def deployPrune_def Let_def
    by (intro logs.always_intros logs_intros logs_applyStage logs_deleteStage logs_r_ops assms) simp_all
  from logs_new [OF this k(3)] obtain after where a: "reqlog s' = reqlog s1 @ after" by blast
  have d: "\<forall>q \<in> set after. harmless q" if "k_DryRun k"
    using logs_new [OF logs_deployMain [OF assms(2,3) that] k(3)] a by auto
  obtain before where "reqlog s1 = reqlog s @ before" "\<forall>q \<in> set before. harmless q" using k(2) by (auto simp: logs_def list_all_iff)
  then have "reqlog s' = reqlog s @ before @ after \<and> (\<forall>q \<in> set before. harmless q)" using a by simp
  moreover have "\<not> (\<exists>f. cb = Some f \<and> (\<forall>r. f r \<noteq> None))" using k(4) by blast
  moreover have "(\<exists>k. tc_K T = Some k \<and> k_DryRun k) \<longrightarrow> (\<forall>q \<in> set after. harmless q)" using d k(1) by simp
  ultimately show ?thesis by blast
qed

text \<open>
  An object a command may delete: it is in the snapshot, passes the inclusion, is managed by kluctl, unowned and
  not protected, and is none of the excluded ones.
\<close>

definition mayDelete :: "K8sCluster \<Rightarrow> request list \<Rightarrow> RemoteObjectUtils \<Rightarrow> Inclusion option \<Rightarrow> ObjectRef list \<Rightarrow> ObjectRef \<Rightarrow> bool" where
  "mayDelete k h ru inclusion excluded ref \<longleftrightarrow>
     (\<exists>ob iv. ob \<in> snd ` set (ru_remoteObjects ru) \<and> GetK8sRef (k_lib k) ob = Inr ref \<and>
        getInclusionEntries ob = Inr iv \<and> CheckIncluded inclusion iv False \<and>
        deletable (HasType inclusion ''tags'') ob \<and> exclusionKey k h ref \<notin> exclusionKey k h ` set excluded)"

lemma GetFilteredRemoteObjects_in:
  assumes "GetFilteredRemoteObjects inclusion ru = Inr objs" "ob \<in> set objs"
  shows "ob \<in> snd ` set (ru_remoteObjects ru) \<and> (\<exists>iv. getInclusionEntries ob = Inr iv \<and> CheckIncluded inclusion iv False)"
proof -
  let ?f = "\<lambda>(_, ob). bindE (getInclusionEntries ob) (\<lambda>iv. Inr (if CheckIncluded inclusion iv False then [ob] else []))"
  obtain ll where "mapE ?f (ru_remoteObjects ru) = Inr ll" "objs = concat ll"
    using assms(1) by (auto simp: GetFilteredRemoteObjects_def bindE_Inr_iff)
  then obtain x l where x: "x \<in> set (ru_remoteObjects ru)" "?f x = Inr l" "ob \<in> set l"
    using mapE_concat [of ?f _ ll "\<lambda>y. y = ob"] assms(2) by blast
  obtain n x' where n: "x = (n, x')" by (cases x)
  have "x' = ob \<and> (\<exists>iv. getInclusionEntries ob = Inr iv \<and> CheckIncluded inclusion iv False)"
    using x(2,3) by (auto simp: n bindE_Inr_iff split: if_splits)
  then show ?thesis using x(1) n by (metis image_eqI snd_conv)
qed

lemma FindObjectsForDelete_may:
  assumes "GetFilteredRemoteObjects inclusion ru = Inr objs"
    and "FindObjectsForDelete k objs (HasType inclusion ''tags'') excluded s = (Inr (Inr refs), s1)"
  shows "s1 = s \<and> (\<forall>ref \<in> set refs. mayDelete k (reqlog s) ru inclusion excluded ref)"
proof -
  have r: "s1 = s" "rounds_ok k (reqlog s) objs (HasType inclusion ''tags'') deleteOrder (map (exclusionKey k (reqlog s)) excluded) refs"
    using FindObjectsForDelete_run [OF assms(2)] by auto
  have "mayDelete k (reqlog s) ru inclusion excluded ref" if ref: "ref \<in> set refs" for ref
  proof -
    obtain ob where "ob \<in> set objs" "GetK8sRef (k_lib k) ob = Inr ref" "deletable (HasType inclusion ''tags'') ob"
      "exclusionKey k (reqlog s) ref \<notin> exclusionKey k (reqlog s) ` set excluded"
      using r(2) ref unfolding rounds_ok_def by auto
    then show ?thesis using GetFilteredRemoteObjects_in [OF assms(1)] unfolding mayDelete_def by blast
  qed
  then show ?thesis using r(1) by blast
qed

text \<open>
  What a command that deletes does on the cluster: nothing, or it takes the snapshot, and then deletes only objects
  that may be deleted according to it, after they were confirmed.
\<close>

definition deletesOnly :: "cmd_env \<Rightarrow> K8sCluster option \<Rightarrow> string \<Rightarrow> Inclusion option \<Rightarrow> (k8s_lib \<Rightarrow> ObjectRef list res) \<Rightarrow>
    (ObjectRef list \<Rightarrow> go_error option) option \<Rightarrow> rstate \<Rightarrow> rstate \<Rightarrow> bool" where
  "deletesOnly C k discriminator inclusion excluded cb s s' \<longleftrightarrow>
     (\<exists>new. reqlog s' = reqlog s @ new \<and> (\<forall>q \<in> set new. read_only q)) \<or>
     (\<exists>k' s1 ex refs new. k = Some k' \<and> discriminator \<noteq> [] \<and>
        UpdateRemoteObjects (ce_sched1 C) (ce_sched2 C) k (Some discriminator) [] False s = (Inr None, s1) \<and>
        excluded (k_lib k') = Inr ex \<and> (\<forall>ref \<in> set refs. mayDelete k' (reqlog s1) (rs_ru s1) inclusion ex ref) \<and>
        confirm cb refs = None \<and> reqlog s' = reqlog s1 @ new \<and>
        (\<forall>q \<in> set new. read_only q \<or> (\<exists>ref \<in> set refs. q = ReqDelete ref (k_DryRun k'))))"

lemma deletesOnly_reads: "logs read_only s s' \<Longrightarrow> deletesOnly C k d inc ex cb s s'"
  by (auto simp: deletesOnly_def logs_def list_all_iff)

text \<open>The part the two commands share, with the collection of the result as \<open>rest\<close>.\<close>

lemma deletesOnly_run:
  assumes sched: "\<And>l. set (ce_sched2 C l) = set l"
    and snapshot: "UpdateRemoteObjects (ce_sched1 C) (ce_sched2 C) (Some k) (Some d) [] False s = (Inr None, s1)" "d \<noteq> []"
    and objs: "GetFilteredRemoteObjects inclusion (rs_ru s1) = Inr objs" "excluded (k_lib k) = Inr ex"
    and refs: "FindObjectsForDelete k objs (HasType inclusion ''tags'') ex s1 = (Inr r, s2)"
    and rest: "deleteConfirmed C k doWait cb rest r s2 = (Inr out, s')"
    and reads: "\<And>x. always (logs read_only) (rest x)"
  shows "deletesOnly C (Some k) d inclusion excluded cb s s'"
proof -
  have l1: "logs read_only s s1" using alwaysD [OF logs_UpdateRemoteObjects [of read_only], of s] snapshot(1) by (metis snd_conv)
  have "logs read_only s1 s2" using alwaysD [OF logs_FindObjectsForDelete, of read_only s1] refs by (metis snd_conv)
  with l1 have l2: "logs read_only s s2" by (rule logs.trans)
  show ?thesis
  proof (cases r)
    case (Inl e)
    then show ?thesis using rest l2 by (intro deletesOnly_reads) (simp add: deleteConfirmed_def failWith_def run_simps)
  next
    case (Inr refs)
    have f: "s2 = s1" "\<And>ref. ref \<in> set refs \<Longrightarrow> mayDelete k (reqlog s1) (rs_ru s1) inclusion ex ref"
      using FindObjectsForDelete_may [OF objs(1) assms(6) [unfolded Inr]] by auto
    show ?thesis
    proof (cases "confirm cb refs")
      case (Some e)
      then show ?thesis using rest Inr l2 by (intro deletesOnly_reads) (simp add: deleteConfirmed_def failWith_def run_simps)
    next
      case None
      have "always (logs (deleteReq k (set refs))) (bindM (deleteStage C k refs doWait) rest)"
        by (intro logs.always_intros logs_deleteStage sched always_mono [OF reads]) (auto elim: logs_mono simp: deleteReq_def)
      moreover have "bindM (deleteStage C k refs doWait) rest s1 = (Inr out, s')" using rest Inr None f(1) by (simp add: deleteConfirmed_def)
      ultimately obtain new where "reqlog s' = reqlog s1 @ new" "\<forall>q \<in> set new. deleteReq k (set refs) q"
        using logs_new by blast
      then show ?thesis unfolding deletesOnly_def deleteReq_def using snapshot objs(2) f(2) None by blast
    qed
  qed
qed

lemma logs_finish:
  "always (logs read_only) (bindM (collectStage C L c au du orphans deleted) (\<lambda>r. addBaseCommandInfoToResult C T (f r) command))"
  "always (logs read_only) (bindM (collectStage C L c au du orphans deleted) (\<lambda>r. case T' of
     Some T \<Rightarrow> addBaseCommandInfoToResult C T r command | None \<Rightarrow> addDeleteCommandInfoToResult C k t inc r))"
  by (intro logs.always_intros logs_intros; assumption)+

text \<open>The snapshot fails, or the rest runs with the cluster.\<close>

lemma withSnapshot_cases:
  assumes "withSnapshot C k d refs rest s = (Inr out, s')"
  obtains "logs read_only s s'"
  | k' s1 where "k = Some k'" "UpdateRemoteObjects (ce_sched1 C) (ce_sched2 C) k d refs False s = (Inr None, s1)" "rest k' s1 = (Inr out, s')"
proof -
  obtain err s1 where 1: "UpdateRemoteObjects (ce_sched1 C) (ce_sched2 C) k d refs False s = (Inr err, s1)"
    and r: "(case err of Some e \<Rightarrow> failWith (apiError e) | None \<Rightarrow> (case k of None \<Rightarrow> throw nilPanic | Some k \<Rightarrow> rest k)) s1 = (Inr out, s')"
    using assms unfolding withSnapshot_def bindM_Inr_iff by blast
  have l: "logs read_only s s1" using alwaysD [OF logs_UpdateRemoteObjects [of read_only], of s] 1 by (metis snd_conv)
  show ?thesis
  proof (cases err)
    case None
    then show ?thesis using that(2) 1 r by (cases k) (simp_all add: run_simps)
  qed (use that(1) l r in \<open>simp add: failWith_def run_simps\<close>)
qed


text \<open>
  The same for the deletion of a whole deployment, for which no local object is excluded: without a discriminator
  nothing is sent, and only objects of the snapshot that pass the inclusion and that kluctl may delete are deleted.
\<close>

theorem DeleteCommand_safe:
  assumes "DeleteCommand_Run C k cmd cb t s = (Inr out, s')" and "\<And>l. set (ce_sched2 C l) = set l"
  shows "(deleteDiscriminator cmd = [] \<longrightarrow> s' = s \<and> fst out = None) \<and>
    deletesOnly C k (deleteDiscriminator cmd) (deleteInclusion cmd) (\<lambda>_. Inr []) cb s s'"
proof (cases "deleteDiscriminator cmd = []")
  case True
  then have "s' = s \<and> out = (None, Some (Error ''deletion without a discriminator is not supported''))"
    using assms(1) by (simp add: DeleteCommand_Run_def failWith_def run_simps)
  then show ?thesis using deletesOnly_reads [OF logs.refl, of C k] by auto
next
  case False
  let ?inc = "deleteInclusion cmd" and ?d = "deleteDiscriminator cmd"
  let ?rest = "\<lambda>k deleted. bindM (collectStage C (df_L (ce_D C)) (map_option tc_DeploymentCollection (dlc_targetCtx cmd)) None None [] deleted) (\<lambda>r.
        case dlc_targetCtx cmd of
          Some T \<Rightarrow> addBaseCommandInfoToResult C T r ''delete''
        | None \<Rightarrow> addDeleteCommandInfoToResult C k t ?inc r)"
  let ?body = "\<lambda>k. bindM (ask rs_ru) (\<lambda>ru. bindM (lift (GetFilteredRemoteObjects ?inc ru)) (\<lambda>objs.
        bindM (FindObjectsForDelete k objs (HasType ?inc ''tags'') []) (deleteConfirmed C k (dlc_wait cmd) cb (?rest k))))"
  have "withSnapshot C k (Some ?d) [] ?body s = (Inr out, s')" using assms(1) False by (simp add: DeleteCommand_Run_def Let_def)
  then have "deletesOnly C k ?d ?inc (\<lambda>_. Inr []) cb s s'"
  proof (rule withSnapshot_cases)
    fix k' s1
    assume k: "k = Some k'" "UpdateRemoteObjects (ce_sched1 C) (ce_sched2 C) k (Some ?d) [] False s = (Inr None, s1)"
      and r: "?body k' s1 = (Inr out, s')"
    obtain objs x s2 where f: "GetFilteredRemoteObjects ?inc (rs_ru s1) = Inr objs"
      "FindObjectsForDelete k' objs (HasType ?inc ''tags'') [] s1 = (Inr x, s2)" "deleteConfirmed C k' (dlc_wait cmd) cb (?rest k') x s2 = (Inr out, s')"
      using r by (auto simp: bindM_Inr_iff run_simps)
    show ?thesis
      unfolding k(1)
      by (rule deletesOnly_run [where ex = "[]" and excluded = "\<lambda>_. Inr []", OF assms(2) k(2) [unfolded k(1)] False f(1) _ f(2,3)]) (simp, rule logs_finish)
  qed (rule deletesOnly_reads)
  then show ?thesis using False by simp
qed

text \<open>Nothing a validation does is more than reading.\<close>

lemma logs_validateOne: "always (logs read_only) (validateOne C k ob res)"
proof -
  have h: "always (logs read_only) (GetHook E ob)" for E
    unfolding GetHook_def policiesOf_def waitOf_def timeoutOf_def Let_def by (intro logs.always_intros logs_intros)
  have "always (logs read_only) (\<lambda>s. case GetHook ((ce_A C)\<lparr>ae_ru := rs_ru s, ae_o := pokeOptions\<rparr>) ob (worker (sharedFor s)) of
        (r, a) \<Rightarrow> (r, s\<lparr>reqlog := reqlog a, rs_dew := dew a\<rparr>))"
    using alwaysD [OF h] by (auto simp: always_def logs_def worker_def NewApplyUtil_def sharedFor_def split: prod.split)
      (metis kstate.select_convs(1) snd_conv)
  then show ?thesis unfolding validateOne_def by (intro logs.always_intros logs_intros) assumption+
qed

text \<open>What the verdict of a validation says, as the objects are gone through.\<close>

definition verdict_ok :: "ValidateResult \<Rightarrow> bool" where
  "verdict_ok v \<longleftrightarrow> (vr_Ready v \<longrightarrow> (\<forall>e \<in> set (vr_Errors v). de_Message e = ''object not found'')) \<and> (\<not> vr_Ready v \<longrightarrow> vr_Errors v \<noteq> [])"

lemma validateOne_verdict:
  assumes "validateOne C k ob res s = (Inr res', s')" "verdict_ok res"
  shows "verdict_ok res'"
  using assms
  by (auto simp: validateOne_def verdict_ok_def explained_def bindM_Inr_iff run_simps dest!: ValidateObject_explained
      split: if_splits option.splits)

lemma validateAll_verdict: "validateAll C k obs res s = (Inr res', s') \<Longrightarrow> verdict_ok res \<Longrightarrow> verdict_ok res'"
  by (induction obs arbitrary: res s) (auto simp: run_simps bindM_Inr_iff dest: validateOne_verdict)

lemma logs_validateAll: "always (logs read_only) (validateAll C k obs res)"
  by (induction obs arbitrary: res) (auto intro: logs.always_intros logs_validateOne)

lemma logs_ValidateCommand: "always (logs read_only) (ValidateCommand_Run C k cmd)"
  unfolding ValidateCommand_Run_def
  by (intro logs.always_intros logs_intros logs_r_ops)
    (auto intro!: logs.always_intros logs_UpdateRemoteObjects logs_validateAll simp: logs_def split: go_error.split)

text \<open>
  C35: Validating. The command only reads from the cluster; a deployment that is not ready has an error that says so; and the
  errors of a deployment that is called ready are reports of the command itself or objects that were not found.
\<close>

theorem ValidateCommand_verdict:
  assumes "ValidateCommand_Run C k cmd s = (Inr r, s')"
  shows "(\<exists>new. reqlog s' = reqlog s @ new \<and> (\<forall>q \<in> set new. read_only q)) \<and>
    (case r of
       Inl e \<Rightarrow> True
     | Inr v \<Rightarrow>
         (\<not> vr_Ready v \<longrightarrow> vr_Errors v \<noteq> []) \<and>
         (vr_Ready v \<longrightarrow> (\<forall>e \<in> set (vr_Errors v). de_Message e = ''object not found'' \<or> e \<in> set (GetErrorsList (rs_dew s')))))"
proof -
  have "\<exists>new. reqlog s' = reqlog s @ new \<and> (\<forall>q \<in> set new. read_only q)" using logs_ValidateCommand assms by (rule logs_new)
  moreover have "(\<not> vr_Ready v \<longrightarrow> vr_Errors v \<noteq> []) \<and>
         (vr_Ready v \<longrightarrow> (\<forall>e \<in> set (vr_Errors v). de_Message e = ''object not found'' \<or> e \<in> set (GetErrorsList (rs_dew s'))))"
    if v: "r = Inr v" for v
  proof -
    obtain obs res s1 s2 where 1: "validateAll C k obs allGood s1 = (Inr res, s2)"
      and v': "vr_Ready v = vr_Ready res" "vr_Errors v = vr_Errors res @ GetErrorsList (rs_dew s')"
      using assms unfolding v
      by (auto simp: ValidateCommand_Run_def seqM_def bindM_Inr_iff run_simps r_dew_def ValidateResult.defs
          split: sum.splits go_error.splits option.splits prod.splits)
    have "verdict_ok res" using validateAll_verdict [OF 1] by (simp add: verdict_ok_def allGood_def)
    then show ?thesis using v' by (auto simp: verdict_ok_def)
  qed
  ultimately show ?thesis by (auto split: sum.split)
qed

section \<open>The collected objects\<close>

text \<open>An object of the result only gains marks, and the map only gains objects, each under its own reference.\<close>

definition gains :: "ResultObject \<Rightarrow> ResultObject \<Rightarrow> bool" where
  "gains x y \<longleftrightarrow> bo_Ref (ro_Base y) = bo_Ref (ro_Base x) \<and> (ro_Rendered x \<noteq> None \<longrightarrow> ro_Rendered y \<noteq> None) \<and>
     (ro_Applied x \<noteq> None \<longrightarrow> ro_Applied y \<noteq> None) \<and> (bo_Deleted (ro_Base x) \<longrightarrow> bo_Deleted (ro_Base y)) \<and>
     (bo_Orphan (ro_Base x) \<longrightarrow> bo_Orphan (ro_Base y))"

definition objmap_ok :: "objmap \<Rightarrow> bool" where
  "objmap_ok m \<longleftrightarrow> distinct (map fst m) \<and> (\<forall>ref x. map_of m ref = Some x \<longrightarrow> bo_Ref (ro_Base x) = ref)"

definition extends :: "objmap \<Rightarrow> objmap \<Rightarrow> bool" where
  "extends m m' \<longleftrightarrow> (objmap_ok m \<longrightarrow> objmap_ok m') \<and> (\<forall>ref x. map_of m ref = Some x \<longrightarrow> (\<exists>y. map_of m' ref = Some y \<and> gains x y))"

lemma gains_trans: "gains x y \<Longrightarrow> gains y z \<Longrightarrow> gains x z"
  by (simp add: gains_def)

interpretation extends: step_rel extends
proof
  show "extends m m" for m by (auto simp: extends_def gains_def)
  show "extends m m1 \<Longrightarrow> extends m1 m2 \<Longrightarrow> extends m m2" for m m1 m2
    unfolding extends_def using gains_trans by meson
qed

text \<open>A mark that is never taken back.\<close>

definition marked :: "objmap \<Rightarrow> ObjectRef \<Rightarrow> (ResultObject \<Rightarrow> bool) \<Rightarrow> bool" where
  "marked m ref Q \<longleftrightarrow> (\<exists>x. map_of m ref = Some x \<and> Q x)"

definition lasting :: "(ResultObject \<Rightarrow> bool) \<Rightarrow> bool" where
  "lasting Q \<longleftrightarrow> (\<forall>x y. gains x y \<longrightarrow> Q x \<longrightarrow> Q y)"

lemma lasting_marks:
  "lasting (\<lambda>x. ro_Rendered x \<noteq> None)" "lasting (\<lambda>x. ro_Applied x \<noteq> None)"
  "lasting (\<lambda>x. bo_Deleted (ro_Base x))" "lasting (\<lambda>x. bo_Orphan (ro_Base x))" "lasting (\<lambda>x. True)"
  by (auto simp: lasting_def gains_def)

lemma marked_extends: "marked m ref Q \<Longrightarrow> lasting Q \<Longrightarrow> extends m m' \<Longrightarrow> marked m' ref Q"
  unfolding marked_def lasting_def extends_def by blast

lemma getOrCreate_extends:
  assumes "\<And>x. gains x (f x)"
  shows "extends m (getOrCreate ref f m)" and "(\<And>x. Q (f x)) \<Longrightarrow> marked (getOrCreate ref f m) ref Q"
proof -
  have r: "bo_Ref (ro_Base (f x)) = bo_Ref (ro_Base x)" for x using assms [of x] by (simp add: gains_def)
  show "extends m (getOrCreate ref f m)"
    using assms by (auto simp: extends_def getOrCreate_def objmap_ok_def update_conv' distinct_update r noObject_def gains_def split: option.splits)
  show "(\<And>x. Q (f x)) \<Longrightarrow> marked (getOrCreate ref f m) ref Q"
    by (simp add: marked_def getOrCreate_def update_conv')
qed

lemma fold_extends:
  assumes "\<And>x m. x \<in> set l \<Longrightarrow> extends m (g x m)"
  shows "extends m (fold g l m)"
  using assms
proof (induction l arbitrary: m)
  case (Cons x l)
  have "extends m (g x m)" using Cons.prems by simp
  moreover have "extends (g x m) (fold g l (g x m))" using Cons.IH Cons.prems by simp
  ultimately show ?case using extends.trans by simp
qed (simp add: extends.refl)

lemma fold_marks:
  assumes "\<And>x m. x \<in> set l \<Longrightarrow> extends m (g x m)" "\<And>m. marked (g x m) (key x) Q" "lasting Q" "x \<in> set l"
  shows "marked (fold g l m) (key x) Q"
  using assms(1,4)
proof (induction l arbitrary: m)
  case (Cons y l)
  show ?case
  proof (cases "x \<in> set l")
    case False
    then have "marked (g y m) (key x) Q" using Cons.prems assms(2) by simp
    moreover have "extends (g y m) (fold g l (g y m))" using Cons.prems(1) by (intro fold_extends) simp
    ultimately show ?thesis using marked_extends [OF _ assms(3)] by simp
  qed (use Cons in simp)
qed simp

lemma enter_extends:
  "extends m (enterChanges names cs m)" "extends m (enterNew names l m)" "extends m (enterDeleted names l m)"
  "extends m (enterOrphans deleted l m)"
  unfolding enterChanges_def enterNew_def enterDeleted_def enterOrphans_def
  by (auto intro!: fold_extends getOrCreate_extends(1) extends.refl simp: gains_def)

lemma enterObjects_extends:
  assumes "enterObjects L f objs (m, names) = Inr (m', names')" "\<And>x y. gains y (f x y)"
  shows "extends m m'"
  using assms(1)
proof (induction objs arbitrary: m names)
  case (Cons x objs)
  obtain dn ref where d: "GetDiffRef L x = Inr dn"
    "enterObjects L f objs (getOrCreate dn (f x) m, AList.update ref dn names) = Inr (m', names')"
    using Cons.prems by (auto simp: enterObjects_def bindE_Inr_iff)
  show ?case using Cons.IH [OF d(2)] getOrCreate_extends(1) [of "f x" m dn] assms(2) extends.trans by blast
qed (simp add: enterObjects_def extends.refl)

lemma enterObjects_marks:
  assumes "enterObjects L f objs (m, names) = Inr (m', names')" "\<And>x y. gains y (f x y)" "\<And>x y. Q (f x y)" "lasting Q" "x \<in> set objs"
  shows "\<exists>dn. GetDiffRef L x = Inr dn \<and> marked m' dn Q"
  using assms(1,5)
proof (induction objs arbitrary: m names)
  case (Cons y objs)
  obtain dn ref where d: "GetDiffRef L y = Inr dn"
    "enterObjects L f objs (getOrCreate dn (f y) m, AList.update ref dn names) = Inr (m', names')"
    using Cons.prems(1) by (auto simp: enterObjects_def bindE_Inr_iff)
  show ?case
  proof (cases "x = y")
    case True
    have "marked (getOrCreate dn (f y) m) dn Q" using assms(2,3) by (intro getOrCreate_extends(2)) auto
    then have "marked m' dn Q" using enterObjects_extends [OF d(2) assms(2)] marked_extends [OF _ assms(4)] by blast
    then show ?thesis using True d(1) by blast
  qed (use Cons.IH [OF d(2)] Cons.prems(2) in simp)
qed simp

lemma enterDeleted_marks: "ref \<in> set l \<Longrightarrow> marked (enterDeleted [] l m) ref (\<lambda>x. bo_Deleted (ro_Base x))"
  unfolding enterDeleted_def underName_def
  by (rule fold_marks [where key = id, simplified]) (auto intro!: getOrCreate_extends lasting_marks simp: gains_def)

lemma enterOrphans_marks: "ref \<in> set l - set deleted \<Longrightarrow> marked (enterOrphans deleted l m) ref (\<lambda>x. bo_Orphan (ro_Base x))"
  unfolding enterOrphans_def
  by (rule fold_marks [where key = id, simplified]) (auto intro!: getOrCreate_extends lasting_marks extends.refl simp: gains_def)

lemma enterApplied_marks:
  assumes "enterApplied L names au m = Inr (m', names')"
  shows "extends m m' \<and> (\<forall>as ao. au = Some as \<and> ao \<in> set (GetAppliedObjects as) \<longrightarrow>
    (\<exists>ref. GetDiffRef L ao = Inr ref \<and> marked m' ref (\<lambda>x. ro_Applied x \<noteq> None)))"
proof (cases au)
  case (Some as)
  obtain m1 n1 m2 n2 where 1: "enterObjects L (\<lambda>x ob. ob\<lparr>ro_Applied := Some x\<rparr>) (GetAppliedObjects as) (m, []) = Inr (m1, n1)"
    and 2: "enterObjects L (\<lambda>_. onBase (\<lambda>b. b\<lparr>bo_Hook := True\<rparr>)) (GetAppliedHookObjects as) (m1, n1) = Inr (m2, n2)"
    and 3: "m' = enterDeleted names (GetDeletedObjects as) m2"
    using assms Some by (auto simp: enterApplied_def bindE_Inr_iff)
  have e1: "extends m m1" using 1 by (rule enterObjects_extends) (simp add: gains_def)
  have e2: "extends m1 m2" using 2 by (rule enterObjects_extends) (simp add: gains_def)
  have e: "extends m1 m'" unfolding 3 using e2 enter_extends(3) by (rule extends.trans)
  have "\<exists>ref. GetDiffRef L ao = Inr ref \<and> marked m1 ref (\<lambda>x. ro_Applied x \<noteq> None)" if "ao \<in> set (GetAppliedObjects as)" for ao
    using enterObjects_marks [OF 1, of "\<lambda>x. ro_Applied x \<noteq> None" ao] that lasting_marks by (auto simp: gains_def)
  then show ?thesis using Some e extends.trans [OF e1 e] marked_extends [OF _ lasting_marks(2) e] by blast
qed (use assms in \<open>simp add: enterApplied_def extends.refl\<close>)

lemma collectMap_marks:
  assumes "collectMap C L c ru au du orphans deleted = Inr m"
  shows "objmap_ok m"
    and "c = Some d \<Longrightarrow> lo \<in> set (LocalObjects d) \<Longrightarrow> \<exists>ref. GetDiffRef L lo = Inr ref \<and> marked m ref (\<lambda>x. ro_Rendered x \<noteq> None)"
    and "au = Some as \<Longrightarrow> ao \<in> set (GetAppliedObjects as) \<Longrightarrow> \<exists>ref. GetDiffRef L ao = Inr ref \<and> marked m ref (\<lambda>x. ro_Applied x \<noteq> None)"
    and "ref \<in> set deleted \<Longrightarrow> marked m ref (\<lambda>x. bo_Deleted (ro_Base x))"
    and "ref \<in> set orphans - set deleted \<Longrightarrow> marked m ref (\<lambda>x. bo_Orphan (ro_Base x))"
proof -
  obtain m1 n1 remote m2 n2 m3 n3 new where
    1: "enterObjects L (\<lambda>x ob. ob\<lparr>ro_Rendered := Some x\<rparr>) (case c of None \<Rightarrow> [] | Some c \<Rightarrow> LocalObjects c) ([], []) = Inr (m1, n1)"
    and 2: "enterObjects L (\<lambda>x ob. ob\<lparr>ro_Remote := Some x\<rparr>) (ce_visit C remote) (m1, []) = Inr (m2, n2)"
    and 3: "enterApplied L n2 au m2 = Inr (m3, n3)"
    and 4: "m = enterOrphans deleted orphans (enterDeleted [] deleted (enterNew n3 new
        (case du of None \<Rightarrow> m3 | Some du \<Rightarrow> enterChanges n3 (du_ChangedObjects du) m3)))"
    using assms by (auto simp: collectMap_def bindE_Inr_iff Let_def)
  have e1: "extends [] m1" using 1 by (rule enterObjects_extends) (simp add: gains_def)
  have e2: "extends m1 m2" using 2 by (rule enterObjects_extends) (simp add: gains_def)
  note e3 = enterApplied_marks [OF 3]
  have e4: "extends m3 m"
    unfolding 4 by (auto split: option.split intro!: extends.trans [OF _ enter_extends(4)] extends.trans [OF _ enter_extends(3)]
        extends.trans [OF _ enter_extends(2)] enter_extends(1) extends.refl)
  have e: "extends m1 m" by (rule extends.trans [OF e2 extends.trans [OF e3 [THEN conjunct1] e4]])
  show "objmap_ok m" using extends.trans [OF e1 e] by (simp add: extends_def objmap_ok_def)
  show "\<exists>ref. GetDiffRef L lo = Inr ref \<and> marked m ref (\<lambda>x. ro_Rendered x \<noteq> None)" if "c = Some d" "lo \<in> set (LocalObjects d)"
    using enterObjects_marks [OF 1, of "\<lambda>x. ro_Rendered x \<noteq> None" lo] that lasting_marks marked_extends [OF _ lasting_marks(1) e]
    by (auto simp: gains_def)
  show "\<exists>ref. GetDiffRef L ao = Inr ref \<and> marked m ref (\<lambda>x. ro_Applied x \<noteq> None)" if "au = Some as" "ao \<in> set (GetAppliedObjects as)"
    using e3 that marked_extends [OF _ lasting_marks(2) e4] by blast
  show "marked m ref (\<lambda>x. bo_Deleted (ro_Base x))" if "ref \<in> set deleted"
    unfolding 4 using enterDeleted_marks [OF that] by (rule marked_extends [OF _ lasting_marks(3) enter_extends(4)])
  show "marked m ref (\<lambda>x. bo_Orphan (ro_Base x))" if "ref \<in> set orphans - set deleted"
    unfolding 4 using that by (rule enterOrphans_marks)
qed


subsection \<open>Concrete commands\<close>

text \<open>A server with one object that belongs to the deployment \<open>d\<close> and is not part of it any more.\<close>

definition serving :: "request \<Rightarrow> reply" where
  "serving r =
     (case r of
        ReqList _ _ labels \<Rightarrow> if labels = [] then plain_reply else plain_reply\<lparr>rp_Items := [sample_managed]\<rparr>
      | ReqGet _ name _ \<Rightarrow>
          if name = ''kube-system'' then plain_reply\<lparr>rp_Obj := [(''metadata'', VMap [(''uid'', VStr ''u1'')])]\<rparr>
          else plain_reply\<lparr>rp_Err := Some ((Errorf ''not found'')\<lparr>IsNotFound := True\<rparr>)\<rparr>
      | ReqPatch x _ _ \<Rightarrow> plain_reply\<lparr>rp_Obj := x\<rparr>
      | _ \<Rightarrow> plain_reply)"

definition serving_cluster :: "bool \<Rightarrow> K8sCluster" where
  "serving_cluster dry = (sample_cluster dry serving)\<lparr>k_discovery := \<lambda>_. Inr [\<lparr>agr_Name = [], agr_PreferredVersion = ''v1'',
     agr_VersionedResources = [(''v1'', [\<lparr>ar_Name = ''configmaps'', ar_Group = [], ar_Version = ''v1'', ar_Kind = ''ConfigMap'', ar_Verbs = [''list'']\<rparr>])]\<rparr>]\<rparr>"

definition sample_cmd_env :: cmd_env where
  "sample_cmd_env = \<lparr>ce_D = sample_denv, ce_X = sample_diff_lib, ce_A = sample_env pokeOptions serving [], ce_fs = sample_fs, ce_run = runAll,
     ce_sched1 = id, ce_sched2 = id, ce_schedDiff = id, ce_visit = id, ce_visitRefs = id, ce_uuid = (\<lambda>_. ''id''), ce_now = (\<lambda>_. 0),
     ce_gvkString = (\<lambda>(g, v, kd). kd), ce_PlainOpen = (\<lambda>_. Inr None), ce_ParseGitUrl = (\<lambda>_. Inl (Error ''no url''))\<rparr>"

definition local_object :: uo where
  "local_object = [(''apiVersion'', VStr ''v1''), (''kind'', VStr ''ConfigMap''), (''metadata'', VMap [(''name'', VStr ''b''), (''namespace'', VStr ''default'')])]"

definition sample_ctx :: "bool \<Rightarrow> TargetContext" where
  "sample_ctx dry = \<lparr>tc_Params = \<lparr>tp_TargetName = ''dev'', tp_TargetNameOverride = [], tp_ContextOverride = [], tp_OfflineK8s = False, tp_DryRun = dry,
       tp_ForSeal = False, tp_Images = None, tp_Inclusion = None, tp_RenderOutputDir = []\<rparr>,
     tc_K = Some (serving_cluster dry), tc_KluctlProject = sample_project, tc_Target = (sample_target ''dev'')\<lparr>t_Discriminator := ''d''\<rparr>, tc_ClusterContext = [],
     tc_DeploymentProject = DeploymentProject single_frame [],
     tc_DeploymentCollection = \<lparr>dc_Project = DeploymentProject single_frame [], dc_Inclusion = None, dc_forSeal = False,
       dc_Deployments = [sample_item [local_object]]\<rparr>\<rparr>"

lemma sample_cmd_env_ok: "schedule (ce_run sample_cmd_env)" "set (ce_sched2 sample_cmd_env l) = set l"
  "set (ce_visitRefs sample_cmd_env l) = set l" "distinct l \<Longrightarrow> distinct (ce_visitRefs sample_cmd_env l)"
  using sequential.schedule_axioms by (simp_all add: sample_cmd_env_def)

definition plain_diff :: DiffCommand where
  "plain_diff = \<lparr>dfc_ForceApply = False, dfc_ReplaceOnError = True, dfc_ForceReplaceOnError = True, dfc_IgnoreTags = False, dfc_IgnoreLabels = False, dfc_IgnoreAnnotations = False\<rparr>"

definition plain_deploy :: DeployCommand where
  "plain_deploy = \<lparr>dy_ForceApply = False, dy_ReplaceOnError = False, dy_ForceReplaceOnError = False, dy_AbortOnError = False,
     dy_ReadinessTimeout = 0, dy_NoWait = False, dy_Prune = True, dy_WaitPrune = False\<rparr>"

text \<open>The outcome of a concrete run, as a function for the evaluation of the witnesses.\<close>

definition outcome_of :: "'a res \<times> rstate \<Rightarrow> ('a \<times> request list) option" where
  "outcome_of x = (case x of (Inr a, s) \<Rightarrow> Some (a, reqlog s) | _ \<Rightarrow> None)"

lemma outcomeE:
  assumes "(case outcome_of x of None \<Rightarrow> False | Some (a, h) \<Rightarrow> P a h)"
  obtains a s where "x = (Inr a, s)" "P a (reqlog s)"
  using assms by (auto simp: outcome_of_def split: option.splits prod.splits sum.splits)

theorem DiffCommand_harmless_witness:
  "\<exists>r s'. DiffCommand_Run sample_cmd_env (sample_ctx False) plain_diff start_state = (Inr (Some r, None), s') \<and>
     length (reqlog s') = 5 \<and> list_all harmless (reqlog s')"
proof -
  let ?run = "DiffCommand_Run sample_cmd_env (sample_ctx False) plain_diff start_state"
  have "case outcome_of ?run of None \<Rightarrow> False | Some (out, h) \<Rightarrow> \<not> Option.is_none (fst out) \<and> Option.is_none (snd out) \<and> length h = 5" by code_simp
  then obtain out s' where r: "?run = (Inr out, s')" "\<not> Option.is_none (fst out)" "Option.is_none (snd out)" "length (reqlog s') = 5"
    by (rule outcomeE) blast
  moreover obtain x y where "out = (x, y)" by (cases out)
  ultimately show ?thesis
    using DiffCommand_harmless [OF r(1) sample_cmd_env_ok(1)] by (auto simp: start_state_def list_all_iff Option.is_none_def)
qed

text \<open>A callback that refuses: the only write was simulated.\<close>

theorem DeployCommand_writes_witness:
  "\<exists>s'. DeployCommand_Run sample_cmd_env (sample_ctx False) plain_deploy (Some (\<lambda>_. Some (Error ''no''))) start_state =
       (Inr (None, Some (Error ''no'')), s') \<and> length (reqlog s') = 4 \<and> list_all harmless (reqlog s')"
proof -
  let ?run = "DeployCommand_Run sample_cmd_env (sample_ctx False) plain_deploy (Some (\<lambda>_. Some (Error ''no''))) start_state"
  have "case outcome_of ?run of None \<Rightarrow> False | Some (out, h) \<Rightarrow> Option.is_none (fst out) \<and> snd out = Some (Error ''no'') \<and> length h = 4" by code_simp
  then obtain out s' where r: "?run = (Inr out, s')" "Option.is_none (fst out)" "snd out = Some (Error ''no'')" "length (reqlog s') = 4"
    by (rule outcomeE) blast
  moreover obtain x y where "out = (x, y)" by (cases out)
  ultimately show ?thesis
    using DeployCommand_writes [OF r(1) sample_cmd_env_ok(1,2)] by (auto simp: start_state_def list_all_iff Option.is_none_def)
qed

lemma deletesOnly_safe:
  assumes "deletesOnly C k d inc ex cb s s'" "ReqDelete ref dry \<in> set (drop (length (reqlog s)) (reqlog s'))"
  shows "\<exists>k' h ru l. k = Some k' \<and> ex (k_lib k') = Inr l \<and> mayDelete k' h ru inc l ref"
  using assms(1) unfolding deletesOnly_def
proof (elim disjE exE conjE)
  fix new assume "reqlog s' = reqlog s @ new" "\<forall>q \<in> set new. read_only q"
  then show ?thesis using assms(2) by (auto simp: read_only_def)
next
  fix k' s1 l refs new
  assume a: "k = Some k'" "UpdateRemoteObjects (ce_sched1 C) (ce_sched2 C) k (Some d) [] False s = (Inr None, s1)" "ex (k_lib k') = Inr l"
    "\<forall>ref \<in> set refs. mayDelete k' (reqlog s1) (rs_ru s1) inc l ref" "reqlog s' = reqlog s1 @ new"
    "\<forall>q \<in> set new. read_only q \<or> (\<exists>ref \<in> set refs. q = ReqDelete ref (k_DryRun k'))"
  obtain old where old: "reqlog s1 = reqlog s @ old" "\<forall>q \<in> set old. read_only q"
    using logs_new [OF logs_UpdateRemoteObjects a(2), of read_only] by blast
  have "ReqDelete ref dry \<in> set new"
    using assms(2) old a(5) by (auto simp: read_only_def)
  then have "ref \<in> set refs" using a(6) by (auto simp: read_only_def)
  then show ?thesis using a(1,3,4) by blast
qed


theorem DeleteCommand_safe_witness:
  "\<exists>out s' h ru. DeleteCommand_Run sample_cmd_env (Some (serving_cluster False))
       \<lparr>dlc_discriminator = ''d'', dlc_targetCtx = None, dlc_inclusion = None, dlc_wait = False\<rparr> None 0 start_state = (Inr out, s') \<and>
     ReqDelete sample_ref False \<in> set (reqlog s') \<and> mayDelete (serving_cluster False) h ru None [] sample_ref"
proof -
  let ?cmd = "\<lparr>dlc_discriminator = ''d'', dlc_targetCtx = None, dlc_inclusion = None, dlc_wait = False\<rparr>"
  let ?run = "DeleteCommand_Run sample_cmd_env (Some (serving_cluster False)) ?cmd None 0 start_state"
  have "case outcome_of ?run of None \<Rightarrow> False | Some (out, h) \<Rightarrow> ReqDelete sample_ref False \<in> set h" by code_simp
  then obtain out s' where r: "?run = (Inr out, s')" "ReqDelete sample_ref False \<in> set (reqlog s')" by (rule outcomeE) blast
  have s: "reqlog start_state = []" and i: "deleteInclusion ?cmd = None"
    by (simp_all add: start_state_def deleteInclusion_def)
  show ?thesis
    using DeleteCommand_safe [OF r(1) sample_cmd_env_ok(2), THEN conjunct2, unfolded i, THEN deletesOnly_safe, of sample_ref False] r s by auto
qed

text \<open>The local object is not in the cluster, and the deployment is called ready.\<close>

theorem ValidateCommand_verdict_witness:
  "\<exists>v s'. ValidateCommand_Run sample_cmd_env (Some (serving_cluster False))
       \<lparr>vc_c = Some (tc_DeploymentCollection (sample_ctx False)), vc_r = None, vc_discriminator = ''d''\<rparr> start_state = (Inr (Inr v), s') \<and>
     vr_Ready v \<and> map de_Message (vr_Errors v) = [''object not found''] \<and> list_all read_only (reqlog s')"
proof -
  let ?run = "ValidateCommand_Run sample_cmd_env (Some (serving_cluster False))
       \<lparr>vc_c = Some (tc_DeploymentCollection (sample_ctx False)), vc_r = None, vc_discriminator = ''d''\<rparr> start_state"
  have "case outcome_of ?run of None \<Rightarrow> False | Some (out, h) \<Rightarrow>
      (case out of Inl _ \<Rightarrow> False | Inr v \<Rightarrow> vr_Ready v \<and> map de_Message (vr_Errors v) = [''object not found''])" by code_simp
  then obtain out s' where r: "?run = (Inr out, s')" "case out of Inl _ \<Rightarrow> False | Inr v \<Rightarrow> vr_Ready v \<and> map de_Message (vr_Errors v) = [''object not found'']"
    by (rule outcomeE) blast
  then show ?thesis using ValidateCommand_verdict [OF r(1), THEN conjunct1] by (auto simp: start_state_def list_all_iff split: sum.splits)
qed


end
