(* ===== verification/Controller.thy ===== *)
theory Controller
  imports Command_Properties
begin

text \<open>
  The controller (\<^verbatim>\<open>pkg/controllers\<close>, \<^verbatim>\<open>api/v1beta1\<close>): the \<^verbatim>\<open>KluctlDeployment\<close> objects, how a project is prepared
  from the source of such an object, the commands that are run for it, the decision when to run them, the status
  that is reported and what happens when the object is deleted. Metrics and log output are not modelled.
\<close>

section \<open>KluctlDeployment objects\<close>

record ProjectSource =
  src_URL :: GitUrl
  src_Ref :: "GitRef option"
  src_Path :: string
  src_SecretRef :: "string option"

record Decryption =
  dec_Provider :: string
  dec_SecretRef :: "string option"
  dec_ServiceAccount :: string

record SecretKeyReference =
  skr_Name :: string
  skr_Key :: string

text \<open>A duration is a number of nanoseconds; references to local objects are their names.\<close>

record KluctlDeploymentSpec =
  ks_Source :: ProjectSource
  ks_Decryption :: "Decryption option"
  ks_Interval :: int
  ks_RetryInterval :: "int option"
  ks_DeployInterval :: "int option"
  ks_ValidateInterval :: "int option"
  ks_Timeout :: "int option"
  ks_Suspend :: bool
  ks_HelmCredentials :: "string list"
  ks_ServiceAccountName :: string
  ks_KubeConfig :: "SecretKeyReference option"
  ks_Target :: "string option"
  ks_TargetNameOverride :: "string option"
  ks_Context :: "string option"
  ks_Args :: string
  ks_Images :: "FixedImage list"
  ks_DryRun :: bool
  ks_NoWait :: bool
  ks_ForceApply :: bool
  ks_ReplaceOnError :: bool
  ks_ForceReplaceOnError :: bool
  ks_AbortOnError :: bool
  ks_IncludeTags :: "string list"
  ks_ExcludeTags :: "string list"
  ks_IncludeDeploymentDirs :: "string list"
  ks_ExcludeDeploymentDirs :: "string list"
  ks_DeployMode :: string
  ks_Validate :: bool
  ks_Prune :: bool
  ks_Delete :: bool

definition GetRetryInterval :: "KluctlDeploymentSpec \<Rightarrow> int" where
  "GetRetryInterval spec = (case ks_RetryInterval spec of Some d \<Rightarrow> d | None \<Rightarrow> ks_Interval spec)"

datatype ConditionStatus = ConditionTrue | ConditionFalse | ConditionUnknown

record Condition =
  cn_Type :: string
  cn_Status :: ConditionStatus
  cn_ObservedGeneration :: int
  cn_LastTransitionTime :: int
  cn_Reason :: string
  cn_Message :: string

record KluctlDeploymentStatus =
  kst_LastHandledReconcileAt :: string
  kst_LastHandledDeployAt :: string
  kst_ObservedGeneration :: int
  kst_ObservedCommit :: string
  kst_Conditions :: "Condition list"
  kst_ProjectKey :: "ProjectKey option"
  kst_TargetKey :: "TargetKey option"
  kst_LastObjectsHash :: string
  kst_LastDeployError :: string
  kst_LastValidateError :: string
  kst_LastDeployResult :: "string option"
  kst_LastValidateResult :: "string option"

record KluctlDeployment =
  kd_Name :: string
  kd_Namespace :: string
  kd_Annotations :: "(string, string) gomap"
  kd_Generation :: int
  kd_Finalizers :: "string list"
  kd_Deleted :: bool
  kd_Spec :: KluctlDeploymentSpec
  kd_Status :: KluctlDeploymentStatus

text \<open>\<open>toJson\<close> is \<^verbatim>\<open>yaml.WriteJsonString\<close>. A result that cannot be written leaves the old one in place.\<close>

fun errorText :: "go_error \<Rightarrow> string" where
  "errorText (Error m) = m"
| "errorText (Panic m) = m"
| "errorText OutOfFuel = []"

definition SetLastDeployResult :: "(CommandResultSummary \<Rightarrow> string res) \<Rightarrow> CommandResultSummary option \<Rightarrow> go_error option \<Rightarrow>
    KluctlDeploymentStatus \<Rightarrow> KluctlDeploymentStatus \<times> go_error option" where
  "SetLastDeployResult toJson crs err st =
     (let st = st\<lparr>kst_LastDeployError := (case err of None \<Rightarrow> [] | Some e \<Rightarrow> errorText e)\<rparr> in
      case crs of
        None \<Rightarrow> (st\<lparr>kst_LastDeployResult := None\<rparr>, None)
      | Some x \<Rightarrow> (case toJson x of Inl e \<Rightarrow> (st, Some e) | Inr b \<Rightarrow> (st\<lparr>kst_LastDeployResult := Some b\<rparr>, None)))"

definition SetLastValidateResult :: "(FullValidateResult \<Rightarrow> string res) \<Rightarrow> FullValidateResult option \<Rightarrow> go_error option \<Rightarrow>
    KluctlDeploymentStatus \<Rightarrow> KluctlDeploymentStatus \<times> go_error option" where
  "SetLastValidateResult toJson crs err st =
     (let st = st\<lparr>kst_LastValidateError := (case err of None \<Rightarrow> [] | Some e \<Rightarrow> errorText e)\<rparr> in
      case crs of
        None \<Rightarrow> (st\<lparr>kst_LastValidateResult := None\<rparr>, None)
      | Some x \<Rightarrow> (case toJson x of Inl e \<Rightarrow> (st, Some e) | Inr b \<Rightarrow> (st\<lparr>kst_LastValidateResult := Some b\<rparr>, None)))"

definition GetLastDeployResult :: "(string \<Rightarrow> CommandResultSummary res) \<Rightarrow> KluctlDeploymentStatus \<Rightarrow> CommandResultSummary option res" where
  "GetLastDeployResult fromYaml st =
     (case kst_LastDeployResult st of None \<Rightarrow> Inr None | Some raw \<Rightarrow> bindE (fromYaml raw) (\<lambda>x. Inr (Some x)))"

definition GetLastValidateResult :: "(string \<Rightarrow> FullValidateResult res) \<Rightarrow> KluctlDeploymentStatus \<Rightarrow> FullValidateResult option res" where
  "GetLastValidateResult fromYaml st =
     (case kst_LastValidateResult st of None \<Rightarrow> Inr None | Some raw \<Rightarrow> bindE (fromYaml raw) (\<lambda>x. Inr (Some x)))"

section \<open>Surroundings and state\<close>

text \<open>The configuration of a client, and the kubeconfig that is made of it.\<close>

record RestConfig =
  rc_Host :: string
  rc_CAFile :: string
  rc_CAData :: string
  rc_Insecure :: bool
  rc_KeyFile :: string
  rc_KeyData :: string
  rc_CertFile :: string
  rc_CertData :: string
  rc_BearerTokenFile :: string
  rc_BearerToken :: string
  rc_Impersonate :: "string \<times> string \<times> (string \<times> string list) list \<times> string list"
  rc_Username :: string
  rc_Password :: string
  rc_AuthProvider :: "string option"
  rc_ExecProvider :: "string option"

record ApiCluster =
  ac_Server :: string
  ac_CertificateAuthority :: string
  ac_CertificateAuthorityData :: string
  ac_InsecureSkipTLSVerify :: bool

record AuthInfo =
  ai_ClientKey :: string
  ai_ClientKeyData :: string
  ai_ClientCertificate :: string
  ai_ClientCertificateData :: string
  ai_TokenFile :: string
  ai_Token :: string
  ai_Impersonate :: "string \<times> string \<times> (string \<times> string list) list \<times> string list"
  ai_Username :: string
  ai_Password :: string
  ai_AuthProvider :: "string option"
  ai_Exec :: "string option"

record ApiConfig =
  cfg_Clusters :: "(string, ApiCluster) gomap"
  cfg_AuthInfos :: "(string, AuthInfo) gomap"
  cfg_Contexts :: "(string, string \<times> string) gomap"
  cfg_CurrentContext :: string

record AuthEntry =
  ae_Host :: string
  ae_PathPrefix :: string
  ae_Username :: string
  ae_Password :: string
  ae_SshKey :: string
  ae_KnownHosts :: string
  ae_CABundle :: string

text \<open>The git cache of a reconciliation: its directory and the credentials of the secret.\<close>

record GitRepoCache =
  rp_TmpBaseDir :: string
  rp_Auth :: "AuthEntry option"

record preparedProject =
  pp_rp :: GitRepoCache
  pp_tmpDir :: string
  pp_CheckedOutRef :: GitRef
  pp_CheckedOutCommit :: string
  pp_repoDir :: string
  pp_projectDir :: string

text \<open>What the preparation of the items finds on disk and the template engine.\<close>

record prepare_lib =
  pl_walk :: "string \<Rightarrow> dirtree"
  pl_renderDir :: "uo \<Rightarrow> string \<times> string \<times> string list \<times> string list \<times> string \<Rightarrow> unit res"
  pl_helmFiles :: "DeploymentItem \<Rightarrow> string list"
  pl_Fhelm :: item_files
  pl_Fseal :: item_files
  pl_Fbuild :: item_files
  pl_depth :: nat

text \<open>The moments at which a reconciliation reads the clock for its decisions.\<close>

datatype moment = AtDeployCheck | AtValidateCheck | AtNextReconcile | AtRequeue

text \<open>
  The reconciler with the libraries and services it uses. \<open>r_GetLegacy\<close> reads the object of the old API group; an
  error says whether it means that there is none. \<open>r_NewCluster\<close> makes a client factory and a cluster from the
  configuration and the dry-run flag. \<open>r_RESTConfigFromKubeConfig\<close> and \<open>r_ClientConfig\<close> are of the client library; an error
  says whether it is the one for an empty configuration. Key services and credentials of Helm repositories are
  handed on to code that is a parameter itself.
\<close>

record KluctlDeploymentReconciler =
  r_C :: cmd_env
  r_T :: target_env
  r_DryRun :: bool
  r_DefaultServiceAccount :: string
  r_RestConfig :: RestConfig
  r_ResultStore :: "(CommandResult \<Rightarrow> go_error option) option"
  r_now :: "moment \<Rightarrow> request list \<Rightarrow> int"
  r_GetSecret :: "string \<Rightarrow> string \<Rightarrow> (bool \<times> go_error) + (string, string) gomap"
  r_GetServiceAccount :: "string \<Rightarrow> string \<Rightarrow> unit res"
  r_GetLegacy :: "string \<Rightarrow> string \<Rightarrow> (bool \<times> go_error) + uo"
  r_NestedReadyForMigration :: "uo \<Rightarrow> bool res"
  r_Patch :: "KluctlDeployment \<Rightarrow> go_error option"
  r_StatusPatch :: "KluctlDeployment \<Rightarrow> go_error option"
  r_FindStatusCondition :: "Condition list \<Rightarrow> string \<Rightarrow> Condition option"
  r_SetStatusCondition :: "Condition \<Rightarrow> Condition list \<Rightarrow> Condition list"
  r_SummaryToJson :: "CommandResultSummary \<Rightarrow> string res"
  r_SummaryFromYaml :: "string \<Rightarrow> CommandResultSummary res"
  r_ValidateToJson :: "FullValidateResult \<Rightarrow> string res"
  r_ValidateFromYaml :: "string \<Rightarrow> FullValidateResult res"
  r_MkdirTemp :: "string \<Rightarrow> string \<Rightarrow> string res"
  r_MkdirAll :: "string \<Rightarrow> go_error option"
  r_CreateTemp :: "string \<Rightarrow> string \<Rightarrow> string \<Rightarrow> string \<times> go_error option"
  r_TempDir :: string
  r_sha256 :: "string \<Rightarrow> string"
  r_EncodeSecret :: "(string, string) gomap \<Rightarrow> string res"
  r_ObjToJson :: "uo \<Rightarrow> string res"
  r_GetEntry :: "GitRepoCache \<Rightarrow> GitUrl \<Rightarrow> unit res"
  r_GetClonedDir :: "GitRepoCache \<Rightarrow> GitUrl \<Rightarrow> GitRef option \<Rightarrow> (string \<times> GitRef \<times> string) res"
  r_SecureJoin :: "string \<Rightarrow> string \<Rightarrow> string res"
  r_Stat :: "string \<Rightarrow> go_error option"
  r_NewKluctlJinja2 :: "go_error option"
  r_FromString :: "string \<Rightarrow> uo res"
  r_KeyServerFromSecret :: "(string, string) gomap \<Rightarrow> string \<Rightarrow> string option res"
  r_KeyServerFromServiceAccount :: "string \<Rightarrow> string option res"
  r_RESTConfigFromKubeConfig :: "string \<Rightarrow> (bool \<times> go_error) + RestConfig"
  r_ClientConfig :: "ApiConfig \<Rightarrow> string option \<Rightarrow> (bool \<times> go_error) + RestConfig"
  r_NewCluster :: "RestConfig \<Rightarrow> bool \<Rightarrow> K8sCluster res"
  r_P :: prepare_lib
  r_loadTime :: int
  r_nextSourceId :: int

text \<open>
  The state of a reconciliation: the cluster as the commands see it, the object in memory, the object the API server
  has, and the events that were sent (whether it is a warning, the reason and the message).
\<close>

record ctl =
  ct_cluster :: rstate
  ct_obj :: KluctlDeployment
  ct_stored :: KluctlDeployment
  ct_events :: "(bool \<times> string \<times> string) list"

type_synonym 'a ceff = "(ctl, 'a) eff"

definition modObj :: "(KluctlDeployment \<Rightarrow> KluctlDeployment) \<Rightarrow> unit ceff" where
  "modObj f = modify (\<lambda>s. s\<lparr>ct_obj := f (ct_obj s)\<rparr>)"

definition modStatus :: "(KluctlDeploymentStatus \<Rightarrow> KluctlDeploymentStatus) \<Rightarrow> unit ceff" where
  "modStatus f = modObj (\<lambda>x. x\<lparr>kd_Status := f (kd_Status x)\<rparr>)"

text \<open>An error is handed to \<open>fail\<close>; a panic ends the reconciliation.\<close>

definition attemptM :: "('s, 'a) eff \<Rightarrow> (go_error \<Rightarrow> ('s, 'b) eff) \<Rightarrow> ('a \<Rightarrow> ('s, 'b) eff) \<Rightarrow> ('s, 'b) eff" where
  "attemptM m fail f s =
     (case m s of
        (Inl e, s') \<Rightarrow> if is_panic e then (Inl e, s') else fail e s'
      | (Inr x, s') \<Rightarrow> f x s')"

text \<open>A command runs on reports and a snapshot of its own.\<close>

definition runCommand :: "'a reff \<Rightarrow> 'a ceff" where
  "runCommand m s =
     (case m ((ct_cluster s)\<lparr>rs_dew := dew_Init, rs_ru := \<lparr>ru_remoteObjects = [], ru_remoteNamespaces = []\<rparr>\<rparr>) of
        (r, c) \<Rightarrow> (r, s\<lparr>ct_cluster := c\<rparr>))"

section \<open>Conditions and events\<close>

definition ReadyCondition :: string where "ReadyCondition = ''Ready''"

definition trimString :: "string \<Rightarrow> nat \<Rightarrow> string" where
  "trimString str limit = (if length str \<le> limit then str else take limit str @ ''...'')"

definition setReadiness :: "KluctlDeploymentReconciler \<Rightarrow> ConditionStatus \<Rightarrow> string \<Rightarrow> string \<Rightarrow> unit ceff" where
  "setReadiness R status reason message =
     modObj (\<lambda>x. x\<lparr>kd_Status := (kd_Status x)\<lparr>kst_Conditions := r_SetStatusCondition R
       \<lparr>cn_Type = ReadyCondition, cn_Status = status, cn_ObservedGeneration = kd_Generation x, cn_LastTransitionTime = 0,
        cn_Reason = reason, cn_Message = trimString message 20000\<rparr> (kst_Conditions (kd_Status x))\<rparr>\<rparr>)"

definition readyReason :: "KluctlDeploymentReconciler \<Rightarrow> KluctlDeployment \<Rightarrow> string option" where
  "readyReason R x = map_option cn_Reason (r_FindStatusCondition R (kst_Conditions (kd_Status x)) ReadyCondition)"

definition event :: "KluctlDeploymentReconciler \<Rightarrow> bool \<Rightarrow> string \<Rightarrow> unit ceff" where
  "event R warning msg =
     modify (\<lambda>s. s\<lparr>ct_events := ct_events s @ [(warning,
       case readyReason R (ct_obj s) of Some reason \<Rightarrow> reason | None \<Rightarrow> if warning then ''warning'' else ''info'', msg)]\<rparr>)"

text \<open>Whether an update of an object is looked at: one of the two annotations has appeared, vanished or changed.\<close>

definition ReconcileRequestedPredicate_Update :: "KluctlDeployment option \<Rightarrow> KluctlDeployment option \<Rightarrow> bool" where
  "ReconcileRequestedPredicate_Update old new =
     (case (old, new) of
        (Some o1, Some o2) \<Rightarrow>
          (let check = (\<lambda>name. map_of (kd_Annotations o2) name \<noteq> map_of (kd_Annotations o1) name)
           in check ''kluctl.io/request-reconcile'' \<or> check ''kluctl.io/request-deploy'')
      | _ \<Rightarrow> False)"

section \<open>Access to the cluster\<close>

definition restConfigToKubeconfig :: "RestConfig \<Rightarrow> ApiConfig" where
  "restConfigToKubeconfig rc =
     \<lparr>cfg_Clusters = [(''default'', \<lparr>ac_Server = rc_Host rc, ac_CertificateAuthority = rc_CAFile rc,
        ac_CertificateAuthorityData = rc_CAData rc, ac_InsecureSkipTLSVerify = rc_Insecure rc\<rparr>)],
      cfg_AuthInfos = [(''default'', \<lparr>ai_ClientKey = rc_KeyFile rc, ai_ClientKeyData = rc_KeyData rc,
        ai_ClientCertificate = rc_CertFile rc, ai_ClientCertificateData = rc_CertData rc,
        ai_TokenFile = rc_BearerTokenFile rc, ai_Token = rc_BearerToken rc, ai_Impersonate = rc_Impersonate rc,
        ai_Username = rc_Username rc, ai_Password = rc_Password rc, ai_AuthProvider = rc_AuthProvider rc, ai_Exec = rc_ExecProvider rc\<rparr>)],
      cfg_Contexts = [(''default'', (''default'', ''default''))], cfg_CurrentContext = ''default''\<rparr>"

definition secretValue :: "(string, string) gomap \<Rightarrow> string \<Rightarrow> string" where
  "secretValue data key = (case map_of data key of None \<Rightarrow> [] | Some v \<Rightarrow> v)"

text \<open>A key that is present with an empty value is a slice that is not nil.\<close>

definition getKubeconfigFromSecret :: "KluctlDeploymentReconciler \<Rightarrow> KluctlDeployment \<Rightarrow> SecretKeyReference \<Rightarrow> string res" where
  "getKubeconfigFromSecret R x ref =
     (let secretName = kd_Namespace x @ ''/'' @ skr_Name ref in
      case r_GetSecret R (kd_Namespace x) (skr_Name ref) of
        Inl (_, e) \<Rightarrow> Inl (Error (''unable to read KubeConfig secret '' @ quoted secretName @ '' error: '' @ errorText e))
      | Inr data \<Rightarrow>
          if skr_Key ref \<noteq> [] then
            (case map_of data (skr_Key ref) of
               None \<Rightarrow> Inl (Error (''KubeConfig secret '' @ quoted secretName @ '' does not contain a '' @ quoted (skr_Key ref) @ '' key with a kubeconfig''))
             | Some v \<Rightarrow> Inr v)
          else
            (case (map_of data ''value'', map_of data ''value.yaml'') of
               (Some v, _) \<Rightarrow> Inr v
             | (None, Some v) \<Rightarrow> Inr v
             | (None, None) \<Rightarrow> Inl (Error (''KubeConfig secret '' @ quoted secretName @ '' does not contain a 'value' key with a kubeconfig''))))"

definition serviceAccountFor :: "KluctlDeploymentReconciler \<Rightarrow> KluctlDeployment \<Rightarrow> string" where
  "serviceAccountFor R x =
     (if ks_ServiceAccountName (kd_Spec x) \<noteq> [] then ks_ServiceAccountName (kd_Spec x) else r_DefaultServiceAccount R)"

definition setImpersonationConfig :: "KluctlDeploymentReconciler \<Rightarrow> KluctlDeployment \<Rightarrow> RestConfig \<Rightarrow> RestConfig" where
  "setImpersonationConfig R x rc =
     (let name = serviceAccountFor R x in
      if name \<noteq> [] then rc\<lparr>rc_Impersonate := (''system:serviceaccount:'' @ kd_Namespace x @ '':'' @ name, [], [], [])\<rparr> else rc)"

definition buildRestConfig :: "KluctlDeploymentReconciler \<Rightarrow> KluctlDeployment \<Rightarrow> (bool \<times> go_error) + RestConfig" where
  "buildRestConfig R x =
     (case (case ks_KubeConfig (kd_Spec x) of
              None \<Rightarrow> Inr (r_RestConfig R)
            | Some ref \<Rightarrow>
                (case getKubeconfigFromSecret R x ref of
                   Inl e \<Rightarrow> Inl (False, e)
                 | Inr kubeConfig \<Rightarrow> r_RESTConfigFromKubeConfig R kubeConfig)) of
        Inl e \<Rightarrow> Inl e
      | Inr rc \<Rightarrow> Inr (setImpersonationConfig R x rc))"

definition buildKubeconfig :: "KluctlDeploymentReconciler \<Rightarrow> KluctlDeployment \<Rightarrow> (bool \<times> go_error) + ApiConfig" where
  "buildKubeconfig R x = (case buildRestConfig R x of Inl e \<Rightarrow> Inl e | Inr rc \<Rightarrow> Inr (restConfigToKubeconfig rc))"

text \<open>The getter for clients, followed by the creation of the client and the cluster for a dry-run flag.\<close>

definition clientConfigGetter :: "KluctlDeploymentReconciler \<Rightarrow> KluctlDeployment \<Rightarrow> string option \<Rightarrow>
    (bool \<times> go_error) + (string \<times> (bool \<Rightarrow> K8sCluster res))" where
  "clientConfigGetter R x ctx =
     (case buildKubeconfig R x of
        Inl e \<Rightarrow> Inl e
      | Inr kubeConfig \<Rightarrow>
          (case r_ClientConfig R kubeConfig ctx of
             Inl e \<Rightarrow> Inl e
           | Inr rc \<Rightarrow> Inr (case ctx of None \<Rightarrow> cfg_CurrentContext kubeConfig | Some c \<Rightarrow> c, r_NewCluster R rc)))"

section \<open>Preparing a project\<close>

definition getGitSecret :: "KluctlDeploymentReconciler \<Rightarrow> ProjectSource \<Rightarrow> string \<Rightarrow> (string, string) gomap option res" where
  "getGitSecret R source objNs =
     (case src_SecretRef source of
        None \<Rightarrow> Inr None
      | Some name \<Rightarrow>
          (case r_GetSecret R objNs name of
             Inl (_, e) \<Rightarrow> Inl (Error (''failed to get secret '' @ quoted (objNs @ ''/'' @ name) @ '': '' @ errorText e))
           | Inr data \<Rightarrow> Inr (Some data)))"

text \<open>The entry that is tried for every host, next to the default providers.\<close>

definition buildGitAuth :: "(string, string) gomap option \<Rightarrow> AuthEntry option" where
  "buildGitAuth gitSecret =
     map_option (\<lambda>data. \<lparr>ae_Host = ''*'', ae_PathPrefix = [],
        ae_Username = (case map_of data ''username'' of None \<Rightarrow> ''*'' | Some v \<Rightarrow> v), ae_Password = secretValue data ''password'',
        ae_SshKey = secretValue data ''identity'', ae_KnownHosts = secretValue data ''known_hosts'', ae_CABundle = secretValue data ''caFile''\<rparr>) gitSecret"

definition buildRepoCache :: "KluctlDeploymentReconciler \<Rightarrow> (string, string) gomap option \<Rightarrow> GitRepoCache res" where
  "buildRepoCache R secret =
     bindE (case secret of None \<Rightarrow> Inr ''no-secret'' | Some data \<Rightarrow> r_EncodeSecret R data) (\<lambda>h.
     let tmpBaseDir = PathJoin [r_TempDir R, ''kluctl-controller-repo-cache'', EncodeToString (r_sha256 R h)] in
     bindE (optErr (r_MkdirAll R tmpBaseDir)) (\<lambda>_.
     Inr \<lparr>rp_TmpBaseDir = tmpBaseDir, rp_Auth = buildGitAuth secret\<rparr>))"

text \<open>Without a clone, the checkout and the directories are those of a new project.\<close>

definition prepareProject :: "KluctlDeploymentReconciler \<Rightarrow> KluctlDeployment \<Rightarrow> bool \<Rightarrow> preparedProject res" where
  "prepareProject R x doCloneSource =
     (let source = ks_Source (kd_Spec x) in
      bindE (wrapE ''failed to create temp dir for kluctl project: '' (r_MkdirTemp R [] (kd_Name x @ ''-''))) (\<lambda>tmpDir.
      bindE (getGitSecret R source (kd_Namespace x)) (\<lambda>gitSecret.
      bindE (buildRepoCache R gitSecret) (\<lambda>rp.
      let pp = \<lparr>pp_rp = rp, pp_tmpDir = tmpDir, pp_CheckedOutRef = noGitRef, pp_CheckedOutCommit = [], pp_repoDir = [], pp_projectDir = []\<rparr> in
      if \<not> doCloneSource then Inr pp
      else
        bindE (wrapE ''failed clone source: '' (r_GetEntry R rp (src_URL source))) (\<lambda>_.
        bindE (r_GetClonedDir R rp (src_URL source) (src_Ref source)) (\<lambda>(clonedDir, ref, commit).
        bindE (r_SecureJoin R clonedDir (src_Path source)) (\<lambda>projectDir.
        bindE (wrapE ''kluctlDeployment path not found: '' (optErr (r_Stat R projectDir))) (\<lambda>_.
        Inr (pp\<lparr>pp_CheckedOutRef := ref, pp_CheckedOutCommit := commit, pp_repoDir := clonedDir, pp_projectDir := projectDir\<rparr>)))))))))"

definition buildImages :: "KluctlDeployment \<Rightarrow> request list \<Rightarrow> Images" where
  "buildImages x h = foldl (\<lambda>images fi. AddFixedImage fi images) \<lparr>reqlog = h, im_fixedImages = [], im_seenImages = []\<rparr> (ks_Images (kd_Spec x))"

definition buildInclusion :: "KluctlDeploymentSpec \<Rightarrow> Inclusion" where
  "buildInclusion spec =
     fold (AddExclude ''deploymentItemDir'') (ks_ExcludeDeploymentDirs spec)
    (fold (AddInclude ''deploymentItemDir'') (ks_IncludeDeploymentDirs spec)
    (fold (AddExclude ''tag'') (ks_ExcludeTags spec)
    (fold (AddInclude ''tag'') (ks_IncludeTags spec) NewInclusion)))"

record HelmRepoEntry =
  he_Name :: string
  he_URL :: string
  he_Username :: string
  he_Password :: string
  he_CertFile :: string
  he_KeyFile :: string
  he_CAFile :: string
  he_InsecureSkipTLSverify :: bool
  he_PassCredentialsAll :: bool

definition FindCredentials :: "HelmRepoEntry list \<Rightarrow> string \<Rightarrow> string option \<Rightarrow> HelmRepoEntry option" where
  "FindCredentials p repoUrl credentialsId =
     (case (case credentialsId of None \<Rightarrow> None | Some cid \<Rightarrow> find (\<lambda>e. he_Name e \<noteq> [] \<and> he_Name e = cid) p) of
        Some e \<Rightarrow> Some e
      | None \<Rightarrow> if repoUrl = [] then None else find (\<lambda>e. he_URL e = repoUrl) p)"

text \<open>All three files get the contents of \<^verbatim>\<open>certFile\<close>; the last error counts once all three were tried.\<close>

definition writeTmpFile :: "KluctlDeploymentReconciler \<Rightarrow> string \<Rightarrow> (string, string) gomap \<Rightarrow> string \<Rightarrow> string \<times> go_error option" where
  "writeTmpFile R dir data name =
     (case map_of data ''certFile'' of None \<Rightarrow> ([], None) | Some b \<Rightarrow> r_CreateTemp R dir (name @ ''-'') b)"

definition helmEntry :: "KluctlDeploymentReconciler \<Rightarrow> string \<Rightarrow> string \<Rightarrow> (string, string) gomap \<Rightarrow> HelmRepoEntry res" where
  "helmEntry R dir secretName data =
     (let credentialsId = secretValue data ''credentialsId''; url = secretValue data ''url'';
          (cert, e1) = writeTmpFile R dir data ''certFile''; (key, e2) = writeTmpFile R dir data ''keyFile'';
          (ca, e3) = writeTmpFile R dir data ''caFile'' in
      if credentialsId = [] \<and> url = [] then
        Inl (Error (''secret '' @ secretName @ '' must at least contain '' @ quoted ''credentialsId'' @ '' or '' @ quoted ''url''))
      else case (e3, e2, e1) of
        (Some e, _, _) \<Rightarrow> Inl e
      | (None, Some e, _) \<Rightarrow> Inl e
      | (None, None, Some e) \<Rightarrow> Inl e
      | (None, None, None) \<Rightarrow>
          Inr \<lparr>he_Name = credentialsId, he_URL = url, he_Username = secretValue data ''username'', he_Password = secretValue data ''password'',
            he_CertFile = cert, he_KeyFile = key, he_CAFile = ca,
            he_InsecureSkipTLSverify = ParseBoolOrFalse (Some (secretValue data ''insecureSkipTlsVerify'')),
            he_PassCredentialsAll = ParseBoolOrFalse (Some (secretValue data ''passCredentialsAll''))\<rparr>)"

definition buildHelmCredentials :: "KluctlDeploymentReconciler \<Rightarrow> KluctlDeployment \<Rightarrow> preparedProject \<Rightarrow> HelmRepoEntry list res" where
  "buildHelmCredentials R x pp =
     mapE (\<lambda>name. case r_GetSecret R (kd_Namespace x) name of
        Inl (_, e) \<Rightarrow> Inl e
      | Inr data \<Rightarrow> helmEntry R (PathJoin [pp_tmpDir pp, ''helm-certs'']) name data) (ks_HelmCredentials (kd_Spec x))"

text \<open>The key services of the decryptor.\<close>

definition addSecretBasedKeyServers :: "KluctlDeploymentReconciler \<Rightarrow> KluctlDeployment \<Rightarrow> preparedProject \<Rightarrow> Decryption \<Rightarrow> string list res" where
  "addSecretBasedKeyServers R x pp d =
     (case dec_SecretRef d of
        None \<Rightarrow> Inr []
      | Some name \<Rightarrow>
          (case r_GetSecret R (kd_Namespace x) name of
             Inl (notFound, e) \<Rightarrow>
               if notFound then Inl e
               else Inl (Error (''cannot get decryption Secret '' @ quoted (kd_Namespace x @ ''/'' @ name) @ '': '' @ errorText e))
           | Inr data \<Rightarrow>
               let gnuPGHome = PathJoin [pp_tmpDir pp, ''sops-gnupghome''] in
               bindE (optErr (r_MkdirAll R gnuPGHome)) (\<lambda>_.
               bindE (r_KeyServerFromSecret R data gnuPGHome) (\<lambda>ks. Inr (case ks of None \<Rightarrow> [] | Some k \<Rightarrow> [k])))))"

definition addServiceAccountBasedKeyServers :: "KluctlDeploymentReconciler \<Rightarrow> KluctlDeployment \<Rightarrow> Decryption \<Rightarrow> string list res" where
  "addServiceAccountBasedKeyServers R x d =
     (let name = (if dec_ServiceAccount d \<noteq> [] then dec_ServiceAccount d else serviceAccountFor R x) in
      if name = [] then Inr []
      else
        bindE (wrapE (''failed to retrieve service account '' @ name @ '': '') (r_GetServiceAccount R (kd_Namespace x) name)) (\<lambda>_.
        bindE (r_KeyServerFromServiceAccount R name) (\<lambda>ks. Inr (case ks of None \<Rightarrow> [] | Some k \<Rightarrow> [k]))))"

definition buildSopsDecrypter :: "KluctlDeploymentReconciler \<Rightarrow> KluctlDeployment \<Rightarrow> preparedProject \<Rightarrow> string list option res" where
  "buildSopsDecrypter R x pp =
     (case ks_Decryption (kd_Spec x) of
        None \<Rightarrow> Inr None
      | Some d \<Rightarrow>
          if dec_Provider d \<noteq> ''sops'' then Inl (Error (''not supported decryption provider '' @ dec_Provider d))
          else
            bindE (addSecretBasedKeyServers R x pp d) (\<lambda>ks1.
            bindE (addServiceAccountBasedKeyServers R x d) (\<lambda>ks2. Inr (Some (ks1 @ ks2)))))"

definition targetEnv :: "KluctlDeploymentReconciler \<Rightarrow> KluctlDeployment \<Rightarrow> target_env" where
  "targetEnv R x = (r_T R)\<lparr>te_ClientConfig := clientConfigGetter R x\<rparr>"

definition pp_loadKluctlProject :: "KluctlDeploymentReconciler \<Rightarrow> KluctlDeployment \<Rightarrow> preparedProject \<Rightarrow> LoadedKluctlProject res" where
  "pp_loadKluctlProject R x pp =
     bindE (buildSopsDecrypter R x pp) (\<lambda>_.
     bindE (r_FromString R (ks_Args (kd_Spec x))) (\<lambda>externalArgs.
     LoadKluctlProject (targetEnv R x)
       \<lparr>la_RepoRoot = pp_repoDir pp, la_ProjectDir = pp_projectDir pp, la_ProjectConfig = [], la_ExternalArgs = Some externalArgs\<rparr>
       (PathJoin [pp_tmpDir pp, ''project'']) (r_loadTime R)))"

definition isDry :: "KluctlDeploymentReconciler \<Rightarrow> KluctlDeployment \<Rightarrow> bool" where
  "isDry R x \<longleftrightarrow> r_DryRun R \<or> ks_DryRun (kd_Spec x)"

definition targetParams :: "KluctlDeploymentReconciler \<Rightarrow> KluctlDeployment \<Rightarrow> Images \<Rightarrow> string \<Rightarrow> TargetContextParams" where
  "targetParams R x images renderOutputDir =
     (let spec = kd_Spec x in
      \<lparr>tp_TargetName = orEmpty (ks_Target spec), tp_TargetNameOverride = orEmpty (ks_TargetNameOverride spec),
       tp_ContextOverride = orEmpty (ks_Context spec), tp_OfflineK8s = False, tp_DryRun = isDry R x, tp_ForSeal = False,
       tp_Images = Some images, tp_Inclusion = Some (buildInclusion spec), tp_RenderOutputDir = renderOutputDir\<rparr>)"

text \<open>The items are prepared with the images of the context, which remember the images that were seen.\<close>

definition prepareItems :: "KluctlDeploymentReconciler \<Rightarrow> item_env \<Rightarrow> TargetContext \<Rightarrow> request list \<Rightarrow> TargetContext res \<times> request list" where
  "prepareItems R I T h =
     (case tp_Images (tc_Params T) of
        None \<Rightarrow> (Inl nilPanic, h)
      | Some im \<Rightarrow>
          (let P = r_P R in
           case Prepare I (pl_walk P) (pl_renderDir P) (pl_helmFiles P) (pl_Fhelm P) (pl_Fseal P) (pl_Fbuild P) (pl_depth P)
               (tc_DeploymentCollection T) (im\<lparr>reqlog := h\<rparr>) of
             (Inl e, im') \<Rightarrow> (Inl e, reqlog im')
           | (Inr c, im') \<Rightarrow>
               (Inr (T\<lparr>tc_DeploymentCollection := c, tc_Params := (tc_Params T)\<lparr>tp_Images := Some im'\<rparr>\<rparr>), reqlog im')))"

definition loadContext :: "KluctlDeploymentReconciler \<Rightarrow> KluctlDeployment \<Rightarrow> TargetContextParams \<Rightarrow> LoadedKluctlProject \<Rightarrow> request list \<Rightarrow>
    TargetContext res \<times> request list" where
  "loadContext R x params p h =
     (let E = targetEnv R x in
      case NewTargetContext E params \<lparr>reqlog = h, vl_credentialsCache = [], ls_nextSourceId = r_nextSourceId R, ps_project = p\<rparr> of
        (Inl e, s) \<Rightarrow> (Inl e, reqlog s)
      | (Inr T, s) \<Rightarrow> prepareItems R (itemEnv E (tc_Params T) (lp_sealedSecretsDir p) (tc_Target T) (tc_K T)) T (reqlog s))"

definition pt_loadTarget :: "KluctlDeploymentReconciler \<Rightarrow> preparedProject \<Rightarrow> LoadedKluctlProject \<Rightarrow> TargetContext ceff" where
  "pt_loadTarget R pp p =
     bindM (ask ct_obj) (\<lambda>x.
     bindM (lift (r_MkdirTemp R (pp_tmpDir pp) ''render-'')) (\<lambda>renderOutputDir.
     bindM (ask (\<lambda>s. buildImages x (reqlog (ct_cluster s)))) (\<lambda>images.
     bindM (lift (buildHelmCredentials R x pp)) (\<lambda>_.
     (\<lambda>s. case loadContext R x (targetParams R x images renderOutputDir) p (reqlog (ct_cluster s)) of
           (r, h) \<Rightarrow> (r, s\<lparr>ct_cluster := (ct_cluster s)\<lparr>reqlog := h\<rparr>\<rparr>))))))"

section \<open>Running commands\<close>

definition countText :: "nat \<Rightarrow> string \<Rightarrow> string" where
  "countText n what = (if n = 0 then [] else '' '' @ show_nat n @ '' '' @ what @ ''.'')"

definition resultMessage :: "string \<Rightarrow> CommandResult \<Rightarrow> CommandResultSummary \<Rightarrow> string" where
  "resultMessage commandName r su =
     commandName @ '' succeeded.'' @ countText (su_NewObjects su) ''new objects'' @ countText (su_ChangedObjects su) ''changed objects'' @
     countText (su_AppliedHookObjects su) ''hooks run'' @ countText (su_DeletedObjects su) ''deleted objects'' @
     countText (su_OrphanObjects su) ''orphan objects'' @ countText (length (cr_Errors r)) ''errors'' @ countText (length (cr_Warnings r)) ''warnings''"

text \<open>
  The result is completed in place, so the caller sees the completed one. An error of the result store is the outcome
  unless the command had errors itself.
\<close>

definition completeResult :: "KluctlDeployment \<Rightarrow> preparedProject \<Rightarrow> CommandResult \<Rightarrow> CommandResult" where
  "completeResult x pp r =
     r\<lparr>cr_Command := (cr_Command r)\<lparr>ci_Initiator := KluctlDeployment, ci_KluctlDeployment := Some \<lparr>kdi_Name = kd_Name x, kdi_Namespace = kd_Namespace x\<rparr>\<rparr>,
       cr_GitInfo := (cr_GitInfo r)\<lparr>gi_Ref := Some (pp_CheckedOutRef pp)\<rparr>\<rparr>"

definition handleCommandResult :: "KluctlDeploymentReconciler \<Rightarrow> preparedProject \<Rightarrow> string \<Rightarrow> cmd_out \<Rightarrow> cmd_out ceff" where
  "handleCommandResult R pp commandName out =
     (case out of
        (r, Some e) \<Rightarrow> seqM (event R True (commandName @ '' failed. '' @ errorText e)) (ret (r, Some e))
      | (None, None) \<Rightarrow> throw nilPanic
      | (Some r, None) \<Rightarrow>
          bindM (ask ct_obj) (\<lambda>x.
          let r = completeResult x pp r;
              err = (case r_ResultStore R of None \<Rightarrow> None | Some store \<Rightarrow> store r);
              err = (if cr_Errors r \<noteq> [] then Some (Error (commandName @ '' failed with '' @ show_nat (length (cr_Errors r)) @ '' errors'')) else err)
          in seqM (event R (cr_Errors r \<noteq> []) (resultMessage commandName r (the (BuildSummary (Some r))))) (ret (Some r, err))))"

text \<open>Ten minutes, in nanoseconds.\<close>

definition kluctlDeploy :: "KluctlDeploymentReconciler \<Rightarrow> preparedProject \<Rightarrow> TargetContext \<Rightarrow> cmd_out ceff" where
  "kluctlDeploy R pp T =
     bindM (ask (\<lambda>s. kd_Spec (ct_obj s))) (\<lambda>spec.
     bindM (runCommand (DeployCommand_Run (r_C R) T
       \<lparr>dy_ForceApply = ks_ForceApply spec, dy_ReplaceOnError = ks_ReplaceOnError spec, dy_ForceReplaceOnError = ks_ForceReplaceOnError spec,
        dy_AbortOnError = ks_AbortOnError spec, dy_ReadinessTimeout = 600000000000, dy_NoWait = ks_NoWait spec,
        dy_Prune = ks_Prune spec, dy_WaitPrune = False\<rparr> None)) (handleCommandResult R pp ''deploy''))"

definition kluctlPokeImages :: "KluctlDeploymentReconciler \<Rightarrow> preparedProject \<Rightarrow> TargetContext \<Rightarrow> cmd_out ceff" where
  "kluctlPokeImages R pp T = bindM (runCommand (PokeImagesCommand_Run (r_C R) T)) (handleCommandResult R pp ''poke-images'')"

definition kluctlValidate :: "KluctlDeploymentReconciler \<Rightarrow> TargetContext \<Rightarrow> CommandResult option \<Rightarrow> (go_error + FullValidateResult) ceff" where
  "kluctlValidate R T cmdResult =
     runCommand (ValidateCommand_Run (r_C R) (tc_K T)
       \<lparr>vc_c = (case cmdResult of None \<Rightarrow> Some (tc_DeploymentCollection T) | Some _ \<Rightarrow> None), vc_r = cmdResult,
        vc_discriminator = t_Discriminator (tc_Target T)\<rparr>)"

definition deletedTargetName :: "KluctlDeploymentSpec \<Rightarrow> string \<Rightarrow> string" where
  "deletedTargetName spec name =
     (case ks_TargetNameOverride spec of Some t \<Rightarrow> t | None \<Rightarrow> (case ks_Target spec of Some t \<Rightarrow> t | None \<Rightarrow> name))"

definition deleteCommandFor :: "KluctlDeploymentSpec \<Rightarrow> string \<Rightarrow> DeleteCommand" where
  "deleteCommandFor spec discriminator =
     \<lparr>dlc_discriminator = discriminator, dlc_targetCtx = None, dlc_inclusion = Some (buildInclusion spec), dlc_wait = False\<rparr>"

definition deletionCluster :: "KluctlDeploymentReconciler \<Rightarrow> KluctlDeployment \<Rightarrow> K8sCluster res" where
  "deletionCluster R x = (case buildRestConfig R x of Inl (_, e) \<Rightarrow> Inl e | Inr rc \<Rightarrow> r_NewCluster R rc (isDry R x))"

definition finishDelete :: "KluctlDeploymentReconciler \<Rightarrow> preparedProject \<Rightarrow> KluctlDeploymentSpec \<Rightarrow> string \<Rightarrow> cmd_out \<Rightarrow> cmd_out ceff" where
  "finishDelete R pp spec discriminator out =
     (case out of
        (_, Some e) \<Rightarrow> ret (None, Some e)
      | (None, None) \<Rightarrow> throw nilPanic
      | (Some r, None) \<Rightarrow>
          handleCommandResult R pp ''delete'' (Some (r\<lparr>cr_TargetKey := \<lparr>tk_TargetName = deletedTargetName spec (tk_TargetName (cr_TargetKey r)),
            tk_ClusterId = cl_ClusterId (cr_ClusterInfo r), tk_Discriminator = discriminator\<rparr>\<rparr>), None))"

text \<open>The deletion of a target. The errors here are values: the caller drops them.\<close>

definition kluctlDelete :: "KluctlDeploymentReconciler \<Rightarrow> preparedProject \<Rightarrow> string \<Rightarrow> cmd_out ceff" where
  "kluctlDelete R pp discriminator =
     bindM (ask ct_obj) (\<lambda>x.
     if \<not> ks_Delete (kd_Spec x) then ret (None, None)
     else
       attemptM (lift (deletionCluster R x)) (\<lambda>e. ret (None, Some e)) (\<lambda>k.
       bindM (ask (\<lambda>s. ce_now (r_C R) (reqlog (ct_cluster s)))) (\<lambda>start.
       bindM (runCommand (DeleteCommand_Run (r_C R) (Some k) (deleteCommandFor (kd_Spec x) discriminator) (Some (\<lambda>_. None)) start))
         (finishDelete R pp (kd_Spec x) discriminator))))"

section \<open>Times\<close>

definition calcTimeout :: "KluctlDeploymentSpec \<Rightarrow> int" where
  "calcTimeout spec =
     (let d = (case ks_Timeout spec of Some t \<Rightarrow> t | None \<Rightarrow> (case ks_DeployInterval spec of Some t \<Rightarrow> t | None \<Rightarrow> ks_Interval spec))
      in if d < 30000000000 then 30000000000 else d)"

definition nextDeployTime :: "KluctlDeploymentReconciler \<Rightarrow> KluctlDeployment \<Rightarrow> int option" where
  "nextDeployTime R x =
     (case kst_LastDeployResult (kd_Status x) of
        None \<Rightarrow> None
      | Some raw \<Rightarrow>
          (case ks_DeployInterval (kd_Spec x) of
             None \<Rightarrow> None
           | Some d \<Rightarrow> (case r_SummaryFromYaml R raw of Inl _ \<Rightarrow> None | Inr su \<Rightarrow> Some (ci_EndTime (su_Command su) + d))))"

definition nextValidateTime :: "KluctlDeploymentReconciler \<Rightarrow> KluctlDeployment \<Rightarrow> int option" where
  "nextValidateTime R x =
     (case kst_LastValidateResult (kd_Status x) of
        None \<Rightarrow> None
      | Some raw \<Rightarrow>
          let d = (case ks_ValidateInterval (kd_Spec x) of Some d \<Rightarrow> d | None \<Rightarrow> ks_Interval (kd_Spec x)) in
          (case r_ValidateFromYaml R raw of Inl _ \<Rightarrow> None | Inr v \<Rightarrow> Some (fvr_EndTime v + d)))"

definition nextReconcileTime :: "KluctlDeploymentReconciler \<Rightarrow> int \<Rightarrow> KluctlDeployment \<Rightarrow> int" where
  "nextReconcileTime R now x =
     (let t1 = now + ks_Interval (kd_Spec x);
          t1 = (case nextDeployTime R x of Some t2 \<Rightarrow> if t2 < t1 then t2 else t1 | None \<Rightarrow> t1)
      in case nextValidateTime R x of
           Some t3 \<Rightarrow> if ks_Validate (kd_Spec x) \<and> t3 < t1 then t3 else t1
         | None \<Rightarrow> t1)"

record ctrl_result =
  cres_Requeue :: bool
  cres_RequeueAfter :: int

definition requeueAt :: "int \<Rightarrow> int \<Rightarrow> ctrl_result" where
  "requeueAt t now = (if t - now < 0 then \<lparr>cres_Requeue = True, cres_RequeueAfter = 0\<rparr> else \<lparr>cres_Requeue = False, cres_RequeueAfter = t - now\<rparr>)"

section \<open>Deciding what to do\<close>

text \<open>\<open>x\<close> has the old results and the old hash; generation and deploy request are those that were handled before.\<close>

definition needDeploy :: "KluctlDeploymentReconciler \<Rightarrow> KluctlDeployment \<Rightarrow> int \<Rightarrow> string \<Rightarrow> string \<Rightarrow> string \<Rightarrow> int \<Rightarrow> bool" where
  "needDeploy R x oldGeneration oldDeployRequest curDeployRequest objectsHash now =
     (if kst_LastDeployResult (kd_Status x) = None \<or> kst_LastObjectsHash (kd_Status x) \<noteq> objectsHash then True
      else if curDeployRequest \<noteq> [] \<and> oldDeployRequest \<noteq> curDeployRequest then True
      else if oldGeneration \<noteq> kd_Generation x then True
      else (case nextDeployTime R x of None \<Rightarrow> False | Some t \<Rightarrow> t < now))"

definition needValidate :: "KluctlDeploymentReconciler \<Rightarrow> KluctlDeployment \<Rightarrow> bool \<Rightarrow> int \<Rightarrow> bool" where
  "needValidate R x deploy now =
     (if ks_Validate (kd_Spec x) then
        (if kst_LastValidateResult (kd_Status x) = None \<or> deploy then True
         else (case nextValidateTime R x of None \<Rightarrow> False | Some t \<Rightarrow> t < now))
      else False)"

text \<open>The final status and the reason. A result that cannot be read counts as none.\<close>

definition deployOk :: "KluctlDeploymentReconciler \<Rightarrow> KluctlDeploymentStatus \<Rightarrow> bool" where
  "deployOk R st =
     (case kst_LastDeployResult st of
        None \<Rightarrow> False
      | Some raw \<Rightarrow> (case r_SummaryFromYaml R raw of Inl _ \<Rightarrow> False | Inr su \<Rightarrow> su_Errors su = []))"

definition validateOk :: "KluctlDeploymentReconciler \<Rightarrow> KluctlDeploymentStatus \<Rightarrow> bool" where
  "validateOk R st =
     (case kst_LastValidateResult st of
        None \<Rightarrow> False
      | Some raw \<Rightarrow> (case r_ValidateFromYaml R raw of Inl _ \<Rightarrow> False | Inr v \<Rightarrow> vr_Errors v = [] \<and> vr_Ready v))"

definition okText :: "bool \<Rightarrow> string" where
  "okText b = (if b then ''ok'' else ''failed'')"

definition buildFinalStatus :: "KluctlDeploymentReconciler \<Rightarrow> KluctlDeployment \<Rightarrow> string \<times> string" where
  "buildFinalStatus R x =
     (let st = kd_Status x; validate = ks_Validate (kd_Spec x) in
      if kst_LastDeployError st \<noteq> [] then (kst_LastDeployError st, ''DeployFailed'')
      else if kst_LastValidateError st \<noteq> [] then (kst_LastValidateError st, ''ValidateFailed'')
      else
        let dOk = deployOk R st; vOk = (validateOk R st \<or> \<not> validate);
            s1 = (if kst_LastDeployResult st \<noteq> None then ''deploy: '' @ okText dOk else []);
            s2 = (if validate \<and> kst_LastValidateResult st \<noteq> None
                  then s1 @ (if s1 \<noteq> [] then '', '' else []) @ ''validate: '' @ okText vOk else s1)
        in (s2, if dOk then (if vOk then ''ReconciliationSucceeded'' else ''ValidateFailed'') else ''DeployFailed''))"

section \<open>Reconciling\<close>

type_synonym reconcile_out = "ctrl_result option \<times> go_error option"

definition doFail :: "KluctlDeploymentReconciler \<Rightarrow> string \<Rightarrow> go_error \<Rightarrow> reconcile_out ceff" where
  "doFail R reason e = seqM (setReadiness R ConditionFalse reason (errorText e)) (ret (None, Some e))"

definition checkLegacyKluctlDeployment :: "KluctlDeploymentReconciler \<Rightarrow> KluctlDeployment \<Rightarrow> bool res" where
  "checkLegacyKluctlDeployment R x =
     (case r_GetLegacy R (kd_Namespace x) (kd_Name x) of
        Inl (absent, e) \<Rightarrow> if absent then Inr False else Inl e
      | Inr obj2 \<Rightarrow> bindE (r_NestedReadyForMigration R obj2) (\<lambda>ready. Inr (\<not> ready)))"

text \<open>
  Everything before the decision: the checkout, the project, the context of the target, the keys in the status and
  the hash of the rendered objects.
\<close>

definition prepareAll :: "KluctlDeploymentReconciler \<Rightarrow> (preparedProject \<times> TargetContext \<times> string) ceff" where
  "prepareAll R =
     bindM (ask ct_obj) (\<lambda>x.
     bindM (lift (prepareProject R x True)) (\<lambda>pp.
     seqM (modStatus (\<lambda>st. st\<lparr>kst_ObservedCommit := pp_CheckedOutCommit pp\<rparr>))
     (bindM (lift (optErr (r_NewKluctlJinja2 R))) (\<lambda>_.
      bindM (lift (pp_loadKluctlProject R x pp)) (\<lambda>lp.
      bindM (pt_loadTarget R pp lp) (\<lambda>T.
      let subDir = Clean (src_Path (ks_Source (kd_Spec x))) in
      seqM (modStatus (\<lambda>st. st\<lparr>kst_ProjectKey := Some \<lparr>pk_GitRepoKey = RepoKey (src_URL (ks_Source (kd_Spec x))), pk_SubDir = if subDir = ''.'' then [] else subDir\<rparr>,
              kst_TargetKey := Some \<lparr>tk_TargetName = t_Name (tc_Target T), tk_ClusterId = [], tk_Discriminator = t_Discriminator (tc_Target T)\<rparr>\<rparr>))
      (bindM (lift (CalcObjectsHash (r_sha256 R) (r_ObjToJson R) (tc_DeploymentCollection T))) (\<lambda>hash.
       ret (pp, T, hash)))))))))"

text \<open>The deployment and its result in the status; an unknown mode is an error like that of a command.\<close>

definition runDeploy :: "KluctlDeploymentReconciler \<Rightarrow> preparedProject \<Rightarrow> TargetContext \<Rightarrow> CommandResult option ceff" where
  "runDeploy R pp T =
     bindM (ask (\<lambda>s. ks_DeployMode (kd_Spec (ct_obj s)))) (\<lambda>mode.
     bindM (if mode = ''full-deploy'' then kluctlDeploy R pp T
            else if mode = ''poke-images'' then kluctlPokeImages R pp T
            else ret (None, Some (Error (''deployMode '' @ quoted mode @ '' not supported'')))) (\<lambda>(r, err).
     seqM (modStatus (\<lambda>st. fst (SetLastDeployResult (r_SummaryToJson R) (BuildSummary r) err st))) (ret r)))"

definition runValidate :: "KluctlDeploymentReconciler \<Rightarrow> TargetContext \<Rightarrow> CommandResult option \<Rightarrow> unit ceff" where
  "runValidate R T deployResult =
     bindM (kluctlValidate R T deployResult) (\<lambda>r.
     modStatus (\<lambda>st. fst (case r of
        Inl e \<Rightarrow> SetLastValidateResult (r_ValidateToJson R) None (Some e) st
      | Inr v \<Rightarrow> SetLastValidateResult (r_ValidateToJson R) (Some v) None st)))"

definition finishReconcile :: "KluctlDeploymentReconciler \<Rightarrow> reconcile_out ceff" where
  "finishReconcile R =
     bindM (ask (\<lambda>s. requeueAt (nextReconcileTime R (r_now R AtNextReconcile (reqlog (ct_cluster s))) (ct_obj s))
                       (r_now R AtRequeue (reqlog (ct_cluster s))))) (\<lambda>ctrlResult.
     bindM (ask (\<lambda>s. buildFinalStatus R (ct_obj s))) (\<lambda>(finalStatus, reason).
     if reason \<noteq> ''ReconciliationSucceeded'' then
       seqM (setReadiness R ConditionFalse reason finalStatus) (ret (Some ctrlResult, Some (Error (SprintfNoArgs finalStatus))))
     else seqM (setReadiness R ConditionTrue reason finalStatus) (ret (Some ctrlResult, None))))"

definition reconcileTarget :: "KluctlDeploymentReconciler \<Rightarrow> int \<Rightarrow> string \<Rightarrow> string \<Rightarrow> preparedProject \<times> TargetContext \<times> string \<Rightarrow> reconcile_out ceff" where
  "reconcileTarget R oldGeneration oldDeployRequest curDeployRequest prepared =
     (case prepared of (pp, T, hash) \<Rightarrow>
        bindM (ask (\<lambda>s. needDeploy R (ct_obj s) oldGeneration oldDeployRequest curDeployRequest hash (r_now R AtDeployCheck (reqlog (ct_cluster s))))) (\<lambda>deploy.
        bindM (ask (\<lambda>s. needValidate R (ct_obj s) deploy (r_now R AtValidateCheck (reqlog (ct_cluster s))))) (\<lambda>validate.
        seqM (modObj (\<lambda>x. x\<lparr>kd_Status := (let st = (kd_Status x)\<lparr>kst_LastObjectsHash := hash\<rparr> in
                if ks_Validate (kd_Spec x) then st else st\<lparr>kst_LastValidateResult := None, kst_LastValidateError := []\<rparr>)\<rparr>))
        (bindM (if deploy then runDeploy R pp T else ret None) (\<lambda>deployResult.
         seqM (whenM validate (runValidate R T deployResult)) (finishReconcile R))))))"

definition reconcileActive :: "KluctlDeploymentReconciler \<Rightarrow> reconcile_out ceff" where
  "reconcileActive R =
     bindM (ask ct_obj) (\<lambda>x.
     let oldGeneration = kst_ObservedGeneration (kd_Status x); oldDeployRequest = kst_LastHandledDeployAt (kd_Status x);
         curDeployRequest = (case map_of (kd_Annotations x) ''kluctl.io/request-deploy'' of None \<Rightarrow> [] | Some v \<Rightarrow> v) in
     seqM (whenM (oldGeneration = 0) (setReadiness R ConditionUnknown ''Progressing'' ''reconciliation in progress''))
     (seqM (modStatus (\<lambda>st. st\<lparr>kst_ObservedGeneration := kd_Generation x, kst_LastHandledDeployAt := curDeployRequest\<rparr>))
      (attemptM (prepareAll R) (doFail R ''PrepareFailed'') (reconcileTarget R oldGeneration oldDeployRequest curDeployRequest))))"

text \<open>The value of the request to reconcile, if any, is recorded.\<close>

definition recordRequest :: "KluctlDeployment \<Rightarrow> KluctlDeployment" where
  "recordRequest x =
     (case map_of (kd_Annotations x) ''kluctl.io/request-reconcile'' of
        None \<Rightarrow> x
      | Some v \<Rightarrow> x\<lparr>kd_Status := (kd_Status x)\<lparr>kst_LastHandledReconcileAt := v\<rparr>\<rparr>)"

text \<open>As long as an object of the old API group is not ready for the migration, nothing is reconciled.\<close>

definition unlessLegacy :: "KluctlDeploymentReconciler \<Rightarrow> bool \<Rightarrow> bool \<Rightarrow> reconcile_out ceff" where
  "unlessLegacy R waiting legacyKd =
     (if legacyKd \<and> waiting then ret (Some \<lparr>cres_Requeue = False, cres_RequeueAfter = 5000000000\<rparr>, None)
      else if legacyKd then
        seqM (setReadiness R ConditionFalse ''WaitingForLegacyMigration'' ''waiting for the legacy controller to set readyForMigration=true'')
          (ret (Some \<lparr>cres_Requeue = True, cres_RequeueAfter = 0\<rparr>, None))
      else if waiting then
        seqM (setReadiness R ConditionFalse ''Progressing'' ''migration is finished'') (ret (Some \<lparr>cres_Requeue = True, cres_RequeueAfter = 0\<rparr>, None))
      else reconcileActive R)"

definition doReconcile :: "KluctlDeploymentReconciler \<Rightarrow> reconcile_out ceff" where
  "doReconcile R =
     seqM (modObj recordRequest)
     (bindM (ask ct_obj) (\<lambda>x.
      attemptM (lift (checkLegacyKluctlDeployment R x)) (\<lambda>e. ret (None, Some e))
        (unlessLegacy R (readyReason R x = Some ''WaitingForLegacyMigration''))))"

section \<open>Deletion and the reconciliation as a whole\<close>

definition finalizerName :: string where "finalizerName = ''finalizers.gitops.kluctl.io''"

definition doFinalize :: "KluctlDeploymentReconciler \<Rightarrow> unit ceff" where
  "doFinalize R =
     bindM (ask ct_obj) (\<lambda>x.
     if \<not> ks_Delete (kd_Spec x) \<or> ks_Suspend (kd_Spec x) then ret ()
     else case (kst_ProjectKey (kd_Status x), kst_TargetKey (kd_Status x)) of
       (Some _, Some tk) \<Rightarrow>
         attemptM (lift (prepareProject R x False)) (\<lambda>_. ret ()) (\<lambda>pp. bindM (kluctlDelete R pp (tk_Discriminator tk)) (\<lambda>_. ret ()))
     | _ \<Rightarrow> ret ())"

text \<open>A patch writes the object in memory to the API server, or fails and changes nothing there.\<close>

definition patchObject :: "(KluctlDeployment \<Rightarrow> go_error option) \<Rightarrow> go_error option ceff" where
  "patchObject send s =
     (case send (ct_obj s) of
        Some e \<Rightarrow> (Inr (Some e), s)
      | None \<Rightarrow> (Inr None, s\<lparr>ct_stored := ct_obj s\<rparr>))"

definition finalize :: "KluctlDeploymentReconciler \<Rightarrow> (ctrl_result \<times> go_error option) ceff" where
  "finalize R =
     seqM (doFinalize R)
     (seqM (modObj (\<lambda>x. x\<lparr>kd_Finalizers := filter (\<lambda>f. f \<noteq> finalizerName) (kd_Finalizers x)\<rparr>))
      (bindM (patchObject (r_Patch R)) (\<lambda>err. ret (\<lparr>cres_Requeue = False, cres_RequeueAfter = 0\<rparr>, err))))"

definition addFinalizer :: "KluctlDeploymentReconciler \<Rightarrow> go_error option ceff" where
  "addFinalizer R =
     bindM (ask (\<lambda>s. finalizerName \<in> set (kd_Finalizers (ct_obj s)))) (\<lambda>present.
     if present then ret None
     else seqM (modObj (\<lambda>x. x\<lparr>kd_Finalizers := kd_Finalizers x @ [finalizerName]\<rparr>)) (patchObject (r_Patch R)))"

text \<open>The durations in the final messages are left out.\<close>

definition announce :: "KluctlDeploymentReconciler \<Rightarrow> KluctlDeploymentSpec \<Rightarrow> reconcile_out \<Rightarrow> (ctrl_result \<times> go_error option) ceff" where
  "announce R spec out =
     (case out of (ctrlResult, reconcileErr) \<Rightarrow>
        let result = (case ctrlResult of
              Some c \<Rightarrow> c
            | None \<Rightarrow> \<lparr>cres_Requeue = False, cres_RequeueAfter = if reconcileErr \<noteq> None then GetRetryInterval spec else ks_Interval spec\<rparr>)
        in seqM (event R True (case reconcileErr of Some e \<Rightarrow> errorText e | None \<Rightarrow> ''Reconciliation finished'')) (ret (result, None)))"

definition Reconcile :: "KluctlDeploymentReconciler \<Rightarrow> (ctrl_result \<times> go_error option) ceff" where
  "Reconcile R =
     (let none = \<lparr>cres_Requeue = False, cres_RequeueAfter = 0\<rparr> in
      seqM (modify (\<lambda>s. s\<lparr>ct_obj := ct_stored s\<rparr>))
      (bindM (addFinalizer R) (\<lambda>err.
       if err \<noteq> None then ret (none, err)
       else
         bindM (ask ct_obj) (\<lambda>x.
         if kd_Deleted x then finalize R
         else if ks_Suspend (kd_Spec x) then ret (none, None)
         else
           bindM (doReconcile R) (\<lambda>out.
           bindM (patchObject (r_StatusPatch R)) (\<lambda>err.
           if err \<noteq> None then ret (\<lparr>cres_Requeue = True, cres_RequeueAfter = 0\<rparr>, err)
           else announce R (kd_Spec x) out))))))"

end
