(* ===== verification/Loading_Safety.thy ===== *)
theory Loading_Safety
  imports Kluctl_Project
begin

text \<open>
  Loading never writes: variables, projects, items, collections and the preparation of the items read from the
  cluster at most. The facts are collected under \<open>loads\<close>.
\<close>

named_theorems loads

abbreviation reads :: "('x kstate_scheme, 'a) eff \<Rightarrow> bool" where
  "reads m \<equiv> always (logs read_only) m"

lemma snd_wrap [simp]: "snd (wrapM pre m s) = snd (m s)" "snd (mustM m s) = snd (m s)" "snd (tryM d m s) = snd (m s)"
  by (auto simp: wrapM_def mustM_def tryM_def split: prod.splits sum.splits go_error.splits)

lemma reads_wrap [loads]: "always R m \<Longrightarrow> always R (wrapM pre m)" "always R m \<Longrightarrow> always R (mustM m)" "always R m \<Longrightarrow> always R (tryM d m)"
  by (simp_all add: always_def)

lemma reads_forItemsM [loads]: "(\<And>i st. i \<in> set is \<Longrightarrow> reads (f i st)) \<Longrightarrow> reads (forItemsM f is st)"
  by (induction "is" arbitrary: st) (auto intro: logs.always_intros)

section \<open>Variables\<close>

lemma reads_http: "reads (loadHttp V h i)"
  unfolding loadHttp_def httpCredentials_def Let_def
  by (intro logs.always_intros) (simp_all add: logs_same)

lemma reads_k8s: "reads (loadFromK8sObject V vars c kind i b)"
proof -
  have "reads (findVarsObject V k c kind i)" for k
    unfolding findVarsObject_def
    by (intro logs.always_intros logs_intros) (auto simp: read_only_def intro!: logs.always_intros split: list.split)
  then show ?thesis unfolding loadFromK8sObject_def by (intro logs.always_intros)
qed

lemma reads_LoadVars: "reads (LoadVars V src dirs key vars)"
  unfolding LoadVars_def newVarsOf_def Let_def by (intro logs.always_intros reads_http reads_k8s)

lemma reads_LoadVarsList [loads]: "reads (LoadVarsList V vs dirs key vars)"
  by (induction vs arbitrary: vars) (auto intro!: logs.always_intros reads_LoadVars)

section \<open>Projects and items\<close>

lemma reads_NewSource [loads]: "reads (NewSource d)"
  unfolding NewSource_def getNextSourceId_def by (intro logs.always_intros) (simp add: logs_same)

lemma reads_loadVarsList [loads]: "reads (loadVarsList E p vars vs)"
  unfolding loadVarsList_def by (rule reads_LoadVarsList)

lemma reads_loadConfig [loads]: "reads (loadConfig E parents p)"
  unfolding loadConfig_def processConfig_def Let_def by (intro logs.always_intros loads)

lemma reads_loadIncludes:
  assumes "\<And>vars source d ps. reads (new vars source d ps)"
  shows "reads (loadIncludes new E parents p)"
  unfolding loadIncludes_def loadInclude_def loadLocalInclude_def Let_def
  by (intro logs.always_intros loads assms)

lemma reads_NewDeploymentProject [loads]: "reads (NewDeploymentProject E n vars source d parents)"
proof (induction n arbitrary: vars source d parents)
  case (Suc n)
  show ?case unfolding NewDeploymentProject.simps by (intro logs.always_intros loads reads_loadIncludes Suc.IH)
qed (simp add: logs.always_pure)

lemma reads_NewDeploymentItem [loads]: "reads (NewDeploymentItem E project inclusion config dir index)"
  unfolding NewDeploymentItem_def Let_def by (intro logs.always_intros loads)

lemma reads_collectItem:
  assumes "\<And>i c p ix. (i, c) \<in> set subs \<Longrightarrow> reads (c p ix)"
  shows "reads (collectItem E inclusion project subs i st)"
  unfolding collectItem_def createBarrierDummy_def Let_def
  by (intro logs.always_intros loads) (auto intro: assms dest!: map_of_SomeD)

lemma reads_collectAll [loads]: "reads (collectAllDeployments E inclusion t parents ix)"
proof (induction t arbitrary: parents ix)
  case (DeploymentProject p incs)
  show ?case
    unfolding collectAllDeployments.simps
    by (intro logs.always_intros loads reads_collectItem) (auto intro: DeploymentProject snds.intros)
qed

lemma reads_NewDeploymentCollection [loads]: "reads (NewDeploymentCollection E d inclusion forSeal)"
  unfolding NewDeploymentCollection_def by (intro logs.always_intros loads)

section \<open>The context of a target\<close>

lemma reads_loadSecrets [loads]: "reads (loadSecrets V p t vars)"
proof -
  have "reads (loadSecretSets V p ns vars)" for ns
    by (induction ns arbitrary: vars) (auto intro!: logs.always_intros loads)
  then show ?thesis unfolding loadSecrets_def by (intro logs.always_intros)
qed

lemma reads_selectTarget [loads]: "reads (putTarget i t)" "reads (selectTarget E params)"
proof -
  show p: "reads (putTarget i t)" for i t unfolding putTarget_def by (intro logs.always_intros) (simp add: logs_same)
  show "reads (selectTarget E params)" unfolding selectTarget_def Let_def by (intro logs.always_intros p)
qed

lemma reads_NewTargetContext: "reads (NewTargetContext E params)"
  unfolding NewTargetContext_def Let_def by (intro logs.always_intros loads)

section \<open>Preparation\<close>

lemma reads_ResolvePlaceholders [loads]: "reads (ResolvePlaceholders X n L k ob dir tags vars)"
proof -
  have "reads (resolveLoop X k ref d dir tags vars remote phs ob)" for ref d remote phs ob
  proof (induction phs arbitrary: remote ob)
    case (Cons ph phs)
    show ?case
      unfolding resolveLoop.simps getRemote_def resolveImage_def
      by (intro logs.always_intros logs_intros Cons.IH) (simp_all add: logs_same)
  qed (simp add: logs.always_pure)
  then show ?thesis unfolding ResolvePlaceholders_def by (intro logs.always_intros)
qed

lemma reads_postprocess [loads]: "reads (postprocessObject E di ob)"
  unfolding postprocessObject_def FixNamespace_def IsNamespaced_def by (intro logs.always_intros loads logs_intros)

lemma reads_postprocessObjects [loads]: "reads (postprocessObjects E di)"
  unfolding postprocessObjects_def postprocessUnwrapped_def
  by (intro logs.always_intros loads)

lemma reads_Prepare: "reads (Prepare E walk rd files F1 F2 F3 n c)"
  unfolding Prepare_def buildKustomizeObjects_def postprocessAll_def by (intro logs.always_intros loads)

section \<open>The property\<close>

text \<open>
  C11: Loading writes nothing. Building the context of a target, with its variables, its project and all its items,
  and preparing the objects of the items, with the images resolved from what is deployed, sends read requests only, however it ends.
\<close>

theorem loading_reads_only:
  "(\<exists>new. reqlog (snd (NewTargetContext E params s)) = reqlog s @ new \<and> list_all read_only new) \<and>
   (\<exists>new. reqlog (snd (Prepare I walk renderDir files Fhelm Fseal Fbuild n c im)) = reqlog im @ new \<and> list_all read_only new)"
  using alwaysD [OF reads_NewTargetContext, of s] alwaysD [OF reads_Prepare, of im] unfolding logs_def by blast

end
