(* ===== verification/Controller_Properties.thy ===== *)
theory Controller_Properties
  imports Controller Loading_Safety
begin

text \<open>
  What the controller promises: whom its clients act as, when it deploys and what it may write, what the status
  says, what happens when a deployment is deleted, and when it comes back.
\<close>

section \<open>Requests of a reconciliation\<close>

text \<open>The state of a reconciliation holds a request log as well.\<close>

definition clogs :: "(request \<Rightarrow> bool) \<Rightarrow> ctl \<Rightarrow> ctl \<Rightarrow> bool" where
  "clogs P s s' \<longleftrightarrow> (\<exists>new. reqlog (ct_cluster s') = reqlog (ct_cluster s) @ new \<and> list_all P new)"

interpretation clogs: step_rel "clogs P" for P
proof
  show "clogs P s s" for s by (simp add: clogs_def)
  show "clogs P s s' \<Longrightarrow> clogs P s' s'' \<Longrightarrow> clogs P s s''" for s s' s'' by (auto simp: clogs_def)
qed

named_theorems clogs_intros

lemma clogs_same: "ct_cluster s' = ct_cluster s \<Longrightarrow> clogs P s s'"
  by (simp add: clogs_def)

lemma clogs_mono: "clogs P s s' \<Longrightarrow> (\<And>r. P r \<Longrightarrow> Q r) \<Longrightarrow> clogs Q s s'"
  by (auto simp: clogs_def elim!: list.pred_mono_strong)

lemma clogs_ops [clogs_intros]:
  "always (clogs P) (modObj f)" "always (clogs P) (modStatus g)" "always (clogs P) (setReadiness R st reason msg)"
  "always (clogs P) (event R w msg)" "always (clogs P) (patchObject send)"
  unfolding modStatus_def setReadiness_def modObj_def event_def patchObject_def
  by (auto simp: always_def run_simps clogs_same split: option.split)

lemma clogs_attemptM [clogs_intros]:
  assumes "always (clogs P) m" "\<And>e. always (clogs P) (fail e)" "\<And>x. always (clogs P) (f x)"
  shows "always (clogs P) (attemptM m fail f)"
proof (rule alwaysI)
  fix s
  obtain r s1 where m: "m s = (r, s1)" by fastforce
  have 1: "clogs P s s1" using alwaysD [OF assms(1), of s] m by simp
  show "clogs P s (snd (attemptM m fail f s))"
  proof (cases r)
    case (Inl e)
    then show ?thesis using 1 m clogs.trans [OF 1 alwaysD [OF assms(2) [of e]]] by (simp add: attemptM_def)
  next
    case (Inr x)
    then show ?thesis using m clogs.trans [OF 1 alwaysD [OF assms(3) [of x]]] by (simp add: attemptM_def)
  qed
qed

lemma clogs_runCommand:
  assumes "always (logs P) m"
  shows "always (clogs P) (runCommand m)"
proof (rule alwaysI)
  fix s :: ctl
  let ?c = "(ct_cluster s)\<lparr>rs_dew := dew_Init, rs_ru := \<lparr>ru_remoteObjects = [], ru_remoteNamespaces = []\<rparr>\<rparr>"
  have "snd (runCommand m s) = s\<lparr>ct_cluster := snd (m ?c)\<rparr>" by (simp add: runCommand_def split: prod.split)
  then show "clogs P s (snd (runCommand m s))" using alwaysD [OF assms, of ?c] by (simp add: clogs_def logs_def)
qed

lemma clogs_handleCommandResult [clogs_intros]: "always (clogs P) (handleCommandResult R pp n out)"
  unfolding handleCommandResult_def Let_def by (intro clogs.always_intros clogs_intros)

lemma clogs_loadTarget [clogs_intros]: "always (clogs read_only) (pt_loadTarget R pp p)"
proof -
  have load: "\<exists>new. snd (loadContext R x params p h) = h @ new \<and> list_all read_only new" for x params h
  proof -
    let ?s = "\<lparr>reqlog = h, vl_credentialsCache = [], ls_nextSourceId = r_nextSourceId R, ps_project = p\<rparr>"
    obtain r s1 where 1: "NewTargetContext (targetEnv R x) params ?s = (r, s1)" by fastforce
    have l: "logs read_only ?s s1" using alwaysD [OF reads_NewTargetContext, of ?s] 1 by (metis snd_conv)
    have "\<exists>new. snd (prepareItems R I T h') = h' @ new \<and> list_all read_only new" for I T h'
    proof (cases "tp_Images (tc_Params T)")
      case (Some im)
      let ?P = "r_P R"
      have "logs read_only (im\<lparr>reqlog := h'\<rparr>) (snd (Prepare I (pl_walk ?P) (pl_renderDir ?P) (pl_helmFiles ?P) (pl_Fhelm ?P) (pl_Fseal ?P)
          (pl_Fbuild ?P) (pl_depth ?P) (tc_DeploymentCollection T) (im\<lparr>reqlog := h'\<rparr>)))" using reads_Prepare by (rule alwaysD)
      then show ?thesis using Some by (auto simp: prepareItems_def Let_def logs_def split: prod.splits sum.splits)
    qed (simp add: prepareItems_def)
    then show ?thesis using l 1 by (auto simp: loadContext_def Let_def logs_def split: sum.splits) (metis append.assoc list_all_append)
  qed
  show ?thesis
    unfolding pt_loadTarget_def
  proof (intro clogs.always_intros, rule alwaysI)
    fix x dir images s
    show "clogs read_only s (snd (case loadContext R x (targetParams R x images dir) p (reqlog (ct_cluster s)) of
        (r, h) \<Rightarrow> (r, s\<lparr>ct_cluster := (ct_cluster s)\<lparr>reqlog := h\<rparr>\<rparr>)))"
      using load [of x "targetParams R x images dir" "reqlog (ct_cluster s)"] by (auto simp: clogs_def split: prod.splits)
  qed
qed

lemma clogs_prepareAll [clogs_intros]: "always (clogs read_only) (prepareAll R)"
  unfolding prepareAll_def Let_def by (intro clogs.always_intros clogs_intros)

lemma clogs_finishReconcile [clogs_intros]: "always (clogs P) (finishReconcile R)"
  unfolding finishReconcile_def by (intro clogs.always_intros clogs_intros)

text \<open>Parts of the object that a step leaves alone.\<close>

definition same :: "(KluctlDeployment \<Rightarrow> 'b) \<Rightarrow> ctl \<Rightarrow> ctl \<Rightarrow> bool" where
  "same f s s' \<longleftrightarrow> f (ct_obj s') = f (ct_obj s)"

interpretation same: step_rel "same f" for f
  by unfold_locales (simp_all add: same_def)

lemma same_steps:
  "(\<And>x. f (g x) = f x) \<Longrightarrow> always (same f) (modObj g)"
  "(\<And>x. f (x\<lparr>kd_Status := h (kd_Status x)\<rparr>) = f x) \<Longrightarrow> always (same f) (modStatus h)"
  "always (same f) (event R w msg)" "always (same f) (patchObject send)" "always (same f) (runCommand m)"
  unfolding modStatus_def modObj_def event_def patchObject_def runCommand_def
  by (auto simp: always_def run_simps same_def split: option.split prod.split)

section \<open>What the commands of the controller send\<close>

text \<open>Replacing an object reads and updates, with the dry-run flag of the cluster.\<close>

definition updates :: "bool \<Rightarrow> request \<Rightarrow> bool" where
  "updates dry q \<longleftrightarrow> read_only q \<or> (\<exists>x. q = ReqUpdate x dry)"

lemma updates_ReplaceObject: "always (logs (updates (k_DryRun (ae_k E)))) (ReplaceObject E ref fv cb)"
proof -
  have "always (logs (updates (k_DryRun (ae_k E)))) (replaceLoop E n ref fv cb)" for n
  proof (induction n arbitrary: fv)
    case (Suc n)
    show ?case
      unfolding replaceLoop.simps
      by (intro logs.always_intros logs_intros Suc.IH) (auto simp: updates_def logs_same)
  qed (simp add: logs.always_pure)
  then show ?thesis by (simp add: ReplaceObject_def)
qed

lemma updates_pokeObject: "always (logs (updates (k_DryRun (ae_k E)))) (pokeObject E m ref)"
  unfolding pokeObject_def by (intro logs.always_intros updates_ReplaceObject) (simp add: logs_same)

lemma pokeWorkers_logs:
  "pokeWorkers E m refs sh = Inr (sh', as) \<Longrightarrow> \<exists>new. sh_log sh' = sh_log sh @ new \<and> list_all (updates (k_DryRun (ae_k E))) new"
proof (induction refs arbitrary: sh as)
  case (Cons ref refs)
  obtain u a as' where a: "pokeObject E m ref (worker sh) = (Inr u, a)" "pokeWorkers E m refs (sharedOf a) = Inr (sh', as')"
    using Cons.prems by (auto simp: bindE_Inr_iff split: prod.splits sum.splits)
  have "logs (updates (k_DryRun (ae_k E))) (worker sh) a" using alwaysD [OF updates_pokeObject, of E "worker sh"] a(1) by (metis snd_conv)
  then obtain new where "reqlog a = sh_log sh @ new" "list_all (updates (k_DryRun (ae_k E))) new"
    by (auto simp: logs_def worker_def NewApplyUtil_def)
  then show ?case using Cons.IH [OF a(2)] by (auto simp: sharedOf_def)
qed simp

lemma logs_pokeStage: "always (logs (updates (k_DryRun k))) (pokeStage C k m)"
proof (rule alwaysI)
  fix s :: rstate
  show "logs (updates (k_DryRun k)) s (snd (pokeStage C k m s))"
  proof (cases "pokeWorkers (applyEnvFor C k pokeOptions s) m (ce_visitRefs C (map fst m)) (sharedFor s)")
    case (Inr x)
    then show ?thesis using pokeWorkers_logs [of "applyEnvFor C k pokeOptions s" m _ "sharedFor s"]
      by (cases x) (fastforce simp: pokeStage_def logs_def applyEnvFor_def sharedFor_def)
  qed (simp add: pokeStage_def logs_same)
qed

lemma logs_PokeImagesCommand:
  assumes "\<And>k. tc_K T = Some k \<Longrightarrow> k_DryRun k = dry"
  shows "always (logs (updates dry)) (PokeImagesCommand_Run C T)"
  unfolding PokeImagesCommand_Run_def Let_def
  by (intro logs.always_intros logs_intros logs_withSnapshot) (auto intro: logs_same logs_pokeStage simp: updates_def assms dest!: assms [symmetric])

text \<open>In a dry run, a request must be harmless.\<close>

definition allowed :: "bool \<Rightarrow> request \<Rightarrow> bool" where
  "allowed dry q \<longleftrightarrow> (dry \<longrightarrow> harmless q)"

lemma allowed_requests: "read_only q \<Longrightarrow> allowed dry q" "updates dry q \<Longrightarrow> allowed dry q"
  by (auto simp: allowed_def updates_def read_only_harmless)

lemma logs_DeployCommand:
  assumes "schedule (ce_run C)" "\<And>l. set (ce_sched2 C l) = set l" "\<And>k. tc_K T = Some k \<Longrightarrow> k_DryRun k = dry"
  shows "always (logs (allowed dry)) (DeployCommand_Run C T cmd None)"
proof -
  have "always (logs (allowed (k_DryRun k))) (deployMain C T cmd k)" for k
    unfolding deployMain_def deployPrune_def Let_def using assms(1,2)
    by (intro logs.always_intros logs_intros logs_applyStage logs_deleteStage logs_r_ops)
      (auto intro: dry_flagged read_only_harmless simp: allowed_def deployOptions_def deleteReq_def)
  then show ?thesis
    unfolding DeployCommand_Run_def
    by (intro logs.always_intros logs_intros logs_withSnapshot) (use assms(3) allowed_requests in auto)
qed

section \<open>When a reconciliation writes\<close>

text \<open>A cluster has the dry-run flag it was made with.\<close>

definition cluster_law :: "KluctlDeploymentReconciler \<Rightarrow> bool" where
  "cluster_law R \<longleftrightarrow> (\<forall>rc dry k. r_NewCluster R rc dry = Inr k \<longrightarrow> k_DryRun k = dry)"

lemma NewTargetContext_cluster:
  assumes "NewTargetContext (targetEnv R x) params s = (Inr T, s')" "cluster_law R"
  shows "tc_K T = Some k \<Longrightarrow> k_DryRun k = tp_DryRun params"
  using assms
  by (auto simp: NewTargetContext_def Let_def bindM_Inr_iff seqM_def run_simps loadK8sConfig_def targetEnv_def clientConfigGetter_def cluster_law_def
      split: option.splits sum.splits if_splits prod.splits)

lemma prepareItems_cluster: "prepareItems R I T h = (Inr T', h') \<Longrightarrow> tc_K T' = tc_K T"
  by (auto simp: prepareItems_def Let_def split: option.splits sum.splits prod.splits)

lemma loadTarget_cluster:
  assumes "pt_loadTarget R pp p s = (Inr T, s')" "cluster_law R" "tc_K T = Some k"
  shows "k_DryRun k = isDry R (ct_obj s)"
proof -
  obtain dir images where l: "fst (loadContext R (ct_obj s) (targetParams R (ct_obj s) images dir) p (reqlog (ct_cluster s))) = Inr T"
    using assms(1) by (auto simp: pt_loadTarget_def bindM_Inr_iff run_simps case_prod_beta)
  let ?params = "targetParams R (ct_obj s) images dir"
  let ?s = "\<lparr>reqlog = reqlog (ct_cluster s), vl_credentialsCache = [], ls_nextSourceId = r_nextSourceId R, ps_project = p\<rparr>"
  obtain T0 s1 where n: "NewTargetContext (targetEnv R (ct_obj s)) ?params ?s = (Inr T0, s1)"
    and i: "fst (prepareItems R (itemEnv (targetEnv R (ct_obj s)) (tc_Params T0) (lp_sealedSecretsDir p) (tc_Target T0) (tc_K T0)) T0 (reqlog s1)) = Inr T"
    using l by (auto simp: loadContext_def Let_def split: prod.splits sum.splits)
  have "tc_K T = tc_K T0" using i prepareItems_cluster by (metis fst_conv surj_pair)
  then show ?thesis using NewTargetContext_cluster [OF n assms(2)] assms(3) by (simp add: targetParams_def Let_def)
qed

text \<open>What a step before the decision keeps of the object.\<close>

definition basis :: "KluctlDeployment \<Rightarrow> KluctlDeploymentSpec \<times> int \<times> string option \<times> string \<times> (string, string) gomap" where
  "basis x = (kd_Spec x, kd_Generation x, kst_LastDeployResult (kd_Status x), kst_LastObjectsHash (kd_Status x), kd_Annotations x)"

lemma nextDeployTime_basis: "basis x = basis y \<Longrightarrow> nextDeployTime R x = nextDeployTime R y"
  by (cases "kst_LastDeployResult (kd_Status y)") (auto simp: basis_def nextDeployTime_def)

lemma same_setReadiness: "(\<And>x c. f (x\<lparr>kd_Status := (kd_Status x)\<lparr>kst_Conditions := c\<rparr>\<rparr>) = f x) \<Longrightarrow> always (same f) (setReadiness R st reason msg)"
  unfolding setReadiness_def by (rule same_steps) simp

lemma same_loadTarget: "always (same f) (pt_loadTarget R pp p)"
  unfolding pt_loadTarget_def by (intro same.always_intros) (simp add: always_def same_def split: prod.split)

lemma same_prepareAll: "always (same basis) (prepareAll R)"
  unfolding prepareAll_def Let_def by (intro same.always_intros same_steps same_loadTarget) (simp_all add: basis_def)

lemma same_handleCommandResult: "always (same f) (handleCommandResult R pp n out)"
  unfolding handleCommandResult_def Let_def by (intro same.always_intros same_steps)

abbreviation hashOf :: "KluctlDeployment \<Rightarrow> string" where
  "hashOf x \<equiv> kst_LastObjectsHash (kd_Status x)"

lemma hash_SetResult [simp]:
  "kst_LastObjectsHash (fst (SetLastDeployResult j r e st)) = kst_LastObjectsHash st"
  "kst_LastObjectsHash (fst (SetLastValidateResult j' r' e st)) = kst_LastObjectsHash st"
  by (auto simp: SetLastDeployResult_def SetLastValidateResult_def Let_def split: option.split sum.split)

lemma same_hash:
  "always (same hashOf) (runDeploy R pp T)" "always (same hashOf) (runValidate R T r)" "always (same hashOf) (finishReconcile R)"
proof -
  show "always (same hashOf) (runDeploy R pp T)"
    unfolding runDeploy_def kluctlDeploy_def kluctlPokeImages_def
    by (intro same.always_intros same_steps same_handleCommandResult) simp
  show "always (same hashOf) (runValidate R T r)"
    unfolding runValidate_def kluctlValidate_def by (intro same.always_intros same_steps) (simp split: sum.split)
  show "always (same hashOf) (finishReconcile R)"
    unfolding finishReconcile_def by (intro same.always_intros same_setReadiness) simp_all
qed

lemma clogs_runValidate: "always (clogs read_only) (runValidate R T r)"
  unfolding runValidate_def kluctlValidate_def by (intro clogs.always_intros clogs_intros clogs_runCommand logs_ValidateCommand)

text \<open>The deployment may send anything, but only simulations where the cluster is made for a dry run.\<close>

lemma clogs_runDeploy:
  assumes "schedule (ce_run (r_C R))" "\<And>l. set (ce_sched2 (r_C R) l) = set l" "\<And>k. tc_K T = Some k \<Longrightarrow> k_DryRun k = dry"
  shows "always (clogs (allowed dry)) (runDeploy R pp T)"
proof -
  have "always (logs (allowed dry)) (PokeImagesCommand_Run (r_C R) T)"
    using logs_PokeImagesCommand [OF assms(3)] by (rule always_mono) (auto elim!: logs_mono simp: allowed_requests)
  then show ?thesis
    unfolding runDeploy_def kluctlDeploy_def kluctlPokeImages_def
    by (intro clogs.always_intros clogs_intros clogs_runCommand logs_DeployCommand assms)
qed

text \<open>The run of the part that decides, with the state in which it starts.\<close>

lemma reconcileTarget_run:
  assumes "reconcileTarget R g o' c (pp, T, hash) s = (Inr out, s')"
  defines "d \<equiv> needDeploy R (ct_obj s) g o' c hash (r_now R AtDeployCheck (reqlog (ct_cluster s)))"
  shows "hashOf (ct_obj s') = hash" "\<not> d \<Longrightarrow> clogs read_only s s'"
    "schedule (ce_run (r_C R)) \<Longrightarrow> (\<And>l. set (ce_sched2 (r_C R) l) = set l) \<Longrightarrow> (\<And>k. tc_K T = Some k \<Longrightarrow> k_DryRun k = dry) \<Longrightarrow> clogs (allowed dry) s s'"
proof -
  define v where "v = needValidate R (ct_obj s) d (r_now R AtValidateCheck (reqlog (ct_cluster s)))"
  define s1 where "s1 = s\<lparr>ct_obj := (ct_obj s)\<lparr>kd_Status := (let st = (kd_Status (ct_obj s))\<lparr>kst_LastObjectsHash := hash\<rparr> in
      if ks_Validate (kd_Spec (ct_obj s)) then st else st\<lparr>kst_LastValidateResult := None, kst_LastValidateError := []\<rparr>)\<rparr>\<rparr>"
  let ?rest = "\<lambda>r. seqM (whenM v (runValidate R T r)) (finishReconcile R)"
  let ?all = "bindM (if d then runDeploy R pp T else ret None) ?rest"
  have run: "?all s1 = (Inr out, s')"
    using assms(1) by (simp add: reconcileTarget_def seqM_def bindM_def run_simps modObj_def d_def v_def s1_def)
  have "always (same hashOf) ?all" by (intro same.always_intros same_hash)
  then have "same hashOf s1 s'" using run by (rule always_run)
  then show "hashOf (ct_obj s') = hash" by (simp add: same_def s1_def Let_def)
  have 1: "clogs P s s1" for P by (rule clogs_same) (simp add: s1_def)
  have rest: "always (clogs read_only) (?rest r)" for r by (intro clogs.always_intros clogs_intros clogs_runValidate)
  show "clogs read_only s s'" if "\<not> d"
  proof -
    have "?rest None s1 = (Inr out, s')" using run that by simp
    from clogs.trans [OF 1 always_run [OF rest this]] show ?thesis .
  qed
  show "clogs (allowed dry) s s'" if "schedule (ce_run (r_C R))" "\<And>l. set (ce_sched2 (r_C R) l) = set l" "\<And>k. tc_K T = Some k \<Longrightarrow> k_DryRun k = dry"
  proof -
    have r: "always (clogs (allowed dry)) (?rest r)" for r using rest by (rule always_mono) (auto elim!: clogs_mono intro: allowed_requests)
    have "always (clogs (allowed dry)) ?all" by (intro clogs.always_bind clogs.always_if clogs.always_pure clogs_runDeploy that r)
    then have "clogs (allowed dry) s1 s'" using run by (rule always_run)
    with 1 show ?thesis by (rule clogs.trans)
  qed
qed

text \<open>The reasons to deploy, on the object a reconciliation starts with and with the hash of the objects rendered now.\<close>

definition requestedDeploy :: "KluctlDeployment \<Rightarrow> string" where
  "requestedDeploy x = (case map_of (kd_Annotations x) ''kluctl.io/request-deploy'' of None \<Rightarrow> [] | Some v \<Rightarrow> v)"

definition deployDue :: "KluctlDeploymentReconciler \<Rightarrow> KluctlDeployment \<Rightarrow> string \<Rightarrow> int \<Rightarrow> bool" where
  "deployDue R x hash now \<longleftrightarrow>
     kst_LastDeployResult (kd_Status x) = None \<or> hashOf x \<noteq> hash \<or>
     requestedDeploy x \<noteq> [] \<and> requestedDeploy x \<noteq> kst_LastHandledDeployAt (kd_Status x) \<or>
     kst_ObservedGeneration (kd_Status x) \<noteq> kd_Generation x \<or>
     (\<exists>t. nextDeployTime R x = Some t \<and> t < now)"

lemma needDeploy_due:
  assumes "basis x = basis y"
  shows "needDeploy R x (kst_ObservedGeneration (kd_Status y)) (kst_LastHandledDeployAt (kd_Status y)) (requestedDeploy y) hash now \<longleftrightarrow> deployDue R y hash now"
  using assms nextDeployTime_basis [OF assms, of R] by (auto simp: needDeploy_def deployDue_def basis_def split: option.splits)

lemma prepareAll_cluster:
  assumes "prepareAll R s = (Inr (pp, T, hash), s')" "cluster_law R" "tc_K T = Some k"
  shows "k_DryRun k = isDry R (ct_obj s)"
proof -
  obtain pp' lp s1 s2 where l: "pt_loadTarget R pp' lp s1 = (Inr T, s2)" "ct_obj s1 = (ct_obj s)\<lparr>kd_Status := (kd_Status (ct_obj s))\<lparr>kst_ObservedCommit := pp_CheckedOutCommit pp'\<rparr>\<rparr>"
    using assms(1) by (auto simp: prepareAll_def Let_def bindM_Inr_iff seqM_def run_simps modStatus_def modObj_def)
  then show ?thesis using loadTarget_cluster [OF l(1) assms(2,3)] by (simp add: isDry_def)
qed

lemma attemptM_Inr:
  assumes "attemptM m fail f s = (Inr y, s')"
  obtains e s1 where "m s = (Inl e, s1)" "\<not> is_panic e" "fail e s1 = (Inr y, s')" | x s1 where "m s = (Inr x, s1)" "f x s1 = (Inr y, s')"
  using assms by (auto simp: attemptM_def split: prod.splits sum.splits if_splits)

lemma reconcileActive_run:
  assumes "reconcileActive R s = (Inr out, s')"
  shows "clogs read_only s s' \<or> (\<exists>h. deployDue R (ct_obj s) (hashOf (ct_obj s')) (r_now R AtDeployCheck h))"
    "schedule (ce_run (r_C R)) \<Longrightarrow> (\<And>l. set (ce_sched2 (r_C R) l) = set l) \<Longrightarrow> cluster_law R \<Longrightarrow> clogs (allowed (isDry R (ct_obj s))) s s'"
proof -
  let ?x = "ct_obj s"
  let ?pre = "seqM (whenM (kst_ObservedGeneration (kd_Status ?x) = 0) (setReadiness R ConditionUnknown ''Progressing'' ''reconciliation in progress''))
     (modStatus (\<lambda>st. st\<lparr>kst_ObservedGeneration := kd_Generation ?x, kst_LastHandledDeployAt := requestedDeploy ?x\<rparr>))"
  let ?go = "attemptM (prepareAll R) (doFail R ''PrepareFailed'')
      (reconcileTarget R (kst_ObservedGeneration (kd_Status ?x)) (kst_LastHandledDeployAt (kd_Status ?x)) (requestedDeploy ?x))"
  have run: "seqM ?pre ?go s = (Inr out, s')"
    using assms by (simp add: reconcileActive_def Let_def requestedDeploy_def seqM_def bindM_assoc) (simp add: bindM_def run_simps)
  then obtain u s1 where pre: "?pre s = (Inr u, s1)" and go: "?go s1 = (Inr out, s')" by (auto simp: seqM_def bindM_Inr_iff)
  have c1: "clogs P s s1" for P
    using alwaysD [of "clogs P" ?pre s] pre by (simp add: clogs.always_seq clogs.always_when clogs_ops)
  have b1: "basis (ct_obj s1) = basis ?x"
  proof -
    have "always (same basis) ?pre" by (intro same.always_intros same_steps same_setReadiness) (simp_all add: basis_def)
    from always_run [OF this pre] show ?thesis by (simp add: same_def)
  qed
  consider e s2 where "prepareAll R s1 = (Inl e, s2)" "doFail R ''PrepareFailed'' e s2 = (Inr out, s')"
    | y s2 where "prepareAll R s1 = (Inr y, s2)"
      "reconcileTarget R (kst_ObservedGeneration (kd_Status ?x)) (kst_LastHandledDeployAt (kd_Status ?x)) (requestedDeploy ?x) y s2 = (Inr out, s')"
    using go by (rule attemptM_Inr) blast+
  then have "(clogs read_only s s' \<or> (\<exists>h. deployDue R ?x (hashOf (ct_obj s')) (r_now R AtDeployCheck h))) \<and>
    (schedule (ce_run (r_C R)) \<longrightarrow> (\<forall>l. set (ce_sched2 (r_C R) l) = set l) \<longrightarrow> cluster_law R \<longrightarrow> clogs (allowed (isDry R ?x)) s s')"
  proof cases
    case 1
    have "clogs read_only s1 s2" using always_run [OF clogs_prepareAll 1(1)] .
    moreover have "clogs P s2 s'" for P
      using 1(2) by (rule always_run [rotated]) (unfold doFail_def, intro clogs.always_intros clogs_intros)
    ultimately have "clogs read_only s s'" using c1 clogs.trans by blast
    then show ?thesis by (auto elim!: clogs_mono intro: allowed_requests)
  next
    case (2 y)
    obtain pp T hash where y: "y = (pp, T, hash)" by (cases y)
    note 2 = 2 [unfolded y]
    have c2: "clogs read_only s s2" using c1 always_run [OF clogs_prepareAll 2(1)] clogs.trans by blast
    have "basis (ct_obj s2) = basis ?x" using always_run [OF same_prepareAll 2(1)] b1 by (simp add: same_def)
    note due = needDeploy_due [OF this, of R hash]
    have "clogs read_only s s' \<or> (\<exists>h. deployDue R ?x (hashOf (ct_obj s')) (r_now R AtDeployCheck h))"
      using reconcileTarget_run(1,2) [OF 2(2)] due c2 clogs.trans by blast
    moreover have "clogs (allowed (isDry R ?x)) s s'" if "schedule (ce_run (r_C R))" "\<And>l. set (ce_sched2 (r_C R) l) = set l" "cluster_law R"
    proof -
      have "k_DryRun k = isDry R ?x" if "tc_K T = Some k" for k
        using prepareAll_cluster [OF 2(1) \<open>cluster_law R\<close> that] b1 by (simp add: isDry_def basis_def)
      with that have "clogs (allowed (isDry R ?x)) s2 s'" by (intro reconcileTarget_run(3) [OF 2(2)])
      moreover have "clogs (allowed (isDry R ?x)) s s2" using c2 by (rule clogs_mono) (rule allowed_requests)
      ultimately show ?thesis using clogs.trans by blast
    qed
    ultimately show ?thesis by blast
  qed
  then show "clogs read_only s s' \<or> (\<exists>h. deployDue R ?x (hashOf (ct_obj s')) (r_now R AtDeployCheck h))"
    "schedule (ce_run (r_C R)) \<Longrightarrow> (\<And>l. set (ce_sched2 (r_C R) l) = set l) \<Longrightarrow> cluster_law R \<Longrightarrow> clogs (allowed (isDry R ?x)) s s'"
    by blast+
qed

lemma doReconcile_cases:
  assumes "doReconcile R s = (Inr out, s')"
  defines "s1 \<equiv> s\<lparr>ct_obj := recordRequest (ct_obj s)\<rparr>"
  obtains "reconcileActive R s1 = (Inr out, s')" | "\<And>P. clogs P s s'"
proof -
  have 1: "clogs P s s1" for P by (rule clogs_same) (simp add: s1_def)
  have "attemptM (lift (checkLegacyKluctlDeployment R (ct_obj s1))) (\<lambda>e. ret (None, Some e))
      (unlessLegacy R (readyReason R (ct_obj s1) = Some ''WaitingForLegacyMigration'')) s1 = (Inr out, s')"
    using assms(1) by (simp add: doReconcile_def seqM_def bindM_def modObj_def run_simps s1_def)
  then show ?thesis
  proof (rule attemptM_Inr)
    fix e s2 assume "lift (checkLegacyKluctlDeployment R (ct_obj s1)) s1 = (Inl e, s2)" "ret (None, Some e) s2 = (Inr out, s')"
    then show ?thesis using that(2) 1 by (simp add: run_simps)
  next
    fix l s2
    let ?w = "readyReason R (ct_obj s1) = Some ''WaitingForLegacyMigration''"
    assume "lift (checkLegacyKluctlDeployment R (ct_obj s1)) s1 = (Inr l, s2)" and u: "unlessLegacy R ?w l s2 = (Inr out, s')"
    then have s2: "s2 = s1" by (simp add: run_simps)
    show ?thesis
    proof (cases "l \<or> ?w")
      case True
      have a: "always (clogs P) (unlessLegacy R ?w l)" for P
        using True unfolding unlessLegacy_def by (auto intro!: clogs.always_intros clogs_intros)
      have "clogs P s s'" for P using clogs.trans [OF 1 always_run [OF a u [unfolded s2]]] .
      then show ?thesis by (rule that(2))
    qed (use that(1) u s2 in \<open>simp add: unlessLegacy_def\<close>)
  qed
qed

lemma doReconcile_run:
  assumes "doReconcile R s = (Inr out, s')"
  shows "clogs read_only s s' \<or> (\<exists>h. deployDue R (ct_obj s) (hashOf (ct_obj s')) (r_now R AtDeployCheck h))"
    "schedule (ce_run (r_C R)) \<Longrightarrow> (\<And>l. set (ce_sched2 (r_C R) l) = set l) \<Longrightarrow> cluster_law R \<Longrightarrow> clogs (allowed (isDry R (ct_obj s))) s s'"
proof -
  let ?s = "s\<lparr>ct_obj := recordRequest (ct_obj s)\<rparr>"
  have due: "deployDue R (ct_obj ?s) h t = deployDue R (ct_obj s) h t" and dry: "isDry R (ct_obj ?s) = isDry R (ct_obj s)" for h t
    by (auto simp: recordRequest_def deployDue_def requestedDeploy_def nextDeployTime_def isDry_def split: option.split)
  have 1: "clogs P s ?s" for P by (rule clogs_same) simp
  show "clogs read_only s s' \<or> (\<exists>h. deployDue R (ct_obj s) (hashOf (ct_obj s')) (r_now R AtDeployCheck h))"
    using assms by (rule doReconcile_cases) (use reconcileActive_run(1) [of R ?s out s'] 1 clogs.trans due in blast)+
  show "clogs (allowed (isDry R (ct_obj s))) s s'" if "schedule (ce_run (r_C R))" "\<And>l. set (ce_sched2 (r_C R) l) = set l" "cluster_law R"
    using assms
  proof (rule doReconcile_cases)
    assume "reconcileActive R ?s = (Inr out, s')"
    from reconcileActive_run(2) [OF this that] show ?thesis unfolding dry using 1 clogs.trans by blast
  qed
qed

section \<open>Deleting a deployment\<close>

text \<open>What a deletion on behalf of an object may do to its cluster.\<close>

definition deletesTarget :: "KluctlDeploymentReconciler \<Rightarrow> KluctlDeployment \<Rightarrow> string \<Rightarrow> rstate \<Rightarrow> rstate \<Rightarrow> bool" where
  "deletesTarget R x discriminator c c' \<longleftrightarrow>
     reqlog c' = reqlog c \<or>
     discriminator \<noteq> [] \<and>
     (\<exists>rc k. buildRestConfig R x = Inr rc \<and> r_NewCluster R rc (isDry R x) = Inr k \<and>
        deletesOnly (r_C R) (Some k) discriminator (Some (buildInclusion (kd_Spec x))) (\<lambda>_. Inr []) (Some (\<lambda>_. None))
          (c\<lparr>rs_dew := dew_Init, rs_ru := \<lparr>ru_remoteObjects = [], ru_remoteNamespaces = []\<rparr>\<rparr>) c')"

lemma kluctlDelete_run:
  assumes "kluctlDelete R pp d s = (Inr out, s')" and "\<And>l. set (ce_sched2 (r_C R) l) = set l"
  shows "deletesTarget R (ct_obj s) d (ct_cluster s) (ct_cluster s')"
proof (cases "ks_Delete (kd_Spec (ct_obj s))")
  case True
  let ?x = "ct_obj s" and ?cmd = "deleteCommandFor (kd_Spec (ct_obj s)) d"
  let ?c = "(ct_cluster s)\<lparr>rs_dew := dew_Init, rs_ru := \<lparr>ru_remoteObjects = [], ru_remoteNamespaces = []\<rparr>\<rparr>"
  let ?run = "\<lambda>k. bindM (ask (\<lambda>s. ce_now (r_C R) (reqlog (ct_cluster s)))) (\<lambda>start.
     bindM (runCommand (DeleteCommand_Run (r_C R) (Some k) ?cmd (Some (\<lambda>_. None)) start)) (finishDelete R pp (kd_Spec ?x) d))"
  have "attemptM (lift (deletionCluster R ?x)) (\<lambda>e. ret (None, Some e)) ?run s = (Inr out, s')"
    using assms(1) True by (simp add: kluctlDelete_def bindM_def [of "ask ct_obj"] run_simps)
  then show ?thesis
  proof (rule attemptM_Inr)
    fix k s2
    assume l: "lift (deletionCluster R ?x) s = (Inr k, s2)" and r: "?run k s2 = (Inr out, s')"
    have s2: "s2 = s" and k: "deletionCluster R ?x = Inr k" using l by (auto simp: run_simps)
    obtain rc where rc: "buildRestConfig R ?x = Inr rc" "r_NewCluster R rc (isDry R ?x) = Inr k" using k by (auto simp: deletionCluster_def split: sum.splits)
    obtain o2 s3 start where del: "runCommand (DeleteCommand_Run (r_C R) (Some k) ?cmd (Some (\<lambda>_. None)) start) s = (Inr o2, s3)"
      and rest: "finishDelete R pp (kd_Spec ?x) d o2 s3 = (Inr out, s')" using r unfolding s2 by (auto simp: bindM_Inr_iff run_simps)
    obtain c where c: "DeleteCommand_Run (r_C R) (Some k) ?cmd (Some (\<lambda>_. None)) start ?c = (Inr o2, c)" "ct_cluster s3 = c"
      using del by (auto simp: runCommand_def split: prod.splits)
    have e: "ct_cluster s' = ct_cluster s3"
      using rest by (auto simp: finishDelete_def handleCommandResult_def Let_def seqM_def bindM_def event_def run_simps split: option.splits prod.splits)
    have sel: "deleteDiscriminator ?cmd = d" "deleteInclusion ?cmd = Some (buildInclusion (kd_Spec ?x))"
      by (simp_all add: deleteDiscriminator_def deleteInclusion_def deleteCommandFor_def)
    show ?thesis
      using DeleteCommand_safe [OF c(1) assms(2)] rc unfolding sel deletesTarget_def e c(2) by (cases "d = []") auto
  qed (simp add: run_simps deletesTarget_def)
qed (use assms(1) in \<open>auto simp: kluctlDelete_def bindM_def run_simps deletesTarget_def\<close>)

lemma deletesOnly_logs:
  assumes "deletesOnly C (Some k) d inc ex cb s s'"
  shows "logs (\<lambda>q. read_only q \<or> (\<exists>ref. q = ReqDelete ref (k_DryRun k))) s s'"
  using assms unfolding deletesOnly_def
proof (elim disjE exE conjE)
  fix k' s1 l refs new
  assume a: "Some k = Some k'" "UpdateRemoteObjects (ce_sched1 C) (ce_sched2 C) (Some k) (Some d) [] False s = (Inr None, s1)"
    "reqlog s' = reqlog s1 @ new" "\<forall>q \<in> set new. read_only q \<or> (\<exists>ref \<in> set refs. q = ReqDelete ref (k_DryRun k'))"
  have "logs read_only s s1" using always_run [OF logs_UpdateRemoteObjects a(2)] by blast
  then show ?thesis using a(1,3,4) unfolding logs_def list_all_iff by fastforce
qed (auto simp: logs_def list_all_iff)

lemma deletesTarget_logs:
  assumes "deletesTarget R x d c c'" "cluster_law R"
  shows "\<exists>new. reqlog c' = reqlog c @ new \<and> (isDry R x \<longrightarrow> list_all harmless new)"
  using assms(1) unfolding deletesTarget_def
proof (elim disjE exE conjE)
  fix rc k
  let ?c = "c\<lparr>rs_dew := dew_Init, rs_ru := \<lparr>ru_remoteObjects = [], ru_remoteNamespaces = []\<rparr>\<rparr>"
  assume k: "r_NewCluster R rc (isDry R x) = Inr k"
    and d: "deletesOnly (r_C R) (Some k) d (Some (buildInclusion (kd_Spec x))) (\<lambda>_. Inr []) (Some (\<lambda>_. None)) ?c c'"
  obtain new where "reqlog c' = reqlog ?c @ new" "list_all (\<lambda>q. read_only q \<or> (\<exists>ref. q = ReqDelete ref (isDry R x))) new"
    using deletesOnly_logs [OF d] k assms(2) by (auto simp: logs_def cluster_law_def)
  then show ?thesis using read_only_harmless by (auto simp: list_all_iff)
qed simp

lemma doFinalize_run:
  assumes "doFinalize R s = (Inr u, s')" and "\<And>l. set (ce_sched2 (r_C R) l) = set l"
  shows "s' = s \<or> ks_Delete (kd_Spec (ct_obj s)) \<and> \<not> ks_Suspend (kd_Spec (ct_obj s)) \<and> kst_ProjectKey (kd_Status (ct_obj s)) \<noteq> None \<and>
    (\<exists>tk. kst_TargetKey (kd_Status (ct_obj s)) = Some tk \<and> deletesTarget R (ct_obj s) (tk_Discriminator tk) (ct_cluster s) (ct_cluster s'))"
proof -
  let ?x = "ct_obj s"
  show ?thesis
  proof (cases "ks_Delete (kd_Spec ?x) \<and> \<not> ks_Suspend (kd_Spec ?x) \<and> kst_ProjectKey (kd_Status ?x) \<noteq> None \<and> kst_TargetKey (kd_Status ?x) \<noteq> None")
    case True
    then obtain tk where tk: "kst_TargetKey (kd_Status ?x) = Some tk" by blast
    have "attemptM (lift (prepareProject R ?x False)) (\<lambda>_. ret ()) (\<lambda>pp. bindM (kluctlDelete R pp (tk_Discriminator tk)) (\<lambda>_. ret ())) s = (Inr u, s')"
      using assms(1) True tk by (auto simp: doFinalize_def bindM_def [of "ask ct_obj"] run_simps)
    then show ?thesis
    proof (rule attemptM_Inr)
      fix pp s1
      assume "lift (prepareProject R ?x False) s = (Inr pp, s1)" "bindM (kluctlDelete R pp (tk_Discriminator tk)) (\<lambda>_. ret ()) s1 = (Inr u, s')"
      then obtain out where "kluctlDelete R pp (tk_Discriminator tk) s = (Inr out, s')" by (auto simp: bindM_Inr_iff run_simps)
      from kluctlDelete_run [OF this assms(2)] show ?thesis using True tk by auto
    qed (simp add: run_simps)
  qed (use assms(1) in \<open>auto simp: doFinalize_def bindM_def run_simps split: option.splits if_splits\<close>)
qed

section \<open>The properties\<close>

lemma addFinalizer_run:
  assumes "addFinalizer R s = (Inr err, s')"
  shows "ct_cluster s' = ct_cluster s" "\<exists>f. ct_obj s' = (ct_obj s)\<lparr>kd_Finalizers := f\<rparr>"
proof -
  have "ct_cluster s' = ct_cluster s \<and> (\<exists>f. ct_obj s' = (ct_obj s)\<lparr>kd_Finalizers := f\<rparr>)"
  proof (cases "finalizerName \<in> set (kd_Finalizers (ct_obj s))")
    case True
    then have "s' = s" using assms by (auto simp: addFinalizer_def bindM_def run_simps)
    moreover have "ct_obj s = (ct_obj s)\<lparr>kd_Finalizers := kd_Finalizers (ct_obj s)\<rparr>" by simp
    ultimately show ?thesis by blast
  next
    case False
    then show ?thesis
      using assms by (auto simp: addFinalizer_def seqM_def bindM_def run_simps modObj_def patchObject_def split: option.splits)
  qed
  then show "ct_cluster s' = ct_cluster s" "\<exists>f. ct_obj s' = (ct_obj s)\<lparr>kd_Finalizers := f\<rparr>" by auto
qed

lemma deployDue_finalizers [simp]: "deployDue R (x\<lparr>kd_Finalizers := f\<rparr>) h t = deployDue R x h t" "isDry R (x\<lparr>kd_Finalizers := f\<rparr>) = isDry R x"
  using nextDeployTime_basis [of "x\<lparr>kd_Finalizers := f\<rparr>" x R] by (simp_all add: deployDue_def requestedDeploy_def isDry_def basis_def)

lemma finalize_run:
  assumes "finalize R s = (Inr out, s')"
  obtains u s1 where "doFinalize R s = (Inr u, s1)" "ct_cluster s' = ct_cluster s1"
    "snd out = None \<longrightarrow> finalizerName \<notin> set (kd_Finalizers (ct_stored s'))"
  using assms
  by (auto simp: finalize_def seqM_def bindM_Inr_iff run_simps modObj_def patchObject_def split: option.splits)

text \<open>The three ways in which a reconciliation goes on once the finalizer is in place.\<close>

lemma Reconcile_cases:
  assumes "Reconcile R s = (Inr out, s')"
  obtains "ct_cluster s' = ct_cluster s"
  | s1 f where "ct_cluster s1 = ct_cluster s" "ct_obj s1 = (ct_stored s)\<lparr>kd_Finalizers := f\<rparr>" "kd_Deleted (ct_stored s)" "finalize R s1 = (Inr out, s')"
  | s1 f o2 s2 where "ct_cluster s1 = ct_cluster s" "ct_obj s1 = (ct_stored s)\<lparr>kd_Finalizers := f\<rparr>" "\<not> kd_Deleted (ct_stored s)"
      "\<not> ks_Suspend (kd_Spec (ct_stored s))" "doReconcile R s1 = (Inr o2, s2)" "ct_cluster s' = ct_cluster s2" "ct_obj s' = ct_obj s2"
proof -
  let ?s = "s\<lparr>ct_obj := ct_stored s\<rparr>"
  obtain err s1 where a: "addFinalizer R ?s = (Inr err, s1)"
    and r: "(if err \<noteq> None then ret (\<lparr>cres_Requeue = False, cres_RequeueAfter = 0\<rparr>, err)
       else bindM (ask ct_obj) (\<lambda>x. if kd_Deleted x then finalize R
         else if ks_Suspend (kd_Spec x) then ret (\<lparr>cres_Requeue = False, cres_RequeueAfter = 0\<rparr>, None)
         else bindM (doReconcile R) (\<lambda>out. bindM (patchObject (r_StatusPatch R)) (\<lambda>err.
           if err \<noteq> None then ret (\<lparr>cres_Requeue = True, cres_RequeueAfter = 0\<rparr>, err) else announce R (kd_Spec x) out)))) s1 = (Inr out, s')"
    using assms unfolding Reconcile_def Let_def seqM_def by (auto simp: bindM_Inr_iff run_simps)
  obtain f where f: "ct_cluster s1 = ct_cluster s" "ct_obj s1 = (ct_stored s)\<lparr>kd_Finalizers := f\<rparr>" using addFinalizer_run [OF a] by auto
  show ?thesis
  proof (cases "err \<noteq> None \<or> \<not> kd_Deleted (ct_stored s) \<and> ks_Suspend (kd_Spec (ct_stored s))")
    case True
    then show ?thesis using that(1) r f by (auto simp: bindM_def run_simps split: if_splits)
  next
    case False
    note e = False
    show ?thesis
    proof (cases "kd_Deleted (ct_stored s)")
      case True
      then show ?thesis using that(2) [OF f] r f e by (simp add: bindM_def [of "ask ct_obj"] run_simps)
    next
      case False
      then obtain o2 s2 spec where d: "doReconcile R s1 = (Inr o2, s2)"
        and p: "bindM (patchObject (r_StatusPatch R)) (\<lambda>err. if err \<noteq> None then ret (\<lparr>cres_Requeue = True, cres_RequeueAfter = 0\<rparr>, err)
          else announce R spec o2) s2 = (Inr out, s')"
        using r f e by (simp add: bindM_def [of "ask ct_obj"] run_simps) (auto simp: bindM_Inr_iff [of "doReconcile R"])
      have "ct_cluster s' = ct_cluster s2 \<and> ct_obj s' = ct_obj s2"
        using p by (auto simp: bindM_Inr_iff run_simps patchObject_def announce_def Let_def event_def seqM_def split: option.splits prod.splits if_splits)
      then show ?thesis using that(3) [OF f False _ d] e False by blast
    qed
  qed
qed

text \<open>
  C4: The controller acts when there is a reason to, and only then. A reconciliation sends more than read requests only for an
  object that is not suspended, and only if the object is deleted, its deletion is enabled and the target was reached before, or if there was no deployment
  yet, the rendered objects have changed, a new deployment was requested, the specification has changed or the interval for deployments has passed.
  In a dry run everything it sends is harmless.
\<close>

theorem Reconcile_writes:
  assumes "Reconcile R s = (Inr out, s')"
    and "schedule (ce_run (r_C R))" and "\<And>l. set (ce_sched2 (r_C R) l) = set l" and "cluster_law R"
  defines "x \<equiv> ct_stored s"
  shows "\<exists>new. reqlog (ct_cluster s') = reqlog (ct_cluster s) @ new \<and>
    (list_all read_only new \<or>
     \<not> ks_Suspend (kd_Spec x) \<and>
     (if kd_Deleted x then ks_Delete (kd_Spec x) \<and> kst_ProjectKey (kd_Status x) \<noteq> None \<and> kst_TargetKey (kd_Status x) \<noteq> None
      else kst_LastDeployResult (kd_Status x) = None \<or> hashOf x \<noteq> hashOf (ct_obj s') \<or>
        requestedDeploy x \<noteq> [] \<and> requestedDeploy x \<noteq> kst_LastHandledDeployAt (kd_Status x) \<or>
        kst_ObservedGeneration (kd_Status x) \<noteq> kd_Generation x \<or>
        (\<exists>h t. nextDeployTime R x = Some t \<and> t < r_now R AtDeployCheck h))) \<and>
    (isDry R x \<longrightarrow> list_all harmless new)"
  using assms(1)
proof (rule Reconcile_cases)
  fix s1 f
  assume f: "ct_cluster s1 = ct_cluster s" "ct_obj s1 = (ct_stored s)\<lparr>kd_Finalizers := f\<rparr>" "kd_Deleted (ct_stored s)" "finalize R s1 = (Inr out, s')"
  obtain u s2 where d: "doFinalize R s1 = (Inr u, s2)" "ct_cluster s' = ct_cluster s2" using finalize_run [OF f(4)] by metis
  from doFinalize_run [OF d(1) assms(3)] show ?thesis
  proof (elim disjE)
    assume "s2 = s1" then show ?thesis using f d by simp
  next
    assume a: "ks_Delete (kd_Spec (ct_obj s1)) \<and> \<not> ks_Suspend (kd_Spec (ct_obj s1)) \<and> kst_ProjectKey (kd_Status (ct_obj s1)) \<noteq> None \<and>
      (\<exists>tk. kst_TargetKey (kd_Status (ct_obj s1)) = Some tk \<and> deletesTarget R (ct_obj s1) (tk_Discriminator tk) (ct_cluster s1) (ct_cluster s2))"
    then obtain tk :: TargetKey where "deletesTarget R (ct_obj s1) (tk_Discriminator tk) (ct_cluster s1) (ct_cluster s2)" by blast
    then obtain new where "reqlog (ct_cluster s2) = reqlog (ct_cluster s1) @ new" "isDry R (ct_obj s1) \<longrightarrow> list_all harmless new"
      using deletesTarget_logs [OF _ assms(4)] by blast
    then show ?thesis using a f d by (intro exI [of _ new]) (auto simp: x_def)
  qed
next
  fix s1 f o2 s2
  assume f: "ct_cluster s1 = ct_cluster s" "ct_obj s1 = (ct_stored s)\<lparr>kd_Finalizers := f\<rparr>" "\<not> kd_Deleted (ct_stored s)" "\<not> ks_Suspend (kd_Spec (ct_stored s))"
    and d: "doReconcile R s1 = (Inr o2, s2)" and e: "ct_cluster s' = ct_cluster s2" "ct_obj s' = ct_obj s2"
  obtain new where new: "reqlog (ct_cluster s2) = reqlog (ct_cluster s1) @ new" and a: "list_all (allowed (isDry R x)) new"
    using doReconcile_run(2) [OF d assms(2,3,4)] f(2) by (auto simp: clogs_def x_def)
  have r: "list_all read_only new \<or> (\<exists>h. deployDue R x (hashOf (ct_obj s2)) (r_now R AtDeployCheck h))"
    using doReconcile_run(1) [OF d] new f(2) by (auto simp: clogs_def x_def)
  have h: "isDry R x \<longrightarrow> list_all harmless new" using a by (simp add: list_all_iff allowed_def)
  show ?thesis using new r h f e by (intro exI [of _ new]) (auto simp: x_def deployDue_def)
qed simp


text \<open>
  Nobody acts as someone else. When a service account is configured, for the object or as the default, every client that is made for the object acts as
  the service account of that name in the namespace of the object and as nobody else, whatever the kubeconfig of the secret says; and the kubeconfig that is made for
  the commands has exactly one user, who acts as that account.
\<close>

theorem client_impersonates:
  assumes "buildRestConfig R x = Inr rc" and "serviceAccountFor R x \<noteq> []"
  shows "rc_Impersonate rc = (''system:serviceaccount:'' @ kd_Namespace x @ '':'' @ serviceAccountFor R x, [], [], []) \<and>
    (\<exists>u. buildKubeconfig R x = Inr (restConfigToKubeconfig rc) \<and> cfg_AuthInfos (restConfigToKubeconfig rc) = [(''default'', u)] \<and>
       ai_Impersonate u = rc_Impersonate rc)"
  using assms by (auto simp: buildRestConfig_def setImpersonationConfig_def buildKubeconfig_def restConfigToKubeconfig_def Let_def split: sum.splits)

section \<open>The status\<close>

text \<open>The condition that is set is found again; its time of transition is the library's.\<close>

definition condition_law :: "KluctlDeploymentReconciler \<Rightarrow> bool" where
  "condition_law R \<longleftrightarrow>
     (\<forall>c cs. \<exists>t. r_FindStatusCondition R (r_SetStatusCondition R c cs) (cn_Type c) = Some (c\<lparr>cn_LastTransitionTime := t\<rparr>))"

lemma buildFinalStatus_ok:
  "snd (buildFinalStatus R x) = ''ReconciliationSucceeded'' \<longleftrightarrow>
     kst_LastDeployError (kd_Status x) = [] \<and> kst_LastValidateError (kd_Status x) = [] \<and> deployOk R (kd_Status x) \<and>
     (ks_Validate (kd_Spec x) \<longrightarrow> validateOk R (kd_Status x))"
  by (auto simp: buildFinalStatus_def Let_def)

lemma results_ok:
  "deployOk R st \<longleftrightarrow> (\<exists>raw su. kst_LastDeployResult st = Some raw \<and> r_SummaryFromYaml R raw = Inr su \<and> su_Errors su = [])"
  "validateOk R st \<longleftrightarrow> (\<exists>raw v. kst_LastValidateResult st = Some raw \<and> r_ValidateFromYaml R raw = Inr v \<and> vr_Errors v = [] \<and> vr_Ready v)"
  by (auto simp: deployOk_def validateOk_def split: option.splits sum.splits)

lemma buildFinalStatus_conditions [simp]: "buildFinalStatus R (x\<lparr>kd_Status := (kd_Status x)\<lparr>kst_Conditions := c\<rparr>\<rparr>) = buildFinalStatus R x"
  by (simp add: buildFinalStatus_def Let_def deployOk_def validateOk_def)

lemma finishReconcile_run:
  assumes "finishReconcile R s = (Inr out, s')" and "condition_law R"
  shows "\<exists>c. r_FindStatusCondition R (kst_Conditions (kd_Status (ct_obj s'))) ReadyCondition = Some c \<and>
    cn_Status c = (if snd out = None then ConditionTrue else ConditionFalse) \<and> cn_ObservedGeneration c = kd_Generation (ct_obj s') \<and>
    cn_Reason c = snd (buildFinalStatus R (ct_obj s')) \<and>
    (snd out = None \<longleftrightarrow> snd (buildFinalStatus R (ct_obj s')) = ''ReconciliationSucceeded'')"
proof -
  obtain st reason where fs: "buildFinalStatus R (ct_obj s) = (st, reason)" by fastforce
  let ?ok = "reason = ''ReconciliationSucceeded''"
  let ?c = "\<lparr>cn_Type = ReadyCondition, cn_Status = (if ?ok then ConditionTrue else ConditionFalse), cn_ObservedGeneration = kd_Generation (ct_obj s),
     cn_LastTransitionTime = 0, cn_Reason = reason, cn_Message = trimString st 20000\<rparr>"
  have s': "ct_obj s' = (ct_obj s)\<lparr>kd_Status := (kd_Status (ct_obj s))\<lparr>kst_Conditions := r_SetStatusCondition R ?c (kst_Conditions (kd_Status (ct_obj s)))\<rparr>\<rparr>"
    and o': "snd out = None \<longleftrightarrow> ?ok"
    using assms(1) fs by (auto simp: finishReconcile_def bindM_def seqM_def run_simps setReadiness_def modObj_def split: if_splits)
  have law: "\<exists>t. r_FindStatusCondition R (r_SetStatusCondition R c cs) (cn_Type c) = Some (c\<lparr>cn_LastTransitionTime := t\<rparr>)" for c cs
    using assms(2) by (simp add: condition_law_def)
  obtain t where "r_FindStatusCondition R (r_SetStatusCondition R ?c (kst_Conditions (kd_Status (ct_obj s)))) ReadyCondition = Some (?c\<lparr>cn_LastTransitionTime := t\<rparr>)"
    using law [of ?c "kst_Conditions (kd_Status (ct_obj s))"] by auto
  then show ?thesis using fs o' unfolding s' by simp
qed

lemma reconcileTarget_finish:
  "reconcileTarget R g o' c prepared s = (Inr out, s') \<Longrightarrow> \<exists>s1. finishReconcile R s1 = (Inr out, s')"
  by (auto simp: reconcileTarget_def seqM_def bindM_Inr_iff run_simps split: prod.splits)


section \<open>Times\<close>


section \<open>Repeated reconciliations\<close>

text \<open>What was handled: the generation and the request, next to those the object has.\<close>

definition handled :: "KluctlDeployment \<Rightarrow> int \<times> string \<times> int \<times> (string, string) gomap" where
  "handled x = (kst_ObservedGeneration (kd_Status x), kst_LastHandledDeployAt (kd_Status x), kd_Generation x, kd_Annotations x)"

lemma handled_SetResult [simp]:
  "handled (x\<lparr>kd_Status := fst (SetLastDeployResult j r e (kd_Status x))\<rparr>) = handled x"
  "handled (x\<lparr>kd_Status := fst (SetLastValidateResult j' r' e (kd_Status x))\<rparr>) = handled x"
  by (auto simp: handled_def SetLastDeployResult_def SetLastValidateResult_def Let_def split: option.split sum.split)

lemma same_handled_reconcileTarget: "always (same handled) (reconcileTarget R g o' c prepared)"
proof -
  have d: "always (same handled) (runDeploy R pp T)" for pp T
    unfolding runDeploy_def kluctlDeploy_def kluctlPokeImages_def
    by (intro same.always_intros same_steps same_handleCommandResult) simp
  have v: "always (same handled) (runValidate R T r)" for T r
    unfolding runValidate_def kluctlValidate_def by (intro same.always_intros same_steps) (simp split: sum.split)
  have f: "always (same handled) (finishReconcile R)"
    unfolding finishReconcile_def by (intro same.always_intros same_setReadiness) (simp_all add: handled_def)
  show ?thesis
    unfolding reconcileTarget_def by (intro same.always_intros same_steps d v f) (simp add: handled_def Let_def)
qed

lemma same_handled_attempt: "always (same handled) (attemptM (prepareAll R) (doFail R reason) (reconcileTarget R g o' c))"
proof -
  have p: "always (same handled) (prepareAll R)"
    unfolding prepareAll_def Let_def by (intro same.always_intros same_steps same_loadTarget) (simp_all add: handled_def)
  have e: "always (same handled) (doFail R reason e)" for e
    unfolding doFail_def by (intro same.always_intros same_setReadiness) (simp add: handled_def)
  show ?thesis
  proof (rule alwaysI)
    fix s :: ctl
    obtain r s1 where m: "prepareAll R s = (r, s1)" by fastforce
    have 1: "same handled s s1" using always_run [OF p m] .
    show "same handled s (snd (attemptM (prepareAll R) (doFail R reason) (reconcileTarget R g o' c) s))"
      using 1 m same.trans [OF 1 alwaysD [OF e]] same.trans [OF 1 alwaysD [OF same_handled_reconcileTarget]]
      by (cases r) (simp_all add: attemptM_def)
  qed
qed


section \<open>A concrete controller\<close>

text \<open>
  A controller for one repository without any configuration: its only item is built into one object. The server is the one of the commands; no secret exists but
  one with a kubeconfig. Results are stored as their number of errors.
\<close>

definition flat_env :: item_env where
  "flat_env = single_env\<lparr>ie_P := (ie_P single_env)\<lparr>pe_V := sample_vars_env\<rparr>\<rparr>"

definition flat_files :: item_files where
  "flat_files = \<lparr>if_fs = pe_fs (ie_P single_env), if_ReadDir = (\<lambda>_. Inr []), if_ReadObject = (\<lambda>_. Inr []),
     if_NewRelease = (\<lambda>_ _ _ _. Inl (Error ''unused'')), if_Render = (\<lambda>_. Inr ()), if_Build = (\<lambda>_ _. Inr [local_object])\<rparr>"

definition some_rest :: RestConfig where
  "some_rest = \<lparr>rc_Host = ''h'', rc_CAFile = [], rc_CAData = [], rc_Insecure = False, rc_KeyFile = [], rc_KeyData = [], rc_CertFile = [], rc_CertData = [],
     rc_BearerTokenFile = [], rc_BearerToken = ''t'', rc_Impersonate = (''admin'', [], [], [''system:masters'']), rc_Username = [], rc_Password = [],
     rc_AuthProvider = None, rc_ExecProvider = None\<rparr>"

definition some_summary :: "nat \<Rightarrow> CommandResultSummary" where
  "some_summary n = (the (BuildSummary (Some Commands.noResult)))\<lparr>su_Errors := replicate n \<lparr>de_Ref = noRef, de_Message = ''e''\<rparr>\<rparr>"

definition some_validation :: FullValidateResult where
  "some_validation = ValidateResult.extend allGood \<lparr>fvr_Id = [], fvr_StartTime = 0, fvr_EndTime = 0, fvr_Drift = []\<rparr>"

definition setCondition :: "Condition \<Rightarrow> Condition list \<Rightarrow> Condition list" where
  "setCondition c cs = c # filter (\<lambda>d. cn_Type d \<noteq> cn_Type c) cs"

definition sample_ctl :: KluctlDeploymentReconciler where
  "sample_ctl = \<lparr>r_C = sample_cmd_env, r_T = plain_target_env\<lparr>te_I := flat_env\<rparr>, r_DryRun = False, r_DefaultServiceAccount = ''default'', r_RestConfig = some_rest,
     r_ResultStore = None, r_now = (\<lambda>_ _. 100), r_GetSecret = (\<lambda>_ n. if n = ''kubeconfig'' then Inr [(''value'', ''k'')] else Inl (True, Error ''not found'')),
     r_GetServiceAccount = (\<lambda>_ _. Inr ()), r_GetLegacy = (\<lambda>_ _. Inl (True, Error ''no match'')), r_NestedReadyForMigration = (\<lambda>_. Inr True),
     r_Patch = (\<lambda>_. None), r_StatusPatch = (\<lambda>_. None), r_FindStatusCondition = (\<lambda>cs t. find (\<lambda>c. cn_Type c = t) cs), r_SetStatusCondition = setCondition,
     r_SummaryToJson = (\<lambda>su. Inr (show_nat (length (su_Errors su)))), r_SummaryFromYaml = (\<lambda>s. Inr (some_summary (digits_val s))),
     r_ValidateToJson = (\<lambda>_. Inr ''v''), r_ValidateFromYaml = (\<lambda>_. Inr some_validation), r_MkdirTemp = (\<lambda>_ p. Inr (''/tmp/'' @ p)), r_MkdirAll = (\<lambda>_. None),
     r_CreateTemp = (\<lambda>d n _. (d @ ''/'' @ n, None)), r_TempDir = ''/tmp'', r_sha256 = (\<lambda>s. take 2 s), r_EncodeSecret = (\<lambda>_. Inr ''s''),
     r_ObjToJson = (\<lambda>_. Inr ''ob''), r_GetEntry = (\<lambda>_ _. Inr ()), r_GetClonedDir = (\<lambda>_ _ _. Inr (''/p'', noGitRef, ''c1'')), r_SecureJoin = (\<lambda>d _. Inr d),
     r_Stat = (\<lambda>_. None), r_NewKluctlJinja2 = None, r_FromString = (\<lambda>_. Inr []), r_KeyServerFromSecret = (\<lambda>_ _. Inr None),
     r_KeyServerFromServiceAccount = (\<lambda>_. Inr None), r_RESTConfigFromKubeConfig = (\<lambda>_. Inr some_rest), r_ClientConfig = (\<lambda>_ _. Inr some_rest),
     r_NewCluster = (\<lambda>_ dry. Inr (serving_cluster dry)),
     r_P = \<lparr>pl_walk = (\<lambda>_. Dirtree [] []), pl_renderDir = (\<lambda>_ _. Inr ()), pl_helmFiles = (\<lambda>_. []), pl_Fhelm = flat_files, pl_Fseal = flat_files,
       pl_Fbuild = flat_files, pl_depth = 1\<rparr>, r_loadTime = 0, r_nextSourceId = 1\<rparr>"

definition sample_spec :: KluctlDeploymentSpec where
  "sample_spec = \<lparr>ks_Source = \<lparr>src_URL = \<lparr>u_Scheme = ''https'', u_User = None, u_Host = ''git.example.com'', u_Path = ''/org/repo'', u_RawQuery = []\<rparr>, src_Ref = None, src_Path = ''.'', src_SecretRef = None\<rparr>,
     ks_Decryption = None, ks_Interval = 60, ks_RetryInterval = None, ks_DeployInterval = None, ks_ValidateInterval = None, ks_Timeout = None, ks_Suspend = False,
     ks_HelmCredentials = [], ks_ServiceAccountName = [], ks_KubeConfig = Some \<lparr>skr_Name = ''kubeconfig'', skr_Key = []\<rparr>, ks_Target = None, ks_TargetNameOverride = None,
     ks_Context = None, ks_Args = [], ks_Images = [], ks_DryRun = False, ks_NoWait = False, ks_ForceApply = False, ks_ReplaceOnError = False,
     ks_ForceReplaceOnError = False, ks_AbortOnError = False, ks_IncludeTags = [], ks_ExcludeTags = [], ks_IncludeDeploymentDirs = [], ks_ExcludeDeploymentDirs = [],
     ks_DeployMode = ''full-deploy'', ks_Validate = True, ks_Prune = False, ks_Delete = True\<rparr>"

definition sample_status :: KluctlDeploymentStatus where
  "sample_status = \<lparr>kst_LastHandledReconcileAt = [], kst_LastHandledDeployAt = [], kst_ObservedGeneration = 0, kst_ObservedCommit = [], kst_Conditions = [],
     kst_ProjectKey = None, kst_TargetKey = None, kst_LastObjectsHash = [], kst_LastDeployError = [], kst_LastValidateError = [], kst_LastDeployResult = None,
     kst_LastValidateResult = None\<rparr>"

definition sample_kd :: KluctlDeployment where
  "sample_kd = \<lparr>kd_Name = ''n'', kd_Namespace = ''ns'', kd_Annotations = [], kd_Generation = 1, kd_Finalizers = [], kd_Deleted = False,
     kd_Spec = sample_spec, kd_Status = sample_status\<rparr>"

definition startCtl :: "KluctlDeployment \<Rightarrow> ctl" where
  "startCtl x = \<lparr>ct_cluster = start_state, ct_obj = x, ct_stored = x, ct_events = []\<rparr>"


definition deleted_kd :: KluctlDeployment where
  "deleted_kd = sample_kd\<lparr>kd_Deleted := True, kd_Finalizers := [finalizerName], kd_Status := sample_status\<lparr>kst_ProjectKey := Some \<lparr>pk_GitRepoKey = \<lparr>rk_Host = ''h'', rk_Path = ''p''\<rparr>, pk_SubDir = []\<rparr>,
     kst_TargetKey := Some \<lparr>tk_TargetName = [], tk_ClusterId = [], tk_Discriminator = ''d''\<rparr>\<rparr>\<rparr>"

lemma sample_ctl_ops [simp]:
  "r_C sample_ctl = sample_cmd_env" "r_NewCluster sample_ctl rc dry = Inr (serving_cluster dry)" "r_Patch sample_ctl x = None"
  "r_ResultStore sample_ctl = None" "r_DryRun sample_ctl = False"
  "r_SetStatusCondition sample_ctl = setCondition" "r_FindStatusCondition sample_ctl cs t = find (\<lambda>c. cn_Type c = t) cs"
  "r_now sample_ctl w h = 100" "r_SummaryFromYaml sample_ctl raw = Inr (some_summary (digits_val raw))" "r_SummaryToJson sample_ctl su = Inr (show_nat (length (su_Errors su)))"
  by (simp_all add: sample_ctl_def)

lemma sample_prepared: "\<exists>pp. prepareProject sample_ctl deleted_kd False = Inr pp"
  by (simp add: prepareProject_def sample_ctl_def deleted_kd_def sample_kd_def sample_spec_def getGitSecret_def buildRepoCache_def optErr_def Let_def wrapE_def)

lemma sample_client:
  "buildRestConfig sample_ctl (sample_kd\<lparr>kd_Deleted := d, kd_Finalizers := f, kd_Status := st\<rparr>) =
     Inr (some_rest\<lparr>rc_Impersonate := (''system:serviceaccount:ns:default'', [], [], [])\<rparr>)"
  by (simp add: buildRestConfig_def getKubeconfigFromSecret_def setImpersonationConfig_def serviceAccountFor_def sample_ctl_def sample_kd_def
      sample_spec_def Let_def)

abbreviation sample_deletion :: DeleteCommand where
  "sample_deletion \<equiv> \<lparr>dlc_discriminator = ''d'', dlc_targetCtx = None, dlc_inclusion = Some (buildInclusion sample_spec), dlc_wait = False\<rparr>"

lemma sample_deletion_runs:
  "\<exists>r s. DeleteCommand_Run sample_cmd_env (Some (serving_cluster False)) sample_deletion (Some (\<lambda>_. None)) 0 start_state = (Inr (Some r, None), s) \<and>
     ReqDelete sample_ref False \<in> set (reqlog s)"
proof -
  let ?run = "DeleteCommand_Run sample_cmd_env (Some (serving_cluster False)) sample_deletion (Some (\<lambda>_. None)) 0 start_state"
  have "case outcome_of ?run of None \<Rightarrow> False | Some (out, h) \<Rightarrow> \<not> Option.is_none (fst out) \<and> Option.is_none (snd out) \<and> ReqDelete sample_ref False \<in> set h"
    by code_simp
  then obtain out s where r: "?run = (Inr out, s)" "\<not> Option.is_none (fst out)" "Option.is_none (snd out)" "ReqDelete sample_ref False \<in> set (reqlog s)"
    by (rule outcomeE) blast
  moreover obtain x y where "out = (x, y)" by (cases out)
  ultimately show ?thesis by (auto simp: Option.is_none_def)
qed

lemma sample_finalize:
  "\<exists>s. finalize sample_ctl (startCtl deleted_kd) = (Inr (\<lparr>cres_Requeue = False, cres_RequeueAfter = 0\<rparr>, None), s) \<and>
     ReqDelete sample_ref False \<in> set (reqlog (ct_cluster s))"
proof -
  obtain pp where pp: "prepareProject sample_ctl deleted_kd False = Inr pp" using sample_prepared by blast
  obtain r s where d: "DeleteCommand_Run sample_cmd_env (Some (serving_cluster False)) sample_deletion (Some (\<lambda>_. None)) 0 start_state = (Inr (Some r, None), s)"
    "ReqDelete sample_ref False \<in> set (reqlog s)" using sample_deletion_runs by blast
  have now: "ce_now sample_cmd_env h = 0" for h by (simp add: sample_cmd_env_def)
  have kd: "ks_Delete (kd_Spec deleted_kd)" "\<not> ks_Suspend (kd_Spec deleted_kd)" "isDry sample_ctl deleted_kd = False" "kd_Spec deleted_kd = sample_spec"
     by (simp_all add: deleted_kd_def sample_kd_def sample_spec_def isDry_def)
  have st: "\<exists>pk. kst_ProjectKey (kd_Status deleted_kd) = Some pk" "kst_TargetKey (kd_Status deleted_kd) = Some \<lparr>tk_TargetName = [], tk_ClusterId = [], tk_Discriminator = ''d''\<rparr>"
    by (simp_all add: deleted_kd_def)
  have k: "deletionCluster sample_ctl deleted_kd = Inr (serving_cluster False)"
    using kd(3) by (simp add: deletionCluster_def deleted_kd_def sample_client)
  have c: "start_state\<lparr>rs_dew := dew_Init, rs_ru := \<lparr>ru_remoteObjects = [], ru_remoteNamespaces = []\<rparr>\<rparr> = start_state"
    by (simp add: start_state_def)
  have "\<exists>out s'. kluctlDelete sample_ctl pp ''d'' (startCtl deleted_kd) = (Inr out, s') \<and> ct_cluster s' = s"
    using kd d k c now by (simp add: kluctlDelete_def run_simps bindM_def attemptM_def startCtl_def runCommand_def deleteCommandFor_def finishDelete_def handleCommandResult_def seqM_def event_def Let_def)
  then show ?thesis using kd st pp d(2)
    by (auto simp: finalize_def doFinalize_def seqM_def bindM_def run_simps attemptM_def startCtl_def modObj_def patchObject_def)
qed


theorem Reconcile_writes_witness:
  "\<exists>out s'. Reconcile sample_ctl (startCtl deleted_kd) = (Inr out, s') \<and> ReqDelete sample_ref False \<in> set (reqlog (ct_cluster s')) \<and>
     ks_Delete (kd_Spec deleted_kd) \<and> kst_TargetKey (kd_Status deleted_kd) \<noteq> None"
proof -
  obtain s' where f: "finalize sample_ctl (startCtl deleted_kd) = (Inr (\<lparr>cres_Requeue = False, cres_RequeueAfter = 0\<rparr>, None), s')"
    "ReqDelete sample_ref False \<in> set (reqlog (ct_cluster s'))" using sample_finalize by blast
  have a: "addFinalizer sample_ctl (startCtl deleted_kd) = (Inr None, startCtl deleted_kd)"
    by (simp add: addFinalizer_def bindM_def run_simps startCtl_def deleted_kd_def)
  have r: "Reconcile sample_ctl (startCtl deleted_kd) = (Inr (\<lparr>cres_Requeue = False, cres_RequeueAfter = 0\<rparr>, None), s')"
  proof -
    have "(startCtl deleted_kd)\<lparr>ct_obj := ct_stored (startCtl deleted_kd)\<rparr> = startCtl deleted_kd" "kd_Deleted (ct_obj (startCtl deleted_kd))"
      by (simp_all add: startCtl_def deleted_kd_def)
    then show ?thesis using f a by (simp add: Reconcile_def Let_def seqM_def bindM_def run_simps)
  qed
  have "cluster_law sample_ctl" "ct_stored (startCtl deleted_kd) = deleted_kd" "kd_Deleted deleted_kd" "reqlog (ct_cluster (startCtl deleted_kd)) = []"
    by (simp_all add: cluster_law_def sample_ctl_def serving_cluster_def startCtl_def start_state_def deleted_kd_def sample_cluster_def)
  moreover have "\<not> read_only (ReqDelete sample_ref False)" by (simp add: read_only_def)
  ultimately show ?thesis
    using r f(2) Reconcile_writes [OF r, unfolded sample_ctl_ops, OF sample_cmd_env_ok(1,2)] by (auto simp: list_all_iff)
qed

theorem client_impersonates_witness:
  "buildRestConfig sample_ctl sample_kd = Inr (some_rest\<lparr>rc_Impersonate := (''system:serviceaccount:ns:default'', [], [], [])\<rparr>) \<and>
   fst (rc_Impersonate some_rest) = ''admin'' \<and> (\<exists>c. buildKubeconfig sample_ctl sample_kd = Inr c \<and> length (cfg_AuthInfos c) = 1)"
proof -
  have c: "buildRestConfig sample_ctl sample_kd = Inr (some_rest\<lparr>rc_Impersonate := (''system:serviceaccount:ns:default'', [], [], [])\<rparr>)"
    using sample_client [of sample_status "[]" False] by (simp add: sample_kd_def)
  have n: "serviceAccountFor sample_ctl sample_kd = ''default''" by (simp add: serviceAccountFor_def sample_ctl_def sample_kd_def sample_spec_def)
  then show ?thesis using client_impersonates [OF c] c by (auto simp: some_rest_def)
qed

text \<open>Nothing to do for an object whose last deployment went well; an unknown mode of deployment is not hidden.\<close>

definition settled_kd :: KluctlDeployment where
  "settled_kd = sample_kd\<lparr>kd_Spec := sample_spec\<lparr>ks_Validate := False\<rparr>, kd_Status := sample_status\<lparr>kst_LastDeployResult := Some ''0'', kst_LastObjectsHash := ''h''\<rparr>\<rparr>"

definition odd_kd :: KluctlDeployment where
  "odd_kd = settled_kd\<lparr>kd_Spec := sample_spec\<lparr>ks_Validate := False, ks_DeployMode := ''other''\<rparr>\<rparr>"

lemma some_summary_errors [simp]: "su_Errors (some_summary n) = [] \<longleftrightarrow> n = 0" "digits_val ''0'' = 0"
  by (simp add: some_summary_def) code_simp

lemma sample_condition_law: "condition_law sample_ctl"
proof -
  have "find (\<lambda>d. cn_Type d = cn_Type c) (setCondition c cs) = Some (c\<lparr>cn_LastTransitionTime := cn_LastTransitionTime c\<rparr>)" for c cs
    by (simp add: setCondition_def)
  then show ?thesis unfolding condition_law_def by (metis sample_ctl_ops(6,7))
qed

definition sample_pp :: preparedProject where
  "sample_pp = \<lparr>pp_rp = \<lparr>rp_TmpBaseDir = ''/tmp/c'', rp_Auth = None\<rparr>, pp_tmpDir = ''/tmp/n-'', pp_CheckedOutRef = noGitRef,
     pp_CheckedOutCommit = ''c1'', pp_repoDir = ''/p'', pp_projectDir = ''/p''\<rparr>"

lemmas sample_kd_simps = settled_kd_def odd_kd_def sample_kd_def sample_spec_def sample_status_def startCtl_def
lemmas reconcile_simps = reconcileTarget_def finishReconcile_def needDeploy_def needValidate_def nextReconcileTime_def nextDeployTime_def
  nextValidateTime_def buildFinalStatus_def deployOk_def requeueAt_def modObj_def modStatus_def setReadiness_def bindM_def seqM_def whenM_def run_simps Let_def

lemma odd_deploy:
  assumes "ks_DeployMode (kd_Spec (ct_obj s)) = ''other''"
  shows "runDeploy R pp T s = (Inr None, s\<lparr>ct_obj := (ct_obj s)\<lparr>kd_Status := (kd_Status (ct_obj s))\<lparr>
    kst_LastDeployError := ''deployMode '' @ quoted ''other'' @ '' not supported'', kst_LastDeployResult := None\<rparr>\<rparr>\<rparr>)"
  using assms by (simp add: runDeploy_def bindM_def seqM_def run_simps modStatus_def modObj_def BuildSummary_def SetLastDeployResult_def Let_def)




text \<open>A request that is seen while the repository cannot be prepared: a deployment was due before, and is not due any more.\<close>

definition broken_ctl :: KluctlDeploymentReconciler where
  "broken_ctl = sample_ctl\<lparr>r_MkdirTemp := \<lambda>_ _. Inl (Error ''no space'')\<rparr>"

definition requested_kd :: KluctlDeployment where
  "requested_kd = settled_kd\<lparr>kd_Annotations := [(''kluctl.io/request-deploy'', ''now'')], kd_Status := (kd_Status settled_kd)\<lparr>kst_ObservedGeneration := 1\<rparr>\<rparr>"


end
