(* ===== verification/Spec2Isabelle.thy ===== *)
theory Spec2Isabelle
  imports Uo_Iterator Uo_Merge Uo_K8s Util_Collections Apply_Deployments Diff Results Images File_Paths Vars
    Deployment_Collection Controller_Properties
begin

text \<open>
  This library verifies kluctl, a tool that renders deployment projects and applies them to Kubernetes clusters, and its
  controller. Each theory translates a part of the Go code below \<^verbatim>\<open>src/\<close> and proves what the rest of the program
  relies on; the properties stand next to the definitions they are about.

  \<^bold>\<open>The program.\<close> A project is read from a checkout: configuration and targets
  (\<^verbatim>\<open>pkg/kluctl_project\<close>), variables (\<^verbatim>\<open>pkg/vars\<close>), then the tree of deployment projects with their includes, the
  deployment items and their collection (\<^verbatim>\<open>pkg/deployment\<close>). The items are rendered and built into objects, which are marked with
  labels and get their images. A command (\<^verbatim>\<open>pkg/deployment/commands\<close>) takes a snapshot of the cluster, applies the items
  with server-side apply on up to eight workers, runs hooks, resolves conflicts of field managers, waits for readiness, finds and deletes
  orphans, and reports changes, errors and warnings as a result. The controller (\<^verbatim>\<open>pkg/controllers\<close>)
  does the same for objects of kind KluctlDeployment, again and again, and keeps the outcome in their status.

  \<^bold>\<open>Conventions.\<close> A Go error is a value of \<^typ>\<open>go_error\<close>, a panic too, under a constructor of its own; functions that
  can fail return \<open>'a res\<close>. Stateful code is a function from a state to an outcome and a state, so that what happened before
  an error stays visible. A request to the API server is an entry of the log \<open>reqlog\<close> of the state, and the answer of the
  server is an arbitrary function of the log so far: every theorem holds for a server that changes between two requests.
  Go maps are association lists in the order in which they are iterated; where the order of Go is random it is a parameter, a permutation.
  Integers of the objects are 64-bit words; times and durations are \<^typ>\<open>int\<close>. Libraries (YAML, the template engine, Helm, git, the
  file system, hashes, regular expressions, the API of Kubernetes) are fields of environment records, and what is assumed of them is a named
  hypothesis of the theorem, for example \<open>cluster_law\<close> and \<open>condition_law\<close>, with a witness on a concrete instance.

  \<^bold>\<open>Foundations.\<close>
  \<^item> \<open>Prelude\<close>: errors, maps, the lemma collections. \<open>Effects\<close>: the combinators for effects, Hoare triples, and
    the locales \<open>step_rel\<close> (a reflexive and transitive relation between the states before and after, with one rule per
    combinator) and \<open>outcome_rel\<close> (the same with the value that is returned).
  \<^item> \<open>Go_Strings\<close>, \<open>Go_Base64\<close>, \<open>File_Paths\<close>: what the code uses of \<^verbatim>\<open>strings\<close>, \<^verbatim>\<open>strconv\<close>,
    \<^verbatim>\<open>encoding/base64\<close> and \<^verbatim>\<open>path/filepath\<close>, with \<^verbatim>\<open>pkg/utils/fs.go\<close>.
  \<^item> \<open>Uo_Value\<close>, \<open>Uo_Paths\<close>, \<open>Uo_Iterator\<close>, \<open>Uo_Merge\<close>, \<open>Uo_JsonPath\<close>, \<open>Uo_K8s\<close>:
    unstructured objects (\<^verbatim>\<open>pkg/utils/uo\<close>). The locale \<open>nested_store\<close> is the contract of nested fields, interpreted on
    \<^const>\<open>GetNestedField\<close> and \<^const>\<open>SetNestedField\<close>; every edit keeps objects well-formed.
  \<^item> \<open>Util_Collections\<close>: inclusion filters, the ordered map (an instance of \<open>first_wins_map\<close>), thread-safe caches.
  \<^item> \<open>Git_Types\<close>, \<open>Deployment_Types\<close>: \<^verbatim>\<open>pkg/types\<close>, with the keys that identify repositories.

  \<^bold>\<open>The cluster.\<close>
  \<^item> \<open>K8s_Cluster\<close>: the requests of \<^verbatim>\<open>pkg/k8s\<close>, dry runs, waiting for deletions; \<open>logs P\<close>, an instance of
    \<open>step_rel\<close>, says that all new requests satisfy \<open>P\<close>.
  \<^item> \<open>Errors_Holder\<close>: errors and warnings of a command, two instances of the locale \<open>collector\<close>.
  \<^item> \<open>Remote_Objects\<close>, \<open>Delete_Utils\<close>, \<open>Validation\<close>, \<open>Managed_Fields\<close>: the snapshot, what may be
    deleted and in which stages, the verdict on one object, and the conflicts of a server-side apply.
  \<^item> \<open>Apply_Utils\<close>, \<open>Apply_Safety\<close>, \<open>Hooks\<close>: applying one object on all its paths (dry run, replace, forced
    replace, conflicts), its requests and its single outcome; the order of hooks.
  \<^item> \<open>Apply_Deployments\<close>: the loop over the items as a step relation, an inductive predicate with a step for the loop, for
    starting, for finishing and for barriers; invariants by rule induction, a measure that decreases with every step, and progress. The locale
    \<open>item_rel\<close> lifts a relation from requests to items; the locale \<open>schedule\<close> is what the commands need of a run, and
    \<open>runAll\<close>, one item after the other, is its instance.

  \<^bold>\<open>Projects and items.\<close>
  \<^item> \<open>Vars\<close>: sources of variables and arguments. \<open>Deployment_Project\<close>: includes and inheritance.
    \<open>Deployment_Item\<close>: paths, tags, rendering, sealed secrets, building and marking. \<open>Deployment_Collection\<close>: which items exist.
    \<open>Images\<close>: placeholders and fixed images.
  \<^item> \<open>Kluctl_Project\<close>: targets, arguments, the context of a target. \<open>Loading_Safety\<close>: all of loading only reads.

  \<^bold>\<open>Results, commands and the controller.\<close>
  \<^item> \<open>Diff\<close>, \<open>Diff_Utils\<close>, \<open>Results\<close>: normalization, comparison and drawing of changes, obfuscation of secrets, the
    stored form of results.
  \<^item> \<open>Commands\<close>, \<open>Command_Properties\<close>: deploy, diff, prune, delete, poke-images and validate as
    compositions of stages; what each may send, what it deletes and what it reports.
  \<^item> \<open>Controller\<close>, \<open>Controller_Properties\<close>: the specification and status of an object, preparing its project, client
    configuration and impersonation, the commands run for it, the decision to deploy and to validate, conditions and events, finalizers and
    deletion, \<^const>\<open>Reconcile\<close> as a whole. The relations \<open>clogs\<close> (new requests) and \<open>same\<close> (a part of the object that is left
    alone) are instances of \<open>step_rel\<close>.

  \<^bold>\<open>What is shown.\<close>
  \<^item> Nothing is written that should not be: a diff and a dry run are harmless, a deployment waits for its confirmation, loading and
    validation read, pruning and deletion touch only managed, unowned, unprotected, included objects, and the controller writes only when
    there is a reason to.
  \<^item> The bookkeeping is right: every object of an apply or a deletion has one outcome, results list every object once, the
    condition Ready is true exactly when the recorded results are good, and a handled request is not handled again.
  \<^item> Concurrency: in every interleaving barriers hold, at most eight items run, and every run ends.
  \<^item> The data operations do what they say: nested fields, merges, precedence of variables and arguments, inheritance, placeholders, repository
    keys, hooks, stages of deletion, conflict resolution, compact results, paths.

  \<^bold>\<open>Bounds.\<close> Four loops of the code need not end, and have a bound whose exhaustion is the separate outcome \<open>OutOfFuel\<close>:
  polling and repeated replacing (\<open>k_polls\<close>; waiting for readiness is proved to return when the bound exceeds the round in which the timer
  fires), includes of deployment projects (\<open>te_depth\<close>; a project that includes itself runs out of every bound), nested kustomizations with
  sealed secrets (\<open>pl_depth\<close>; likewise for a directory that lists itself), and the search for placeholders in a string (two rounds are
  enough for a string that starts with its only placeholder; on two adjacent placeholders the code does not end, and every bound runs out). The ten rounds in which targets are rendered are those of the code.

  \<^bold>\<open>Left out inside modelled parts.\<close> Log output, metrics, progress bars, tracing, deadlines other than those that are observed
  through a request or a clock, and the wording of messages behind the constant part of their format where nothing reads them.
  Workers of a deployment interleave between the items; the requests inside one item are not interleaved with those of another,
  which they affect only through the server, whose answers are arbitrary. The snapshot and the deletion run their workers in an order that is
  a parameter.

  \<^bold>\<open>Not modelled.\<close> Helm charts, SOPS, registries, git transport and caches, the store of results, sealing: wrappers of libraries whose
  effects are on the network or the file system. The command line, the web interface and the status output only call what is modelled
  or print. The YAML wrapper and the template engine belong to libraries. Deep copies are generated and are identities on the values of the
  model. Test servers and tools are not part of the program.
\<close>

end
